theory Spec2Isabelle
  imports Complex_Main "HOL-Library.Log_Nat"
begin

section \<open>Leaflet.BigImage: the export control and its compositor\<close>

text \<open>
  The repository holds two variants of one component. The Leaflet 2 variant is the class
  \<^verbatim>\<open>BigImageControl\<close>; its functions keep their source names here (without the leading
  underscore). The legacy variant is \<^verbatim>\<open>L.Control.BigImage\<close> (\<^verbatim>\<open>src/Leaflet.BigImage.js\<close>);
  its functions carry the prefix \<open>legacy_\<close>.

  JavaScript numbers are modelled as real numbers. In Expand, where the scale typed by
  the user enters the arithmetic, every operation is rounded as the source's is (see
  \<open>fl\<close> below); the arithmetic on pixel coordinates elsewhere (\<open>+\<close>, \<open>-\<close>, \<open>*\<close>, \<open>/\<close>,
  \<open>Math.floor\<close>, \<open>Math.round\<close>) is taken without rounding error. \<open>NaN\<close> and the
  infinities are not numbers of the model; where the source can produce them (a
  division by a zero tile size) the model says so explicitly.
\<close>

subsection \<open>Numbers\<close>

text \<open>
  A number of the source is an IEEE 754 double: the result of \<open>+\<close>, \<open>-\<close>, \<open>*\<close> or \<open>/\<close> is the
  exact result rounded to the nearest number with a significand of 53 bits, a tie going
  to the even significand. \<open>exponent x\<close> is the integer part of the binary logarithm of
  \<open>\<bar>x\<bar>\<close>, computed from bit lengths; below \<open>2 ^ -1022\<close> the doubles are spaced \<open>2 ^ -1074\<close>
  apart. \<open>fl x\<close> is the double nearest to \<open>x\<close> (for \<open>x\<close> in the range of the finite
  doubles).
\<close>

definition exponent :: "real \<Rightarrow> int" where
  "exponent x =
     (if 1 \<le> \<bar>x\<bar> then int (floorlog 2 (nat \<lfloor>\<bar>x\<bar>\<rfloor>)) - 1
      else - int (floorlog 2 (nat (\<lceil>1 / \<bar>x\<bar>\<rceil> - 1))))"

definition pow2 :: "int \<Rightarrow> real" where
  "pow2 k = (if 0 \<le> k then 2 ^ nat k else 1 / 2 ^ nat (- k))"

definition roundTiesToEven :: "real \<Rightarrow> int" where
  "roundTiesToEven r =
     (let n = \<lfloor>r\<rfloor>; d = r - of_int n
      in if d < 1 / 2 then n else if 1 / 2 < d then n + 1 else if even n then n else n + 1)"

definition fl :: "real \<Rightarrow> real" where
  "fl x =
     (if x = 0 then 0
      else let q = pow2 (max (exponent x) (- 1022) - 52)
           in of_int (roundTiesToEven (x / q)) * q)"

text \<open>The numbers that are doubles.\<close>

definition representable :: "real \<Rightarrow> bool" where
  "representable x \<longleftrightarrow> fl x = x"

subsection \<open>Points, bounds, canvas\<close>

record point =
  px :: real
  py :: real

record bounds =
  min_pt :: point
  max_pt :: point

text \<open>The canvas element of the browser keeps its dimensions as integers. An assignment
  to \<^verbatim>\<open>canvas.width\<close> or \<^verbatim>\<open>canvas.height\<close> converts the number to an unsigned 32-bit
  integer (the fraction is dropped, the rest is taken modulo \<open>2 ^ 32\<close>) and stores it when
  it is at most \<open>2147483647\<close>; otherwise it stores the default of the attribute, \<open>300\<close>
  for the width and \<open>150\<close> for the height, which are also the dimensions of a canvas
  just created.\<close>

record canvas =
  width :: nat
  height :: nat

definition ToUint32 :: "real \<Rightarrow> int" where
  "ToUint32 v = (if v < 0 then - \<lfloor>- v\<rfloor> else \<lfloor>v\<rfloor>) mod 2 ^ 32"

definition dimension :: "nat \<Rightarrow> real \<Rightarrow> nat" where
  "dimension dflt v = (if ToUint32 v \<le> 2147483647 then nat (ToUint32 v) else dflt)"

definition set_width :: "real \<Rightarrow> canvas \<Rightarrow> canvas" where
  "set_width v c = c\<lparr>width := dimension 300 v\<rparr>"

definition set_height :: "real \<Rightarrow> canvas \<Rightarrow> canvas" where
  "set_height v c = c\<lparr>height := dimension 150 v\<rparr>"

definition createElement_canvas :: canvas where
  "createElement_canvas = \<lparr>width = 300, height = 150\<rparr>"

text \<open>\<^verbatim>\<open>Point.subtract\<close>, \<^verbatim>\<open>Point.divideBy\<close>, \<^verbatim>\<open>Point._floor\<close> and \<^verbatim>\<open>Point.scaleBy\<close> of the host
  library, as the compositor uses them.\<close>

definition subtract :: "point \<Rightarrow> point \<Rightarrow> point" where
  "subtract p q = \<lparr>px = px p - px q, py = py p - py q\<rparr>"

definition scaleBy :: "point \<Rightarrow> point \<Rightarrow> point" where
  "scaleBy p q = \<lparr>px = px p * px q, py = py p * py q\<rparr>"

subsection \<open>Capture and Expand\<close>

text \<open>What the compositor reads from the host map: \<^verbatim>\<open>getSize()\<close>, \<^verbatim>\<open>getZoom()\<close> and
  \<^verbatim>\<open>getPixelBounds()\<close> at the start of an export, and the projection \<^verbatim>\<open>project(latlng)\<close>
  of a coordinate to a pixel point.\<close>

record host_map =
  getSize :: point
  getZoom :: real
  getPixelBounds :: bounds
  project :: "real \<times> real \<Rightarrow> point"

text \<open>The part of the control's state that Capture and Expand touch:
  \<^verbatim>\<open>this.zoom\<close>, \<^verbatim>\<open>this.bounds\<close>, \<^verbatim>\<open>this.canvas\<close>.\<close>

record frame =
  zoom :: real
  bounds :: bounds
  canvas :: canvas

definition capture :: "host_map \<Rightarrow> frame" where
  "capture m =
     (let dimensions = getSize m;
          c = createElement_canvas;
          c = set_width (px dimensions) c;
          c = set_height (py dimensions) c
      in \<lparr>zoom = getZoom m, bounds = getPixelBounds m, canvas = c\<rparr>)"

text \<open>\<^verbatim>\<open>_applyScale(scale)\<close> of the Leaflet 2 variant; \<open>scale\<close> is a number, and
  \<^verbatim>\<open>!scale\<close> holds for \<open>0\<close>. Every operation is rounded; \<^verbatim>\<open>canvas.width *= scale\<close> reads
  the integer width, multiplies and assigns the product to the canvas element.\<close>

definition applyScale :: "real \<Rightarrow> frame \<Rightarrow> frame" where
  "applyScale scale f =
     (if scale = 0 \<or> scale \<le> 1 then f
      else
        let b = bounds f;
            addX = fl (fl (fl (px (max_pt b) - px (min_pt b)) / 2) * fl (scale - 1));
            addY = fl (fl (fl (py (max_pt b) - py (min_pt b)) / 2) * fl (scale - 1));
            mn = min_pt b;
            mx = max_pt b;
            mn = mn\<lparr>px := fl (px mn - addX)\<rparr>;
            mn = mn\<lparr>py := fl (py mn - addY)\<rparr>;
            mx = mx\<lparr>px := fl (px mx + addX)\<rparr>;
            mx = mx\<lparr>py := fl (py mx + addY)\<rparr>;
            c = canvas f;
            c = set_width (fl (real (width c) * scale)) c;
            c = set_height (fl (real (height c) * scale)) c
        in f\<lparr>bounds := \<lparr>min_pt = mn, max_pt = mx\<rparr>, canvas := c\<rparr>)"

text \<open>\<^verbatim>\<open>_changeScale(scale)\<close> of the legacy variant. It receives the raw value of the number
  input, a string: \<open>None\<close> is the empty string (what a number input holds when the field
  is empty or its text is not a number), \<open>Some v\<close> a numeric string, which every
  comparison and arithmetic operator of the body converts to the number \<open>v\<close>.
  \<^verbatim>\<open>!scale\<close> holds for the empty string only.\<close>

definition legacy_changeScale :: "real option \<Rightarrow> frame \<Rightarrow> frame" where
  "legacy_changeScale scale f =
     (case scale of
        None \<Rightarrow> f
      | Some s \<Rightarrow>
          if s \<le> 1 then f
          else
            let b = bounds f;
                addX = fl (fl (fl (px (max_pt b) - px (min_pt b)) / 2) * fl (s - 1));
                addY = fl (fl (fl (py (max_pt b) - py (min_pt b)) / 2) * fl (s - 1));
                mn = min_pt b;
                mx = max_pt b;
                mn = mn\<lparr>px := fl (px mn - addX)\<rparr>;
                mn = mn\<lparr>py := fl (py mn - addY)\<rparr>;
                mx = mx\<lparr>px := fl (px mx + addX)\<rparr>;
                mx = mx\<lparr>py := fl (py mx + addY)\<rparr>;
                c = canvas f;
                c = set_width (fl (real (width c) * s)) c;
                c = set_height (fl (real (height c) * s)) c
            in f\<lparr>bounds := \<lparr>min_pt = mn, max_pt = mx\<rparr>, canvas := c\<rparr>)"

text \<open>The centre of a rectangle, used to state that Expand is symmetric.\<close>

definition centre :: "bounds \<Rightarrow> point" where
  "centre b = \<lparr>px = (px (min_pt b) + px (max_pt b)) / 2,
               py = (py (min_pt b) + py (max_pt b)) / 2\<rparr>"

text \<open>Expand makes no rounding error on an axis with the bounds \<open>lo\<close> and \<open>hi\<close>: the exact
  result of each of its operations is a double.\<close>

definition exact_axis :: "real \<Rightarrow> real \<Rightarrow> real \<Rightarrow> bool" where
  "exact_axis s lo hi \<longleftrightarrow>
     representable (hi - lo) \<and> representable ((hi - lo) / 2) \<and> representable (s - 1)
   \<and> representable ((hi - lo) / 2 * (s - 1))
   \<and> representable (lo - (hi - lo) / 2 * (s - 1))
   \<and> representable (hi + (hi - lo) / 2 * (s - 1))"

subsection \<open>Objects with integer and with string keys\<close>

text \<open>The caches are plain JavaScript objects, modelled as association lists in the
  order in which \<^verbatim>\<open>Object.values\<close> and \<^verbatim>\<open>Object.entries\<close> enumerate them: keys that are
  integers (the layer identifiers) in ascending order, other keys (the tile keys) in
  the order of their first insertion. An assignment to an existing key keeps its place.\<close>

fun int_put :: "nat \<Rightarrow> 'v \<Rightarrow> (nat \<times> 'v) list \<Rightarrow> (nat \<times> 'v) list" where
  "int_put k v [] = [(k, v)]"
| "int_put k v ((k', v') # kvs) =
     (if k = k' then (k, v) # kvs
      else if k < k' then (k, v) # (k', v') # kvs
      else (k', v') # int_put k v kvs)"

fun str_put :: "'k \<Rightarrow> 'v \<Rightarrow> ('k \<times> 'v) list \<Rightarrow> ('k \<times> 'v) list" where
  "str_put k v [] = [(k, v)]"
| "str_put k v ((k', v') # kvs) =
     (if k = k' then (k, v) # kvs else (k', v') # str_put k v kvs)"

definition values_of :: "('k \<times> 'v) list \<Rightarrow> 'v list" where
  "values_of kvs = map snd kvs"

text \<open>Truthiness of an optional string (\<open>None\<close> is \<^verbatim>\<open>undefined\<close>): the empty string is
  falsy. \<open>a || b\<close> on strings.\<close>

definition truthy :: "string option \<Rightarrow> bool" where
  "truthy s = (case s of None \<Rightarrow> False | Some t \<Rightarrow> t \<noteq> [])"

definition or_str :: "string option \<Rightarrow> string option \<Rightarrow> string option" where
  "or_str a b = (if truthy a then a else b)"

text \<open>\<^verbatim>\<open>Math.round\<close> rounds halves up.\<close>

definition js_round :: "real \<Rightarrow> real" where
  "js_round v = of_int \<lfloor>v + 1 / 2\<rfloor>"

subsection \<open>The layers of the host map\<close>

type_synonym latlng = "real \<times> real"

text \<open>A tile layer. \<open>options_tileSize\<close> is \<^verbatim>\<open>options.tileSize\<close> (read by the Leaflet 2
  variant), \<open>tileSize_x\<close> is \<^verbatim>\<open>_tileSize.x\<close> (read by the legacy variant).
  \<^verbatim>\<open>_adjustTilePoint\<close> is a method only some host versions have; it rewrites the tile
  point in place. \<^verbatim>\<open>getTileUrl\<close> may throw: \<open>None\<close>.\<close>

record tile_layer =
  tl_id :: nat
  options_tileSize :: "real option"
  tileSize_x :: real
  options_opacity :: "real option"
  adjustTilePoint :: "(point \<Rightarrow> point) option"
  getTileUrl :: "point \<Rightarrow> string option"

text \<open>A marker: \<^verbatim>\<open>_latlng\<close>, \<^verbatim>\<open>options.icon.options.iconAnchor\<close>, \<^verbatim>\<open>_icon.src\<close> and
  \<^verbatim>\<open>_icon.innerHTML\<close> (\<open>None\<close> when \<^verbatim>\<open>_icon\<close> or the property is missing).\<close>

record marker =
  mk_id :: nat
  mk_latlng :: latlng
  iconAnchor :: "(real \<times> real) option"
  icon_src :: "string option"
  icon_innerHTML :: "string option"

text \<open>The style options of a path or circle. A field is \<open>None\<close> when the option is
  \<^verbatim>\<open>undefined\<close>. \<open>dashArray\<close> is \<^verbatim>\<open>options.dashArray\<close>, \<open>dashArray_legacy\<close>
  is \<^verbatim>\<open>options._dashArray\<close>.\<close>

record path_options =
  fill :: bool
  fillOpacity :: "real option"
  fillColor :: "string option"
  color :: "string option"
  fillRule :: "string option"
  stroke :: "bool option"
  weight :: "real option"
  opacity :: "real option"
  dashArray :: "real list option"
  dashArray_legacy :: "real list option"
  lineCap :: "string option"
  lineJoin :: "string option"

text \<open>A circle: \<^verbatim>\<open>_latlng\<close>, \<^verbatim>\<open>_radius\<close>, \<^verbatim>\<open>_radiusY\<close>, the result of \<^verbatim>\<open>_empty()\<close>
  (\<open>None\<close> when the layer has no such method) and the style options.\<close>

record circle =
  c_id :: nat
  c_latlng :: latlng
  radius :: real
  radiusY :: "real option"
  empty_result :: "bool option"
  c_options :: path_options

text \<open>The value of \<^verbatim>\<open>_latlngs\<close>: a coordinate object or an array of such values (a
  polyline holds an array of coordinates, a polygon an array of rings).\<close>

datatype jsv = LatLng latlng | Arr "jsv list"

text \<open>A vector path: \<^verbatim>\<open>_mRadius\<close> (truthy or not), \<^verbatim>\<open>_latlngs\<close> (\<open>None\<close> when missing)
  and the style options.\<close>

record path =
  p_id :: nat
  mRadius :: bool
  latlngs :: "jsv option"
  p_options :: path_options

text \<open>The layers by the class tests of the source. A circle is also a path in the
  host's class hierarchy; both variants test for the circle first, so the constructor
  \<open>Path\<close> stands for the paths that are not circles.\<close>

datatype layer =
  TileLayer tile_layer
| Marker marker
| Circle circle
| Path path
| Other

subsection \<open>Collect: tile layers\<close>

text \<open>\<^verbatim>\<open>new Bounds(a, b)\<close> of the host library takes the componentwise minimum and maximum
  of its two points. Here the two points are \<^verbatim>\<open>bounds.min.divideBy(tileSize)._floor()\<close>
  and \<^verbatim>\<open>bounds.max.divideBy(tileSize)._floor()\<close>; their coordinates are integers.
  The result is \<open>((min x, min y), (max x, max y))\<close>.\<close>

definition tileBounds :: "bounds \<Rightarrow> real \<Rightarrow> (int \<times> int) \<times> (int \<times> int)" where
  "tileBounds b ts =
     (let ax = \<lfloor>px (min_pt b) / ts\<rfloor>; ay = \<lfloor>py (min_pt b) / ts\<rfloor>;
          bx = \<lfloor>px (max_pt b) / ts\<rfloor>; by = \<lfloor>py (max_pt b) / ts\<rfloor>
      in ((min ax bx, min ay by), (max ax bx, max ay by)))"

text \<open>One dispatched tile request: the grid index \<open>(i, j)\<close> of the loop, the tile point
  handed to \<^verbatim>\<open>getTileUrl\<close> (the grid index after \<^verbatim>\<open>_adjustTilePoint\<close>) and the position
  of the tile on the canvas.\<close>

record tile_request =
  grid_index :: "int \<times> int"
  tilePoint :: point
  tilePos :: point

definition adjust :: "tile_layer \<Rightarrow> point \<Rightarrow> point" where
  "adjust l p = (case adjustTilePoint l of None \<Rightarrow> p | Some g \<Rightarrow> g p)"

definition tile_request_at :: "frame \<Rightarrow> tile_layer \<Rightarrow> real \<Rightarrow> int \<Rightarrow> int \<Rightarrow> tile_request" where
  "tile_request_at f l ts i j =
     (let originalTilePoint = \<lparr>px = of_int i, py = of_int j\<rparr>
      in \<lparr>grid_index = (i, j),
          tilePoint = adjust l originalTilePoint,
          tilePos = subtract (scaleBy originalTilePoint \<lparr>px = ts, py = ts\<rparr>) (min_pt (bounds f))\<rparr>)"

text \<open>The tile size of \<^verbatim>\<open>_processTileLayer\<close>: \<^verbatim>\<open>layer.options.tileSize || 256\<close>.\<close>

definition tileSize_of :: "tile_layer \<Rightarrow> real" where
  "tileSize_of l =
     (case options_tileSize l of None \<Rightarrow> 256 | Some t \<Rightarrow> if t = 0 then 256 else t)"

text \<open>The two nested loops of \<^verbatim>\<open>_processTileLayer\<close>: rows \<open>j\<close> outside, columns \<open>i\<close>
  inside, a row with \<open>j < 0\<close> skipped before anything is done for it.\<close>

definition tile_requests :: "frame \<Rightarrow> tile_layer \<Rightarrow> tile_request list" where
  "tile_requests f l =
     (let ts = tileSize_of l;
          tb = tileBounds (bounds f) ts
      in concat (map (\<lambda>j. concat (map (\<lambda>i. if j < 0 then [] else [tile_request_at f l ts i j])
                                      [fst (fst tb) .. fst (snd tb)]))
                     [snd (fst tb) .. snd (snd tb)]))"

text \<open>\<^verbatim>\<open>_getTileLayer\<close> of the legacy variant: it first lists every grid point, then walks
  the list, adjusts the point and drops it when the adjusted row is negative. The tile
  size is \<^verbatim>\<open>layer._tileSize.x\<close>. With a tile size of \<open>0\<close> the divisions give infinities
  or \<open>NaN\<close>: the row loop has no iteration when a row bound is \<open>NaN\<close> (a bound of the
  pixel rectangle is \<open>0\<close> on the vertical axis) and never ends otherwise, which is the
  result \<open>None\<close>.\<close>

definition legacy_tiles :: "frame \<Rightarrow> real \<Rightarrow> (int \<times> int) list" where
  "legacy_tiles f ts =
     (let tb = tileBounds (bounds f) ts
      in concat (map (\<lambda>j. map (\<lambda>i. (i, j)) [fst (fst tb) .. fst (snd tb)])
                     [snd (fst tb) .. snd (snd tb)]))"

definition legacy_tile_requests :: "frame \<Rightarrow> tile_layer \<Rightarrow> tile_request list option" where
  "legacy_tile_requests f l =
     (let ts = tileSize_x l
      in if ts = 0 then
           (if py (min_pt (bounds f)) = 0 \<or> py (max_pt (bounds f)) = 0 then Some [] else None)
         else
           Some (concat (map (\<lambda>(i, j).
                    let r = tile_request_at f l ts i j
                    in if py (tilePoint r) < 0 then [] else [r])
                  (legacy_tiles f ts))))"

text \<open>The set the specification names, with \<open>hi\<close> the rounding used for the upper index.\<close>

definition index_set :: "(real \<Rightarrow> int) \<Rightarrow> bounds \<Rightarrow> real \<Rightarrow> (int \<times> int) set" where
  "index_set hi b ts =
     {(i, j). \<lfloor>px (min_pt b) / ts\<rfloor> \<le> i \<and> i \<le> hi (px (max_pt b) / ts)
            \<and> \<lfloor>py (min_pt b) / ts\<rfloor> \<le> j \<and> j \<le> hi (py (max_pt b) / ts) \<and> 0 \<le> j}"

subsection \<open>Errors\<close>

text \<open>The exceptions the source itself can raise are type errors: a property read on
  \<^verbatim>\<open>undefined\<close>, or a call of something that is not a function.\<close>

datatype error = TypeError

subsection \<open>The caches\<close>

text \<open>The tile key \<^verbatim>\<open>`${x}:${y}:${zoom}`\<close> is kept as the triple of its three numbers.
  An image object is identified by the URL it was loaded from.\<close>

type_synonym tile_key = "real \<times> real \<times> real"

record tile_img =
  img :: string
  x_pos :: real
  y_pos :: real
  tile_opacity :: real
  tile_tileSize :: real

record marker_entry =
  m_html :: "string option"
  m_img :: "string option"
  m_x :: real
  m_y :: real

record path_entry =
  parts :: "point list"
  closed :: bool
  options :: path_options

record caches =
  tilesImgs :: "(nat \<times> (tile_key \<times> tile_img) list) list"
  markers :: "(nat \<times> marker_entry) list"
  paths :: "(nat \<times> path_entry) list"
  circles :: "(nat \<times> circle) list"

definition no_caches :: caches where
  "no_caches = \<lparr>tilesImgs = [], markers = [], paths = [], circles = []\<rparr>"

text \<open>The entries of the legacy variant hold an image and its position only.\<close>

record placed_img =
  l_img :: string
  l_x :: real
  l_y :: real

record legacy_caches =
  l_tilesImgs :: "(nat \<times> (tile_key \<times> placed_img) list) list"
  l_markers :: "(nat \<times> placed_img) list"
  l_path :: "(nat \<times> path_entry) list"
  l_circles :: "(nat \<times> circle) list"
  l_tileSize :: "real option"

subsection \<open>Collect: vector paths\<close>

text \<open>\<^verbatim>\<open>_isPointVisible\<close> (Leaflet 2 variant) and \<^verbatim>\<open>_pointPositionIsNotCorrect\<close> (legacy).\<close>

definition isPointVisible :: "frame \<Rightarrow> point \<Rightarrow> bool" where
  "isPointVisible f p =
     (px p \<ge> 0 \<and> py p \<ge> 0 \<and> px p \<le> width (canvas f) \<and> py p \<le> height (canvas f))"

definition pointPositionIsNotCorrect :: "frame \<Rightarrow> point \<Rightarrow> bool" where
  "pointPositionIsNotCorrect f p =
     (px p < 0 \<or> py p < 0 \<or> px p > width (canvas f) \<or> py p > height (canvas f))"

text \<open>\<^verbatim>\<open>v[0]\<close>, \<^verbatim>\<open>Array.isArray(v)\<close> and \<^verbatim>\<open>v.flat()\<close> on the values \<^verbatim>\<open>_latlngs\<close> can hold;
  \<open>None\<close> is \<^verbatim>\<open>undefined\<close>. A coordinate object has no property \<open>0\<close>.\<close>

fun index0 :: "jsv \<Rightarrow> jsv option" where
  "index0 (Arr (v # vs)) = Some v"
| "index0 (Arr []) = None"
| "index0 (LatLng p) = None"

fun isArray :: "jsv option \<Rightarrow> bool" where
  "isArray (Some (Arr vs)) = True"
| "isArray (Some (LatLng p)) = False"
| "isArray None = False"

fun flat_items :: "jsv list \<Rightarrow> jsv list" where
  "flat_items [] = []"
| "flat_items (Arr ws # vs) = ws @ flat_items vs"
| "flat_items (LatLng p # vs) = LatLng p # flat_items vs"

text \<open>\<^verbatim>\<open>this._map.project(latLng)\<close> followed by the subtraction of the bounds' minimum
  corner. The host's projection takes a coordinate object; handed an array of such
  objects it raises.\<close>

fun pixelPoint :: "host_map \<Rightarrow> frame \<Rightarrow> jsv \<Rightarrow> error + point" where
  "pixelPoint m f (LatLng p) =
     Inr (subtract (project m p) \<lparr>px = px (min_pt (bounds f)), py = py (min_pt (bounds f))\<rparr>)"
| "pixelPoint m f (Arr vs) = Inl TypeError"

text \<open>The body of \<^verbatim>\<open>latlngs.forEach\<close>: the projected points are pushed in order; the
  first exception ends the walk.\<close>

fun project_each :: "host_map \<Rightarrow> frame \<Rightarrow> jsv list \<Rightarrow> error + point list" where
  "project_each m f [] = Inr []"
| "project_each m f (v # vs) =
     (case pixelPoint m f v of
        Inl e \<Rightarrow> Inl e
      | Inr p \<Rightarrow> (case project_each m f vs of Inl e \<Rightarrow> Inl e | Inr ps \<Rightarrow> Inr (p # ps)))"

text \<open>\<^verbatim>\<open>_processPath\<close> of the Leaflet 2 variant.\<close>

definition processPath :: "host_map \<Rightarrow> frame \<Rightarrow> path \<Rightarrow> caches \<Rightarrow> error + caches" where
  "processPath m f l c =
     (case latlngs l of
        None \<Rightarrow> Inr c
      | Some v \<Rightarrow>
          if mRadius l then Inr c
          else
            (case (if fill (p_options l) then index0 v else Some v) of
               None \<Rightarrow> Inl TypeError
             | Some (LatLng p) \<Rightarrow> Inl TypeError
             | Some (Arr vs) \<Rightarrow>
                 (case project_each m f (if isArray (index0 (Arr vs)) then flat_items vs else vs) of
                    Inl e \<Rightarrow> Inl e
                  | Inr ps \<Rightarrow>
                      if list_ex (isPointVisible f) ps
                      then Inr (c\<lparr>paths := int_put (p_id l)
                                     \<lparr>parts = ps, closed = fill (p_options l),
                                      options = p_options l\<rparr> (paths c)\<rparr>)
                      else Inr c)))"

text \<open>\<^verbatim>\<open>_getPathLayer\<close> of the legacy variant: no flattening, and a point counts when it
  is left of the right edge and above the bottom edge.\<close>

definition legacy_getPathLayer ::
  "host_map \<Rightarrow> frame \<Rightarrow> path \<Rightarrow> legacy_caches \<Rightarrow> error + legacy_caches" where
  "legacy_getPathLayer m f l c =
     (case latlngs l of
        None \<Rightarrow> Inr c
      | Some v \<Rightarrow>
          if mRadius l then Inr c
          else
            (case (if fill (p_options l) then index0 v else Some v) of
               None \<Rightarrow> Inl TypeError
             | Some (LatLng p) \<Rightarrow> Inl TypeError
             | Some (Arr vs) \<Rightarrow>
                 (case project_each m f vs of
                    Inl e \<Rightarrow> Inl e
                  | Inr ps \<Rightarrow>
                      if list_ex (\<lambda>p. px p < width (canvas f) \<and> py p < height (canvas f)) ps
                      then Inr (c\<lparr>l_path := int_put (p_id l)
                                     \<lparr>parts = ps, closed = fill (p_options l),
                                      options = p_options l\<rparr> (l_path c)\<rparr>)
                      else Inr c)))"

text \<open>The vertex list of a path as the Leaflet 2 variant reads it: the array itself for
  an unfilled path, its first element for a filled one, flattened by one level when it
  is an array of arrays. \<open>None\<close> when what is found there is not an array of coordinate
  objects.\<close>

fun coords :: "jsv list \<Rightarrow> latlng list option" where
  "coords [] = Some []"
| "coords (LatLng p # vs) = map_option (\<lambda>ps. p # ps) (coords vs)"
| "coords (Arr ws # vs) = None"

definition vertices :: "path \<Rightarrow> latlng list option" where
  "vertices l =
     (case latlngs l of
        None \<Rightarrow> None
      | Some v \<Rightarrow>
          (case (if fill (p_options l) then index0 v else Some v) of
             Some (Arr vs) \<Rightarrow> coords (if isArray (index0 (Arr vs)) then flat_items vs else vs)
           | _ \<Rightarrow> None))"

definition projected :: "host_map \<Rightarrow> frame \<Rightarrow> latlng list \<Rightarrow> point list" where
  "projected m f ps = map (\<lambda>p. subtract (project m p) (min_pt (bounds f))) ps"

subsection \<open>Image loads as tasks\<close>

text \<open>What the browser does with an image once its \<^verbatim>\<open>src\<close> is set: it fires \<^verbatim>\<open>load\<close> after
  some milliseconds, fires \<^verbatim>\<open>error\<close> after some milliseconds, or fires neither.\<close>

datatype fetch = Loads nat | Fails nat | Hangs

text \<open>A dispatched image load: the cache slot its \<^verbatim>\<open>onload\<close> handler writes, the fate of
  the request (\<open>None\<close> when no request was made because resolving the URL threw), and
  the delay of the timer set beside it (\<open>None\<close> when the code sets no timer).\<close>

datatype ('t, 'm) slot = TileSlot nat tile_key 't | MarkerSlot nat 'm

record ('t, 'm) task =
  slot :: "('t, 'm) slot"
  fetch :: "fetch option"
  timer :: "nat option"

text \<open>\<^verbatim>\<open>_loadTile\<close> of the Leaflet 2 variant, up to the return of the promise: the timer of
  10000 ms is set, the handlers are installed and the request is made.\<close>

definition loadTile ::
  "(string \<Rightarrow> fetch) \<Rightarrow> frame \<Rightarrow> tile_layer \<Rightarrow> real \<Rightarrow> tile_request \<Rightarrow> (tile_img, marker_entry) task" where
  "loadTile net f l ts r =
     (let imgIndex = (px (tilePoint r), py (tilePoint r), zoom f);
          url = getTileUrl l (tilePoint r)
      in \<lparr>slot = TileSlot (tl_id l) imgIndex
                   \<lparr>img = (case url of None \<Rightarrow> [] | Some u \<Rightarrow> u),
                    x_pos = px (tilePos r), y_pos = py (tilePos r),
                    tile_opacity = (case options_opacity l of None \<Rightarrow> 1 | Some v \<Rightarrow> v),
                    tile_tileSize = ts\<rparr>,
          fetch = map_option net url,
          timer = Some 10000\<rparr>)"

text \<open>\<^verbatim>\<open>_processTileLayer\<close>, up to its \<^verbatim>\<open>await\<close>: the layer's slot of the tile cache is
  emptied and one load is dispatched per tile request.\<close>

definition processTileLayer ::
  "(string \<Rightarrow> fetch) \<Rightarrow> frame \<Rightarrow> tile_layer \<Rightarrow> caches \<times> (tile_img, marker_entry) task list
     \<Rightarrow> caches \<times> (tile_img, marker_entry) task list" where
  "processTileLayer net f l acc =
     (case acc of (c, tasks) \<Rightarrow>
        (c\<lparr>tilesImgs := int_put (tl_id l) [] (tilesImgs c)\<rparr>,
         tasks @ map (loadTile net f l (tileSize_of l)) (tile_requests f l)))"

text \<open>\<^verbatim>\<open>_processMarker\<close> with \<^verbatim>\<open>_loadMarkerImage\<close> (timer of 5000 ms), up to the \<^verbatim>\<open>await\<close>.\<close>

definition marker_point :: "host_map \<Rightarrow> frame \<Rightarrow> marker \<Rightarrow> point" where
  "marker_point m f l =
     (let pixelPoint = subtract (project m (mk_latlng l))
                         \<lparr>px = px (min_pt (bounds f)), py = py (min_pt (bounds f))\<rparr>
      in case iconAnchor l of
           None \<Rightarrow> pixelPoint
         | Some (ax, ay) \<Rightarrow> \<lparr>px = px pixelPoint - ax, py = py pixelPoint - ay\<rparr>)"

definition processMarker ::
  "(string \<Rightarrow> fetch) \<Rightarrow> host_map \<Rightarrow> frame \<Rightarrow> marker \<Rightarrow> caches \<times> (tile_img, marker_entry) task list
     \<Rightarrow> caches \<times> (tile_img, marker_entry) task list" where
  "processMarker net m f l acc =
     (case acc of (c, tasks) \<Rightarrow>
        if map_of (markers c) (mk_id l) \<noteq> None then (c, tasks)
        else
          let pixelPoint = marker_point m f l
          in if isPointVisible f pixelPoint then
               (if truthy (icon_src l) then
                  (c, tasks @ [\<lparr>slot = MarkerSlot (mk_id l)
                                   \<lparr>m_html = None, m_img = icon_src l,
                                    m_x = px pixelPoint, m_y = py pixelPoint\<rparr>,
                               fetch = map_option net (icon_src l),
                               timer = Some 5000\<rparr>])
                else if truthy (icon_innerHTML l) then
                  (c\<lparr>markers := int_put (mk_id l)
                       \<lparr>m_html = icon_innerHTML l, m_img = None,
                        m_x = px pixelPoint, m_y = py pixelPoint\<rparr> (markers c)\<rparr>, tasks)
                else (c, tasks))
             else (c, tasks))"

definition processCircle :: "circle \<Rightarrow> caches \<Rightarrow> caches" where
  "processCircle l c =
     (if map_of (circles c) (c_id l) = None
      then c\<lparr>circles := int_put (c_id l) l (circles c)\<rparr> else c)"

text \<open>\<^verbatim>\<open>_processLayers\<close>, up to its \<^verbatim>\<open>await\<close>: the walk over the layers of the map. Tile
  layers and markers start asynchronous functions, whose bodies run at once up to their
  own first \<^verbatim>\<open>await\<close>; circles and paths are processed in place, so an exception of
  \<^verbatim>\<open>_processPath\<close> leaves the walk and rejects the promise of \<^verbatim>\<open>_processLayers\<close>.\<close>

fun processLayers ::
  "(string \<Rightarrow> fetch) \<Rightarrow> host_map \<Rightarrow> frame \<Rightarrow> layer list \<Rightarrow> caches \<times> (tile_img, marker_entry) task list
     \<Rightarrow> error + caches \<times> (tile_img, marker_entry) task list" where
  "processLayers net m f [] acc = Inr acc"
| "processLayers net m f (TileLayer l # ls) acc =
     processLayers net m f ls (processTileLayer net f l acc)"
| "processLayers net m f (Marker l # ls) acc =
     processLayers net m f ls (processMarker net m f l acc)"
| "processLayers net m f (Circle l # ls) acc =
     processLayers net m f ls (processCircle l (fst acc), snd acc)"
| "processLayers net m f (Path l # ls) acc =
     (case processPath m f l (fst acc) of
        Inl e \<Rightarrow> Inl e
      | Inr c \<Rightarrow> processLayers net m f ls (c, snd acc))"
| "processLayers net m f (Other # ls) acc = processLayers net m f ls acc"

subsection \<open>Collect in the legacy variant\<close>

text \<open>\<^verbatim>\<open>_loadTile\<close>: only an \<^verbatim>\<open>onload\<close> handler is installed and no timer is set. Its
  first statement empties the layer's slot of the tile cache; all loads of a layer are
  dispatched in one go, so that is one emptying per layer with at least one request,
  done in \<open>legacy_getTileLayer\<close> below.\<close>

definition legacy_loadTile ::
  "(string \<Rightarrow> fetch) \<Rightarrow> frame \<Rightarrow> tile_layer \<Rightarrow> tile_request \<Rightarrow> (placed_img, placed_img) task" where
  "legacy_loadTile net f l r =
     (let imgIndex = (px (tilePoint r), py (tilePoint r), zoom f);
          url = getTileUrl l (tilePoint r)
      in \<lparr>slot = TileSlot (tl_id l) imgIndex
                   \<lparr>l_img = (case url of None \<Rightarrow> [] | Some u \<Rightarrow> u),
                    l_x = px (tilePos r), l_y = py (tilePos r)\<rparr>,
          fetch = map_option net url,
          timer = None\<rparr>)"

text \<open>\<^verbatim>\<open>_getTileLayer\<close>: \<^verbatim>\<open>self.tileSize\<close> is overwritten, then the loads are dispatched.
  \<open>None\<close> when the loops over the grid do not end.\<close>

definition legacy_getTileLayer ::
  "(string \<Rightarrow> fetch) \<Rightarrow> frame \<Rightarrow> tile_layer \<Rightarrow> legacy_caches \<times> (placed_img, placed_img) task list
     \<Rightarrow> (legacy_caches \<times> (placed_img, placed_img) task list) option" where
  "legacy_getTileLayer net f l acc =
     (case acc of (c, tasks) \<Rightarrow>
        (case legacy_tile_requests f l of
           None \<Rightarrow> None
         | Some rs \<Rightarrow>
             Some ((c\<lparr>l_tileSize := Some (tileSize_x l)\<rparr>)
                     \<lparr>l_tilesImgs := (if rs = [] then l_tilesImgs c
                                       else int_put (tl_id l) [] (l_tilesImgs c))\<rparr>,
                   tasks @ map (legacy_loadTile net f l) rs)))"

text \<open>\<^verbatim>\<open>_getMarkerLayer\<close>.\<close>

definition legacy_getMarkerLayer ::
  "(string \<Rightarrow> fetch) \<Rightarrow> host_map \<Rightarrow> frame \<Rightarrow> marker \<Rightarrow> legacy_caches \<times> (placed_img, placed_img) task list
     \<Rightarrow> legacy_caches \<times> (placed_img, placed_img) task list" where
  "legacy_getMarkerLayer net m f l acc =
     (case acc of (c, tasks) \<Rightarrow>
        if map_of (l_markers c) (mk_id l) \<noteq> None then (c, tasks)
        else
          let pixelPoint = marker_point m f l
          in if \<not> pointPositionIsNotCorrect f pixelPoint then
               (c, tasks @ [\<lparr>slot = MarkerSlot (mk_id l)
                                \<lparr>l_img = (case icon_src l of None \<Rightarrow> [] | Some u \<Rightarrow> u),
                                 l_x = px pixelPoint, l_y = py pixelPoint\<rparr>,
                            fetch = map_option net (icon_src l),
                            timer = None\<rparr>])
             else (c, tasks))"

text \<open>\<^verbatim>\<open>_getLayers\<close>: every layer is handled inside a \<^verbatim>\<open>try\<close> whose \<^verbatim>\<open>catch\<close> logs the
  exception and resolves the layer's promise, so the walk goes on. The second component
  of the result counts the exceptions logged. \<open>None\<close> when a tile loop does not end.\<close>

fun legacy_getLayers ::
  "(string \<Rightarrow> fetch) \<Rightarrow> host_map \<Rightarrow> frame \<Rightarrow> layer list
     \<Rightarrow> (legacy_caches \<times> (placed_img, placed_img) task list) \<times> error list
     \<Rightarrow> ((legacy_caches \<times> (placed_img, placed_img) task list) \<times> error list) option" where
  "legacy_getLayers net m f [] acc = Some acc"
| "legacy_getLayers net m f (Marker l # ls) acc =
     legacy_getLayers net m f ls
       (if truthy (icon_src l) then (legacy_getMarkerLayer net m f l (fst acc), snd acc) else acc)"
| "legacy_getLayers net m f (TileLayer l # ls) acc =
     (case legacy_getTileLayer net f l (fst acc) of
        None \<Rightarrow> None
      | Some a \<Rightarrow> legacy_getLayers net m f ls (a, snd acc))"
| "legacy_getLayers net m f (Circle l # ls) acc =
     legacy_getLayers net m f ls
       (case fst acc of (c, tasks) \<Rightarrow>
          ((if map_of (l_circles c) (c_id l) = None
            then c\<lparr>l_circles := int_put (c_id l) l (l_circles c)\<rparr> else c, tasks), snd acc))"
| "legacy_getLayers net m f (Path l # ls) acc =
     legacy_getLayers net m f ls
       (case fst acc of (c, tasks) \<Rightarrow>
          (case legacy_getPathLayer m f l c of
             Inl e \<Rightarrow> ((c, tasks), snd acc @ [e])
           | Inr c' \<Rightarrow> ((c', tasks), snd acc)))"
| "legacy_getLayers net m f (Other # ls) acc = legacy_getLayers net m f ls acc"

text \<open>The tile layers among the layers of a map, in the order of the walk.\<close>

fun tile_layers :: "layer list \<Rightarrow> tile_layer list" where
  "tile_layers [] = []"
| "tile_layers (TileLayer l # ls) = l # tile_layers ls"
| "tile_layers (x # ls) = tile_layers ls"

subsection \<open>The event loop of the Collect phase\<close>

text \<open>The state of one load while the export waits: whether its timer is still set,
  and whether its promise has been resolved.\<close>

record tstate =
  armed :: bool
  resolved :: bool

datatype event_kind = Load | Error | Timeout

text \<open>An event is \<open>(time, index of the task, kind)\<close>; all loads of an export are
  dispatched in the same turn, at time \<open>0\<close>. The events are delivered in the order of
  their times; of two events at the same time the one of the earlier task comes first,
  and of the same task the timer.\<close>

type_synonym event = "nat \<times> nat \<times> event_kind"

definition task_events :: "nat \<times> ('t, 'm) task \<Rightarrow> event list" where
  "task_events it =
     (case it of (i, t) \<Rightarrow>
        (case timer t of None \<Rightarrow> [] | Some d \<Rightarrow> [(d, i, Timeout)]) @
        (case fetch t of
           Some (Loads n) \<Rightarrow> [(n, i, Load)]
         | Some (Fails n) \<Rightarrow> [(n, i, Error)]
         | Some Hangs \<Rightarrow> []
         | None \<Rightarrow> []))"

definition events_of :: "('t, 'm) task list \<Rightarrow> event list" where
  "events_of tasks = sort_key fst (concat (map task_events (enumerate 0 tasks)))"

text \<open>The loop: the phase is over as soon as every promise is resolved, and the result
  is the time and the caches at that moment. \<open>None\<close>: the events run out with a promise
  still unresolved, and the phase never ends.\<close>

fun run_events ::
  "('c \<times> tstate list \<Rightarrow> event \<Rightarrow> 'c \<times> tstate list) \<Rightarrow> event list \<Rightarrow> nat
     \<Rightarrow> 'c \<times> tstate list \<Rightarrow> (nat \<times> 'c) option" where
  "run_events h [] now s =
     (if list_all resolved (snd s) then Some (now, fst s) else None)"
| "run_events h (e # es) now s =
     (if list_all resolved (snd s) then Some (now, fst s)
      else run_events h es (fst e) (h s e))"

text \<open>Leaflet 2 variant. The state of a load when \<^verbatim>\<open>_loadTile\<close> or \<^verbatim>\<open>_loadMarkerImage\<close>
  returns: the timer is set and the promise pending; when \<^verbatim>\<open>getTileUrl\<close> threw, the
  \<^verbatim>\<open>catch\<close> has cleared the timer and resolved the promise.\<close>

definition init_tstate :: "('t, 'm) task \<Rightarrow> tstate" where
  "init_tstate t =
     (case fetch t of
        None \<Rightarrow> \<lparr>armed = False, resolved = True\<rparr>
      | Some x \<Rightarrow> \<lparr>armed = True, resolved = False\<rparr>)"

text \<open>The assignment of the \<^verbatim>\<open>onload\<close> handlers. \<open>None\<close>: the layer's slot of the tile
  cache is missing, and reading a property of it throws inside the handler.\<close>

fun store :: "(tile_img, marker_entry) slot \<Rightarrow> caches \<Rightarrow> caches option" where
  "store (TileSlot k imgIndex e) c =
     (case map_of (tilesImgs c) k of
        None \<Rightarrow> None
      | Some layerTiles \<Rightarrow>
          Some (c\<lparr>tilesImgs := int_put k (str_put imgIndex e layerTiles) (tilesImgs c)\<rparr>))"
| "store (MarkerSlot k e) c = Some (c\<lparr>markers := int_put k e (markers c)\<rparr>)"

text \<open>The handlers: the timer's callback resolves (it runs only if the timer was not
  cleared); \<^verbatim>\<open>onload\<close> clears the timer, stores the entry and resolves; \<^verbatim>\<open>onerror\<close>
  clears the timer and resolves.\<close>

definition on_event ::
  "(tile_img, marker_entry) task list \<Rightarrow> caches \<times> tstate list \<Rightarrow> event \<Rightarrow> caches \<times> tstate list" where
  "on_event tasks s e =
     (case (s, e) of ((c, ts), (time, i, kind)) \<Rightarrow>
        if i < length tasks \<and> i < length ts then
          (case kind of
             Timeout \<Rightarrow>
               if armed (ts ! i) then (c, ts[i := \<lparr>armed = False, resolved = True\<rparr>])
               else (c, ts)
           | Error \<Rightarrow> (c, ts[i := \<lparr>armed = False, resolved = True\<rparr>])
           | Load \<Rightarrow>
               (case store (slot (tasks ! i)) c of
                  None \<Rightarrow> (c, ts[i := (ts ! i)\<lparr>armed := False\<rparr>])
                | Some c' \<Rightarrow> (c', ts[i := \<lparr>armed = False, resolved = True\<rparr>])))
        else (c, ts))"

text \<open>The wait for the dispatched loads, and Collect as a whole: the walk over the
  layers, then the wait.\<close>

definition await_loads :: "(tile_img, marker_entry) task list \<Rightarrow> caches \<Rightarrow> (nat \<times> caches) option" where
  "await_loads tasks c =
     run_events (on_event tasks) (events_of tasks) 0 (c, map init_tstate tasks)"

definition collect ::
  "(string \<Rightarrow> fetch) \<Rightarrow> host_map \<Rightarrow> frame \<Rightarrow> layer list \<Rightarrow> error + (nat \<times> caches) option" where
  "collect net m f layers =
     (case processLayers net m f layers (no_caches, []) of
        Inl e \<Rightarrow> Inl e
      | Inr (c, tasks) \<Rightarrow> Inr (await_loads tasks c))"

text \<open>Legacy variant. No timer is ever set, and a promise whose executor threw (in
  \<^verbatim>\<open>getTileUrl\<close>) is rejected, which \<^verbatim>\<open>Promise.all\<close> never turns into a call of the
  layer's \<^verbatim>\<open>resolve\<close>: such a load stays unresolved.\<close>

definition legacy_init_tstate :: "('t, 'm) task \<Rightarrow> tstate" where
  "legacy_init_tstate t = \<lparr>armed = False, resolved = False\<rparr>"

fun legacy_store :: "(placed_img, placed_img) slot \<Rightarrow> legacy_caches \<Rightarrow> legacy_caches option" where
  "legacy_store (TileSlot k imgIndex e) c =
     (case map_of (l_tilesImgs c) k of
        None \<Rightarrow> None
      | Some layerTiles \<Rightarrow>
          Some (if map_of layerTiles imgIndex = None
                then c\<lparr>l_tilesImgs := int_put k (str_put imgIndex e layerTiles) (l_tilesImgs c)\<rparr>
                else c))"
| "legacy_store (MarkerSlot k e) c = Some (c\<lparr>l_markers := int_put k e (l_markers c)\<rparr>)"

text \<open>The only handler is \<^verbatim>\<open>onload\<close>: it stores the entry and resolves. An \<^verbatim>\<open>error\<close>
  event finds no handler.\<close>

definition legacy_on_event ::
  "(placed_img, placed_img) task list \<Rightarrow> legacy_caches \<times> tstate list \<Rightarrow> event
     \<Rightarrow> legacy_caches \<times> tstate list" where
  "legacy_on_event tasks s e =
     (case (s, e) of ((c, ts), (time, i, kind)) \<Rightarrow>
        if i < length tasks \<and> i < length ts then
          (case kind of
             Timeout \<Rightarrow> (c, ts)
           | Error \<Rightarrow> (c, ts)
           | Load \<Rightarrow>
               (case legacy_store (slot (tasks ! i)) c of
                  None \<Rightarrow> (c, ts)
                | Some c' \<Rightarrow> (c', ts[i := \<lparr>armed = False, resolved = True\<rparr>])))
        else (c, ts))"

definition legacy_await_loads ::
  "(placed_img, placed_img) task list \<Rightarrow> legacy_caches \<Rightarrow> (nat \<times> legacy_caches) option" where
  "legacy_await_loads tasks c =
     run_events (legacy_on_event tasks) (events_of tasks) 0 (c, map legacy_init_tstate tasks)"

text \<open>\<^verbatim>\<open>self.tileSize\<close> is a field of the control that \<^verbatim>\<open>_print\<close> does not reset, so
  Collect starts from the value \<open>ts0\<close> an earlier export left there.\<close>

definition legacy_no_caches :: "real option \<Rightarrow> legacy_caches" where
  "legacy_no_caches ts0 =
     \<lparr>l_tilesImgs = [], l_markers = [], l_path = [], l_circles = [], l_tileSize = ts0\<rparr>"

subsection \<open>The 2D context of the canvas\<close>

text \<open>The drawing state of the context, as far as the compositor sets it, and the
  vertical factor of the current transform.\<close>

record gstate =
  globalAlpha :: real
  fillStyle :: string
  strokeStyle :: string
  lineWidth :: real
  ctx_lineCap :: string
  ctx_lineJoin :: string
  lineDash :: "real list"
  font :: string
  scaleY :: real

text \<open>The calls that build a path or paint. \<open>DrawImage\<close> carries the optional
  destination size, \<open>Arc\<close> a full circle by centre and radius, \<open>Fill\<close> the fill rule.\<close>

datatype draw =
  FillRect real real real real
| DrawImage string real real "(real \<times> real) option"
| BeginPath
| MoveTo real real
| LineTo real real
| ClosePath
| Arc real real real
| Fill string
| Stroke
| StrokeText string real real
| FillText string real real

text \<open>The context: its drawing state, the stack of \<^verbatim>\<open>save()\<close>, and the calls made so
  far, each with the drawing state it was made in.\<close>

record ctx =
  gs :: gstate
  saved :: "gstate list"
  calls :: "(draw \<times> gstate) list"

text \<open>The state of the context of a newly created canvas, as the browser sets it up.\<close>

definition getContext :: ctx where
  "getContext =
     \<lparr>gs = \<lparr>globalAlpha = 1, fillStyle = ''#000000'', strokeStyle = ''#000000'',
             lineWidth = 1, ctx_lineCap = ''butt'', ctx_lineJoin = ''miter'', lineDash = [],
             font = ''10px sans-serif'', scaleY = 1\<rparr>,
      saved = [], calls = []\<rparr>"

definition call :: "draw \<Rightarrow> ctx \<Rightarrow> ctx" where
  "call d c = c\<lparr>calls := calls c @ [(d, gs c)]\<rparr>"

text \<open>An assignment to \<^verbatim>\<open>globalAlpha\<close> outside \<open>[0, 1]\<close> is ignored by the canvas, and so
  are the assignment of a \<^verbatim>\<open>lineWidth\<close> that is not positive and the assignment of
  \<^verbatim>\<open>undefined\<close> to any of the properties (\<open>None\<close> below). The other setters store what
  they are given.\<close>

definition set_globalAlpha :: "real \<Rightarrow> ctx \<Rightarrow> ctx" where
  "set_globalAlpha v c = (if 0 \<le> v \<and> v \<le> 1 then c\<lparr>gs := (gs c)\<lparr>globalAlpha := v\<rparr>\<rparr> else c)"

definition set_fillStyle :: "string \<Rightarrow> ctx \<Rightarrow> ctx" where
  "set_fillStyle v c = c\<lparr>gs := (gs c)\<lparr>fillStyle := v\<rparr>\<rparr>"

definition set_strokeStyle :: "string \<Rightarrow> ctx \<Rightarrow> ctx" where
  "set_strokeStyle v c = c\<lparr>gs := (gs c)\<lparr>strokeStyle := v\<rparr>\<rparr>"

definition set_lineWidth :: "real \<Rightarrow> ctx \<Rightarrow> ctx" where
  "set_lineWidth v c = (if 0 < v then c\<lparr>gs := (gs c)\<lparr>lineWidth := v\<rparr>\<rparr> else c)"

definition set_lineCap :: "string \<Rightarrow> ctx \<Rightarrow> ctx" where
  "set_lineCap v c = c\<lparr>gs := (gs c)\<lparr>ctx_lineCap := v\<rparr>\<rparr>"

definition set_lineJoin :: "string \<Rightarrow> ctx \<Rightarrow> ctx" where
  "set_lineJoin v c = c\<lparr>gs := (gs c)\<lparr>ctx_lineJoin := v\<rparr>\<rparr>"

definition setLineDash :: "real list \<Rightarrow> ctx \<Rightarrow> ctx" where
  "setLineDash v c = c\<lparr>gs := (gs c)\<lparr>lineDash := v\<rparr>\<rparr>"

definition set_font :: "string \<Rightarrow> ctx \<Rightarrow> ctx" where
  "set_font v c = c\<lparr>gs := (gs c)\<lparr>font := v\<rparr>\<rparr>"

definition if_defined :: "('a \<Rightarrow> ctx \<Rightarrow> ctx) \<Rightarrow> 'a option \<Rightarrow> ctx \<Rightarrow> ctx" where
  "if_defined setter v c = (case v of None \<Rightarrow> c | Some w \<Rightarrow> setter w c)"

definition save :: "ctx \<Rightarrow> ctx" where
  "save c = c\<lparr>saved := gs c # saved c\<rparr>"

definition restore :: "ctx \<Rightarrow> ctx" where
  "restore c = (case saved c of [] \<Rightarrow> c | g # gs' \<Rightarrow> c\<lparr>gs := g, saved := gs'\<rparr>)"

definition scale1 :: "real \<Rightarrow> ctx \<Rightarrow> ctx" where
  "scale1 sy c = c\<lparr>gs := (gs c)\<lparr>scaleY := scaleY (gs c) * sy\<rparr>\<rparr>"

subsection \<open>Render in the Leaflet 2 variant\<close>

text \<open>\<^verbatim>\<open>_applyPathStyle\<close>.\<close>

definition applyPathStyle :: "path_options \<Rightarrow> ctx \<Rightarrow> ctx" where
  "applyPathStyle opts c =
     (let c = (if fill opts then
                 (let c = set_globalAlpha (case fillOpacity opts of None \<Rightarrow> 1 / 5 | Some v \<Rightarrow> v) c;
                      c = set_fillStyle
                            (case or_str (or_str (fillColor opts) (color opts)) (Some ''#3388ff'') of
                               None \<Rightarrow> [] | Some v \<Rightarrow> v) c
                  in call (Fill (case or_str (fillRule opts) (Some ''evenodd'') of
                                   None \<Rightarrow> [] | Some v \<Rightarrow> v)) c)
               else c);
          c = (if stroke opts \<noteq> Some False \<and> (case weight opts of None \<Rightarrow> 3 | Some w \<Rightarrow> w) \<noteq> 0 then
                 (let c = setLineDash (case dashArray opts of None \<Rightarrow> [] | Some d \<Rightarrow> d) c;
                      c = set_globalAlpha (case opacity opts of None \<Rightarrow> 1 | Some v \<Rightarrow> v) c;
                      c = set_lineWidth (case weight opts of None \<Rightarrow> 3 | Some w \<Rightarrow> w) c;
                      c = set_strokeStyle
                            (case or_str (color opts) (Some ''#3388ff'') of None \<Rightarrow> [] | Some v \<Rightarrow> v) c;
                      c = set_lineCap
                            (case or_str (lineCap opts) (Some ''round'') of None \<Rightarrow> [] | Some v \<Rightarrow> v) c;
                      c = set_lineJoin
                            (case or_str (lineJoin opts) (Some ''round'') of None \<Rightarrow> [] | Some v \<Rightarrow> v) c
                  in call Stroke c)
               else c)
      in set_globalAlpha 1 c)"

text \<open>\<^verbatim>\<open>_drawPath\<close>: the first point is a \<^verbatim>\<open>moveTo\<close>, the others are \<^verbatim>\<open>lineTo\<close>.\<close>

fun trace :: "point list \<Rightarrow> bool \<Rightarrow> ctx \<Rightarrow> ctx" where
  "trace [] first c = c"
| "trace (p # ps) first c =
     trace ps False (call (if first then MoveTo (px p) (py p) else LineTo (px p) (py p)) c)"

definition drawPath :: "path_entry \<Rightarrow> ctx \<Rightarrow> ctx" where
  "drawPath pathData c =
     (let c = call BeginPath c;
          c = trace (parts pathData) True c;
          c = (if closed pathData then call ClosePath c else c)
      in applyPathStyle (options pathData) c)"

text \<open>\<^verbatim>\<open>_drawText\<close>.\<close>

definition drawText :: "marker_entry \<Rightarrow> ctx \<Rightarrow> ctx" where
  "drawText mk c =
     (let previousFillStyle = fillStyle (gs c);
          text = (case m_html mk of None \<Rightarrow> [] | Some t \<Rightarrow> t);
          c = set_font ''16px Arial'' c;
          c = set_fillStyle ''black'' c;
          c = set_strokeStyle ''white'' c;
          c = set_lineWidth 2 c;
          c = call (StrokeText text (m_x mk) (m_y mk)) c;
          c = call (FillText text (m_x mk) (m_y mk)) c
      in set_fillStyle previousFillStyle c)"

text \<open>\<^verbatim>\<open>_drawCircle\<close>. \<^verbatim>\<open>Math.max(Math.round(layer._radiusY), 1) || r\<close> is \<open>r\<close> when
  \<^verbatim>\<open>_radiusY\<close> is missing (the maximum is then \<open>NaN\<close>).\<close>

definition circle_r :: "circle \<Rightarrow> real" where
  "circle_r l = max (js_round (radius l)) 1"

definition circle_s :: "circle \<Rightarrow> real" where
  "circle_s l =
     (case radiusY l of None \<Rightarrow> circle_r l | Some ry \<Rightarrow> max (js_round ry) 1) / circle_r l"

definition drawCircle :: "host_map \<Rightarrow> frame \<Rightarrow> circle \<Rightarrow> ctx \<Rightarrow> ctx" where
  "drawCircle m f l c =
     (if empty_result l = Some True then c
      else
        let point = subtract (project m (c_latlng l))
                      \<lparr>px = px (min_pt (bounds f)), py = py (min_pt (bounds f))\<rparr>;
            r = circle_r l;
            s = circle_s l;
            c = (if s \<noteq> 1 then scale1 s (save c) else c);
            c = call BeginPath c;
            c = call (Arc (px point) (py point / s) r) c;
            c = (if s \<noteq> 1 then restore c else c)
        in applyPathStyle (c_options l) c)"

text \<open>The four passes of \<^verbatim>\<open>_renderToCanvas\<close>.\<close>

definition drawTile :: "tile_img \<Rightarrow> ctx \<Rightarrow> ctx" where
  "drawTile t c =
     call (DrawImage (img t) (x_pos t) (y_pos t) (Some (tile_tileSize t, tile_tileSize t)))
       (set_globalAlpha (tile_opacity t) c)"

definition renderTiles :: "caches \<Rightarrow> ctx \<Rightarrow> ctx" where
  "renderTiles cs c =
     set_globalAlpha 1
       (fold drawTile (concat (map values_of (values_of (tilesImgs cs)))) c)"

definition renderPaths :: "caches \<Rightarrow> ctx \<Rightarrow> ctx" where
  "renderPaths cs c = fold drawPath (values_of (paths cs)) c"

definition drawMarker :: "marker_entry \<Rightarrow> ctx \<Rightarrow> ctx" where
  "drawMarker mk c =
     (if truthy (m_html mk) then drawText mk c
      else (case m_img mk of
              None \<Rightarrow> c
            | Some i \<Rightarrow> call (DrawImage i (m_x mk) (m_y mk) None) c))"

definition renderMarkers :: "caches \<Rightarrow> ctx \<Rightarrow> ctx" where
  "renderMarkers cs c = fold drawMarker (values_of (markers cs)) c"

definition renderCircles :: "host_map \<Rightarrow> frame \<Rightarrow> caches \<Rightarrow> ctx \<Rightarrow> ctx" where
  "renderCircles m f cs c = fold (drawCircle m f) (values_of (circles cs)) c"

definition renderToCanvas :: "host_map \<Rightarrow> frame \<Rightarrow> caches \<Rightarrow> ctx \<Rightarrow> ctx" where
  "renderToCanvas m f cs c =
     (let c = set_fillStyle ''white'' c;
          c = call (FillRect 0 0 (width (canvas f)) (height (canvas f))) c;
          c = renderTiles cs c;
          c = renderPaths cs c;
          c = renderMarkers cs c
      in renderCircles m f cs c)"

subsection \<open>Render in the legacy variant\<close>

text \<open>\<^verbatim>\<open>_feelPath\<close>: the options are assigned as they are, nothing is reset.\<close>

definition legacy_feelPath :: "path_options \<Rightarrow> ctx \<Rightarrow> ctx" where
  "legacy_feelPath opts c =
     (let c = (if fill opts then
                 (let c = if_defined set_globalAlpha (fillOpacity opts) c;
                      c = if_defined set_fillStyle (or_str (fillColor opts) (color opts)) c
                  in call (Fill (case or_str (fillRule opts) (Some ''evenodd'') of
                                   None \<Rightarrow> [] | Some v \<Rightarrow> v)) c)
               else c)
      in if stroke opts = Some True \<and> weight opts \<noteq> Some 0 then
           (let c = setLineDash (case dashArray_legacy opts of None \<Rightarrow> [] | Some d \<Rightarrow> d) c;
                c = if_defined set_globalAlpha (opacity opts) c;
                c = if_defined set_lineWidth (weight opts) c;
                c = if_defined set_strokeStyle (color opts) c;
                c = if_defined set_lineCap (lineCap opts) c;
                c = if_defined set_lineJoin (lineJoin opts) c
            in call Stroke c)
         else c)"

definition legacy_drawPath :: "path_entry \<Rightarrow> ctx \<Rightarrow> ctx" where
  "legacy_drawPath v c =
     (let c = call BeginPath c;
          c = trace (parts v) True c;
          c = (if closed v then call ClosePath c else c)
      in legacy_feelPath (options v) c)"

text \<open>\<^verbatim>\<open>_drawCircle\<close>: \<^verbatim>\<open>layer._empty()\<close> is called without a test for the method, and
  for a vertical factor other than \<open>1\<close> the code calls \<^verbatim>\<open>this.scale\<close>, which the control
  does not have.\<close>

definition legacy_drawCircle :: "host_map \<Rightarrow> frame \<Rightarrow> circle \<Rightarrow> ctx \<Rightarrow> error + ctx" where
  "legacy_drawCircle m f l c =
     (case empty_result l of
        None \<Rightarrow> Inl TypeError
      | Some True \<Rightarrow> Inr c
      | Some False \<Rightarrow>
          let point = subtract (project m (c_latlng l))
                        \<lparr>px = px (min_pt (bounds f)), py = py (min_pt (bounds f))\<rparr>;
              r = circle_r l;
              s = circle_s l
          in if s \<noteq> 1 then Inl TypeError
             else
               let c = call BeginPath c;
                   c = call (Arc (px point) (py point / s) r) c
               in Inr (legacy_feelPath (c_options l) c))"

fun legacy_drawCircles :: "host_map \<Rightarrow> frame \<Rightarrow> circle list \<Rightarrow> ctx \<Rightarrow> error + ctx" where
  "legacy_drawCircles m f [] c = Inr c"
| "legacy_drawCircles m f (l # ls) c =
     (case legacy_drawCircle m f l c of
        Inl e \<Rightarrow> Inl e
      | Inr c' \<Rightarrow> legacy_drawCircles m f ls c')"

text \<open>The draw pass of \<^verbatim>\<open>_print\<close>. Every tile is drawn with \<^verbatim>\<open>self.tileSize\<close>; a call of
  \<^verbatim>\<open>drawImage\<close> with an undefined size draws nothing.\<close>

definition legacy_drawTile :: "real option \<Rightarrow> placed_img \<Rightarrow> ctx \<Rightarrow> ctx" where
  "legacy_drawTile ts v c =
     (case ts of
        None \<Rightarrow> c
      | Some t \<Rightarrow> call (DrawImage (l_img v) (l_x v) (l_y v) (Some (t, t))) c)"

definition legacy_tile_pass :: "legacy_caches \<Rightarrow> ctx \<Rightarrow> ctx" where
  "legacy_tile_pass cs c =
     fold (legacy_drawTile (l_tileSize cs)) (concat (map values_of (values_of (l_tilesImgs cs)))) c"

definition legacy_render :: "host_map \<Rightarrow> frame \<Rightarrow> legacy_caches \<Rightarrow> ctx \<Rightarrow> error + ctx" where
  "legacy_render m f cs c =
     (let c = legacy_tile_pass cs c;
          c = fold legacy_drawPath (values_of (l_path cs)) c;
          c = fold (\<lambda>v. call (DrawImage (l_img v) (l_x v) (l_y v) None)) (values_of (l_markers cs)) c
      in legacy_drawCircles m f (values_of (l_circles cs)) c)"

subsection \<open>The environment of an export\<close>

text \<open>The host map with its layers in the order of \<^verbatim>\<open>eachLayer\<close>, the fate of every
  image request by URL, and whether \<^verbatim>\<open>canvas.toBlob\<close> hands a blob to its callback for a
  canvas of the given size and the given MIME type.\<close>

record env =
  the_map :: host_map
  eachLayer :: "layer list"
  fetch_of :: "string \<Rightarrow> fetch"
  toBlob :: "canvas \<Rightarrow> string \<Rightarrow> bool"

subsection \<open>The control panel of the Leaflet 2 variant\<close>

record options_rec =
  minScale :: real
  maxScale :: real
  exportFormat :: string
  fileName :: string

text \<open>The state of the control: its options, the value of the number input (\<open>None\<close> is
  the empty string, which is what the input holds when the field is empty or its text
  is not a number), the value of the format selector when there is one, the busy flag,
  the two class markers of \<^verbatim>\<open>_showProgress\<close>, and what the control has put in front of
  the user so far: alerts and downloads.\<close>

record control =
  opts :: options_rec
  scaleInput :: "real option"
  formatSelect :: "string option"
  isProcessing :: bool
  print_disabled :: bool
  loader_show :: bool
  alerts :: "string list"
  downloads :: "string list"

definition validateScale :: "options_rec \<Rightarrow> real \<Rightarrow> bool" where
  "validateScale os scale = (scale \<noteq> 0 \<and> scale \<ge> minScale os \<and> scale \<le> maxScale os)"

definition showProgress :: "bool \<Rightarrow> control \<Rightarrow> control" where
  "showProgress show c = c\<lparr>print_disabled := show, loader_show := show\<rparr>"

text \<open>\<^verbatim>\<open>Number(this._scaleInput.value)\<close>: the empty string converts to \<open>0\<close>.\<close>

definition Number :: "real option \<Rightarrow> real" where
  "Number v = (case v of None \<Rightarrow> 0 | Some n \<Rightarrow> n)"

text \<open>\<^verbatim>\<open>_handleDownload\<close> up to the \<^verbatim>\<open>await\<close>. The second component is the scale that
  \<^verbatim>\<open>_generateAndDownloadImage\<close> is called with, \<open>None\<close> when it is not called.\<close>

definition handleDownload_click :: "control \<Rightarrow> control \<times> real option" where
  "handleDownload_click c =
     (if isProcessing c then (c, None)
      else
        let scaleValue = Number (scaleInput c)
        in if \<not> validateScale (opts c) scaleValue
           then (c\<lparr>scaleInput := Some (minScale (opts c))\<rparr>, None)
           else (showProgress True (c\<lparr>isProcessing := True\<rparr>), Some scaleValue))"

text \<open>The result of awaiting a promise: it never settles, it is rejected with an
  exception, or it is fulfilled at some time with a value.\<close>

datatype 'a awaited = Never | Rejected error | Fulfilled nat 'a

text \<open>\<^verbatim>\<open>_generateAndDownloadImage\<close> up to the call of \<^verbatim>\<open>_downloadCanvas\<close>: the frame of the
  export and the context after the draw pass.\<close>

definition generateImage :: "env \<Rightarrow> real \<Rightarrow> (frame \<times> ctx) awaited" where
  "generateImage e scale =
     (let f = applyScale scale (capture (the_map e))
      in case collect (fetch_of e) (the_map e) f (eachLayer e) of
           Inl x \<Rightarrow> Rejected x
         | Inr None \<Rightarrow> Never
         | Inr (Some (t, cs)) \<Rightarrow> Fulfilled t (f, renderToCanvas (the_map e) f cs getContext))"

text \<open>\<^verbatim>\<open>_downloadCanvas\<close> with the callback of \<^verbatim>\<open>toBlob\<close>.\<close>

definition downloadCanvas :: "env \<Rightarrow> frame \<Rightarrow> control \<Rightarrow> control" where
  "downloadCanvas e f c =
     (let format = (case formatSelect c of None \<Rightarrow> exportFormat (opts c) | Some v \<Rightarrow> v);
          mimeType = ''image/'' @ format
      in if \<not> toBlob e (canvas f) mimeType
         then c\<lparr>alerts := alerts c @ [''Failed to generate image'']\<rparr>
         else c\<lparr>downloads := downloads c @ [fileName (opts c) @ ''.'' @ format]\<rparr>)"

text \<open>The \<^verbatim>\<open>catch\<close> and \<^verbatim>\<open>finally\<close> of \<^verbatim>\<open>_handleDownload\<close>, run when the awaited promise
  settles: \<open>failed\<close> tells whether it was rejected.\<close>

definition handleDownload_settle :: "bool \<Rightarrow> control \<Rightarrow> control" where
  "handleDownload_settle failed c =
     (let c = (if failed then c\<lparr>alerts := alerts c @ [''Error generating image. Please try again.'']\<rparr>
               else c)
      in showProgress False (c\<lparr>isProcessing := False\<rparr>))"

text \<open>One click on the download button, followed to the end of what it sets off, with
  no other event of the control in between. The callback of \<^verbatim>\<open>toBlob\<close> runs after the
  \<^verbatim>\<open>finally\<close> block.\<close>

definition handleDownload :: "env \<Rightarrow> control \<Rightarrow> control" where
  "handleDownload e c =
     (case handleDownload_click c of
        (c', None) \<Rightarrow> c'
      | (c', Some scale) \<Rightarrow>
          (case generateImage e scale of
             Never \<Rightarrow> c'
           | Rejected x \<Rightarrow> handleDownload_settle True c'
           | Fulfilled t (f, cx) \<Rightarrow> downloadCanvas e f (handleDownload_settle False c')))"

subsection \<open>The control panel of the legacy variant\<close>

text \<open>The state of the legacy control: the two scale options, the value of the number
  input, the class marker and the loader's display set by the click handler, the
  field \<^verbatim>\<open>tileSize\<close>, and what has reached the user or the console: downloads, alerts
  (the code has no call of \<^verbatim>\<open>alert\<close>), logged exceptions.\<close>

record legacy_control =
  lc_minScale :: real
  lc_maxScale :: real
  lc_scaleInput :: "real option"
  lc_print_disabled :: bool
  lc_loader_shown :: bool
  lc_tileSize :: "real option"
  lc_downloads :: "string list"
  lc_alerts :: "string list"
  lc_logged :: "error list"

text \<open>The click listener of \<^verbatim>\<open>_createDownloadButton\<close>, up to the call of \<^verbatim>\<open>_print\<close>; the
  second component tells whether \<^verbatim>\<open>_print\<close> is called.\<close>

definition legacy_click :: "legacy_control \<Rightarrow> legacy_control \<times> bool" where
  "legacy_click c =
     (case lc_scaleInput c of
        None \<Rightarrow> (c\<lparr>lc_scaleInput := Some (lc_minScale c)\<rparr>, False)
      | Some v \<Rightarrow>
          if v < lc_minScale c \<or> v > lc_maxScale c
          then (c\<lparr>lc_scaleInput := Some (lc_minScale c)\<rparr>, False)
          else (c\<lparr>lc_print_disabled := True, lc_loader_shown := True\<rparr>, True))"

text \<open>The last \<^verbatim>\<open>then\<close> of \<^verbatim>\<open>_print\<close>: the canvas is encoded (the callback downloads
  \<^verbatim>\<open>bigImage.png\<close>; creating an object URL for a missing blob throws inside it) and the
  panel is enabled again.\<close>

definition legacy_finish :: "env \<Rightarrow> frame \<Rightarrow> legacy_control \<Rightarrow> legacy_control" where
  "legacy_finish e f c =
     (let c = (if toBlob e (canvas f) ''image/png''
               then c\<lparr>lc_downloads := lc_downloads c @ [''bigImage.png'']\<rparr> else c)
      in c\<lparr>lc_print_disabled := False, lc_loader_shown := False\<rparr>)"

text \<open>\<^verbatim>\<open>_print\<close>, followed to the end of what it sets off. The outer \<open>None\<close>: a tile loop
  does not end. A Collect phase that never ends, or an exception in the draw pass
  (nothing handles the rejected promise), leaves the control as the click handler set
  it.\<close>

definition legacy_print :: "env \<Rightarrow> legacy_control \<Rightarrow> legacy_control option" where
  "legacy_print e c =
     (let f = legacy_changeScale (lc_scaleInput c) (capture (the_map e))
      in case legacy_getLayers (fetch_of e) (the_map e) f (eachLayer e)
                ((legacy_no_caches (lc_tileSize c), []), []) of
           None \<Rightarrow> None
         | Some ((c0, tasks), logged) \<Rightarrow>
             let c = c\<lparr>lc_tileSize := l_tileSize c0, lc_logged := lc_logged c @ logged\<rparr>
             in (case legacy_await_loads tasks c0 of
                   None \<Rightarrow> Some c
                 | Some (t, cs) \<Rightarrow>
                     (case legacy_render (the_map e) f cs getContext of
                        Inl x \<Rightarrow> Some c
                      | Inr cx \<Rightarrow> Some (legacy_finish e f c))))"

definition legacy_download :: "env \<Rightarrow> legacy_control \<Rightarrow> legacy_control option" where
  "legacy_download e c =
     (case legacy_click c of
        (c', False) \<Rightarrow> Some c'
      | (c', True) \<Rightarrow> legacy_print e c')"

subsection \<open>Clicks while an export is in flight\<close>

text \<open>The events that reach a control: the user edits the scale field, the user clicks
  the download button, the promise of an export in flight settles (\<open>True\<close>: rejected).
  The second component of the state counts the exports in flight.\<close>

datatype ui_event = Edit "real option" | Click | Settle bool

fun ui_step :: "control \<times> nat \<Rightarrow> ui_event \<Rightarrow> control \<times> nat" where
  "ui_step (c, n) (Edit v) = (c\<lparr>scaleInput := v\<rparr>, n)"
| "ui_step (c, n) Click =
     (case handleDownload_click c of
        (c', None) \<Rightarrow> (c', n)
      | (c', Some scale) \<Rightarrow> (c', n + 1))"
| "ui_step (c, n) (Settle failed) =
     (if n = 0 then (c, n) else (handleDownload_settle failed c, n - 1))"

text \<open>In the legacy variant a fulfilled export runs the last \<^verbatim>\<open>then\<close> of \<^verbatim>\<open>_print\<close>,
  which enables the panel; a rejected one runs nothing.\<close>

fun legacy_ui_step :: "legacy_control \<times> nat \<Rightarrow> ui_event \<Rightarrow> legacy_control \<times> nat" where
  "legacy_ui_step (c, n) (Edit v) = (c\<lparr>lc_scaleInput := v\<rparr>, n)"
| "legacy_ui_step (c, n) Click =
     (case legacy_click c of
        (c', False) \<Rightarrow> (c', n)
      | (c', True) \<Rightarrow> (c', n + 1))"
| "legacy_ui_step (c, n) (Settle failed) =
     (if n = 0 then (c, n)
      else if failed then (c, n - 1)
      else (c\<lparr>lc_print_disabled := False, lc_loader_shown := False\<rparr>, n - 1))"

subsection \<open>Invariants of the Collect phase\<close>

text \<open>Every load has a timer of at most \<open>D\<close> milliseconds.\<close>

definition timers_bounded :: "nat \<Rightarrow> ('t, 'm) task list \<Rightarrow> bool" where
  "timers_bounded D tasks = (\<forall>t \<in> set tasks. \<exists>d \<le> D. timer t = Some d)"

text \<open>The tile cache has a slot for the layer of every tile load.\<close>

definition slots_present :: "(tile_img, marker_entry) task list \<Rightarrow> caches \<Rightarrow> bool" where
  "slots_present tasks c =
     (\<forall>t \<in> set tasks. \<forall>k key e. slot t = TileSlot k key e \<longrightarrow> map_of (tilesImgs c) k \<noteq> None)"

text \<open>A load that is not resolved still has its timer set, and the timer's event is
  still to come.\<close>

definition loop_inv :: "('t, 'm) task list \<Rightarrow> event list \<Rightarrow> tstate list \<Rightarrow> bool" where
  "loop_inv tasks es ts =
     (length ts = length tasks \<and>
      (\<forall>i < length tasks. \<not> resolved (ts ! i) \<longrightarrow>
           armed (ts ! i) \<and> (\<exists>d. timer (tasks ! i) = Some d \<and> (d, i, Timeout) \<in> set es)))"

text \<open>What the walk over the layers keeps true of the caches and the dispatched loads.\<close>

definition collected_ok :: "caches \<times> (tile_img, marker_entry) task list \<Rightarrow> bool" where
  "collected_ok acc =
     (timers_bounded 10000 (snd acc) \<and> slots_present (snd acc) (fst acc)
      \<and> (\<forall>k lt. map_of (tilesImgs (fst acc)) k = Some lt \<longrightarrow> lt = []))"

text \<open>Every entry of the tile cache was stored for a dispatched load whose image
  arrived, by the time \<open>T\<close>.\<close>

definition entries_from :: "(tile_img, marker_entry) task list \<Rightarrow> nat \<Rightarrow> caches \<Rightarrow> bool" where
  "entries_from tasks T c =
     (\<forall>k lt key e. map_of (tilesImgs c) k = Some lt \<and> map_of lt key = Some e \<longrightarrow>
        (\<exists>t \<in> set tasks. slot t = TileSlot k key e \<and> (\<exists>n \<le> T. fetch t = Some (Loads n))))"

text \<open>A \<^verbatim>\<open>load\<close> event belongs to a load whose request succeeds at that time.\<close>

definition genuine :: "('t, 'm) task list \<Rightarrow> event list \<Rightarrow> bool" where
  "genuine tasks es =
     (\<forall>t i. (t, i, Load) \<in> set es \<longrightarrow> i < length tasks \<and> fetch (tasks ! i) = Some (Loads t))"

subsection \<open>The draw list of the specification\<close>

text \<open>The calls the specification lists for the Render phase of the Leaflet 2 variant:
  the background, then per cached tile, path, marker and circle the calls that draw it,
  in this order. They serve to state the order of the draw pass.\<close>

definition spec_tile :: "tile_img \<Rightarrow> draw" where
  "spec_tile t = DrawImage (img t) (x_pos t) (y_pos t) (Some (tile_tileSize t, tile_tileSize t))"

definition spec_style :: "path_options \<Rightarrow> draw list" where
  "spec_style po =
     (if fill po
      then [Fill (case or_str (fillRule po) (Some ''evenodd'') of None \<Rightarrow> [] | Some v \<Rightarrow> v)]
      else []) @
     (if stroke po \<noteq> Some False \<and> (case weight po of None \<Rightarrow> 3 | Some w \<Rightarrow> w) \<noteq> 0
      then [Stroke] else [])"

fun spec_lines :: "point list \<Rightarrow> draw list" where
  "spec_lines [] = []"
| "spec_lines (p # ps) = MoveTo (px p) (py p) # map (\<lambda>q. LineTo (px q) (py q)) ps"

definition spec_path :: "path_entry \<Rightarrow> draw list" where
  "spec_path pe =
     BeginPath # spec_lines (parts pe) @ (if closed pe then [ClosePath] else [])
       @ spec_style (options pe)"

definition spec_marker :: "marker_entry \<Rightarrow> draw list" where
  "spec_marker mk =
     (if truthy (m_html mk)
      then [StrokeText (case m_html mk of None \<Rightarrow> [] | Some t \<Rightarrow> t) (m_x mk) (m_y mk),
            FillText (case m_html mk of None \<Rightarrow> [] | Some t \<Rightarrow> t) (m_x mk) (m_y mk)]
      else (case m_img mk of None \<Rightarrow> [] | Some i \<Rightarrow> [DrawImage i (m_x mk) (m_y mk) None]))"

definition spec_circle :: "host_map \<Rightarrow> frame \<Rightarrow> circle \<Rightarrow> draw list" where
  "spec_circle m f l =
     (if empty_result l = Some True then []
      else [BeginPath,
            Arc (px (project m (c_latlng l)) - px (min_pt (bounds f)))
                ((py (project m (c_latlng l)) - py (min_pt (bounds f))) / circle_s l)
                (circle_r l)]
           @ spec_style (c_options l))"

definition spec_render :: "host_map \<Rightarrow> frame \<Rightarrow> caches \<Rightarrow> draw list" where
  "spec_render m f cs =
     FillRect 0 0 (width (canvas f)) (height (canvas f))
     # map spec_tile (concat (map values_of (values_of (tilesImgs cs))))
     @ concat (map spec_path (values_of (paths cs)))
     @ concat (map spec_marker (values_of (markers cs)))
     @ concat (map (spec_circle m f) (values_of (circles cs)))"

subsection \<open>Sample inputs\<close>

text \<open>A host map with a viewport of 800 by 600 pixels, and one with a viewport of 201 by
  201 pixels; the projection takes \<open>(lat, lng)\<close> to the pixel \<open>(lng, lat)\<close>.\<close>

definition wide_map :: host_map where
  "wide_map =
     \<lparr>getSize = \<lparr>px = 800, py = 600\<rparr>, getZoom = 3,
      getPixelBounds = \<lparr>min_pt = \<lparr>px = 100, py = 200\<rparr>, max_pt = \<lparr>px = 900, py = 800\<rparr>\<rparr>,
      project = (\<lambda>(lat, lng). \<lparr>px = lng, py = lat\<rparr>)\<rparr>"

definition odd_map :: host_map where
  "odd_map =
     \<lparr>getSize = \<lparr>px = 201, py = 201\<rparr>, getZoom = 3,
      getPixelBounds = \<lparr>min_pt = \<lparr>px = 0, py = 0\<rparr>, max_pt = \<lparr>px = 201, py = 201\<rparr>\<rparr>,
      project = (\<lambda>(lat, lng). \<lparr>px = lng, py = lat\<rparr>)\<rparr>"

text \<open>A viewport of 200 by 200 pixels whose pixel bounds start at the origin, at zoom 3,
  and a tile layer with the default tile size of 256.\<close>

definition sample_frame :: frame where
  "sample_frame =
     \<lparr>zoom = 3,
      bounds = \<lparr>min_pt = \<lparr>px = 0, py = 0\<rparr>, max_pt = \<lparr>px = 200, py = 200\<rparr>\<rparr>,
      canvas = \<lparr>width = 200, height = 200\<rparr>\<rparr>"

definition sample_tiles :: tile_layer where
  "sample_tiles =
     \<lparr>tl_id = 5, options_tileSize = None, tileSize_x = 256, options_opacity = None,
      adjustTilePoint = None, getTileUrl = (\<lambda>p. Some ''tile'')\<rparr>"

text \<open>A host map with that viewport, whose projection takes \<open>(lat, lng)\<close> to the pixel
  \<open>(lng, lat)\<close>.\<close>

definition sample_map :: host_map where
  "sample_map =
     \<lparr>getSize = \<lparr>px = 200, py = 200\<rparr>, getZoom = 3,
      getPixelBounds = \<lparr>min_pt = \<lparr>px = 0, py = 0\<rparr>, max_pt = \<lparr>px = 200, py = 200\<rparr>\<rparr>,
      project = (\<lambda>(lat, lng). \<lparr>px = lng, py = lat\<rparr>)\<rparr>"

text \<open>The map with the tile layer alone, in a browser where every image request fails
  after 100 ms, and one where no request is ever answered.\<close>

definition failing_env :: env where
  "failing_env =
     \<lparr>the_map = sample_map, eachLayer = [TileLayer sample_tiles],
      fetch_of = (\<lambda>u. Fails 100), toBlob = (\<lambda>c t. True)\<rparr>"

definition hanging_env :: env where
  "hanging_env =
     \<lparr>the_map = sample_map, eachLayer = [TileLayer sample_tiles],
      fetch_of = (\<lambda>u. Hangs), toBlob = (\<lambda>c t. True)\<rparr>"

text \<open>The two controls with their default options, idle, the scale field at \<open>1\<close>; the
  format selector of the Leaflet 2 control stands at \<open>png\<close>.\<close>

definition idle_control :: control where
  "idle_control =
     \<lparr>opts = \<lparr>minScale = 1, maxScale = 10, exportFormat = ''png'', fileName = ''mapExport''\<rparr>,
      scaleInput = Some 1, formatSelect = Some ''png'', isProcessing = False,
      print_disabled = False, loader_show = False, alerts = [], downloads = []\<rparr>"

definition legacy_idle :: legacy_control where
  "legacy_idle =
     \<lparr>lc_minScale = 1, lc_maxScale = 10, lc_scaleInput = Some 1, lc_print_disabled = False,
      lc_loader_shown = False, lc_tileSize = None, lc_downloads = [], lc_alerts = [],
      lc_logged = []\<rparr>"

text \<open>The default style of a polyline, and a polyline whose two vertices project to
  \<open>(-5, -5)\<close> and \<open>(-20, -10)\<close>, above and left of the canvas.\<close>

definition plain_options :: path_options where
  "plain_options =
     \<lparr>fill = False, fillOpacity = Some (1 / 5), fillColor = None, color = Some ''#3388ff'',
      fillRule = Some ''evenodd'', stroke = Some True, weight = Some 3, opacity = Some 1,
      dashArray = None, dashArray_legacy = None, lineCap = Some ''round'',
      lineJoin = Some ''round''\<rparr>"

definition outside_path :: path where
  "outside_path =
     \<lparr>p_id = 7, mRadius = False, latlngs = Some (Arr [LatLng (-5, -5), LatLng (-10, -20)]),
      p_options = plain_options\<rparr>"

text \<open>A control whose lowest scale is \<open>0\<close>, with \<open>0\<close> in the scale field; a filled
  polyline (its \<^verbatim>\<open>_latlngs\<close> are a flat array of coordinates) and a circle whose rounded
  vertical radius differs from its radius, each alone on the sample map.\<close>

definition zero_control :: control where
  "zero_control = idle_control\<lparr>opts := (opts idle_control)\<lparr>minScale := 0\<rparr>, scaleInput := Some 0\<rparr>"

definition filled_polyline :: path where
  "filled_polyline =
     \<lparr>p_id = 8, mRadius = False, latlngs = Some (Arr [LatLng (10, 10), LatLng (50, 50)]),
      p_options = plain_options\<lparr>fill := True\<rparr>\<rparr>"

definition polyline_env :: env where
  "polyline_env =
     \<lparr>the_map = sample_map, eachLayer = [Path filled_polyline],
      fetch_of = (\<lambda>u. Loads 50), toBlob = (\<lambda>c t. True)\<rparr>"

definition oval_circle :: circle where
  "oval_circle =
     \<lparr>c_id = 9, c_latlng = (100, 100), radius = 10, radiusY = Some 12,
      empty_result = Some False, c_options = plain_options\<rparr>"

definition circle_env :: env where
  "circle_env =
     \<lparr>the_map = sample_map, eachLayer = [Circle oval_circle],
      fetch_of = (\<lambda>u. Loads 50), toBlob = (\<lambda>c t. True)\<rparr>"

text \<open>The sample map without any layer.\<close>

definition empty_env :: env where
  "empty_env =
     \<lparr>the_map = sample_map, eachLayer = [], fetch_of = (\<lambda>u. Hangs), toBlob = (\<lambda>c t. True)\<rparr>"

text \<open>A cached tile of opacity one half; and, for the legacy variant, caches with a
  polyline of stroke opacity one half and a marker.\<close>

definition half_tile :: tile_img where
  "half_tile = \<lparr>img = ''tile'', x_pos = 0, y_pos = 0, tile_opacity = 1 / 2, tile_tileSize = 256\<rparr>"

definition faint_options :: path_options where
  "faint_options = plain_options\<lparr>opacity := Some (1 / 2)\<rparr>"

definition legacy_faint :: legacy_caches where
  "legacy_faint =
     (legacy_no_caches None)
       \<lparr>l_path := [(7, \<lparr>parts = [\<lparr>px = 10, py = 10\<rparr>, \<lparr>px = 50, py = 50\<rparr>], closed = False,
                        options = faint_options\<rparr>)],
        l_markers := [(3, \<lparr>l_img = ''pin'', l_x = 20, l_y = 20\<rparr>)]\<rparr>"

text \<open>A second tile layer, with tiles of 512 pixels, and the legacy caches at the end
  of the Collect phase of the sample map with both tile layers, every request answered
  after 50 ms.\<close>

definition big_tiles :: tile_layer where
  "big_tiles =
     \<lparr>tl_id = 6, options_tileSize = Some 512, tileSize_x = 512, options_opacity = None,
      adjustTilePoint = None, getTileUrl = (\<lambda>p. Some ''big'')\<rparr>"

definition two_layer_caches :: legacy_caches where
  "two_layer_caches =
     \<lparr>l_tilesImgs =
        [(5, [((0, 0, 3), \<lparr>l_img = ''tile'', l_x = 0, l_y = 0\<rparr>)]),
         (6, [((0, 0, 3), \<lparr>l_img = ''big'', l_x = 0, l_y = 0\<rparr>)])],
      l_markers = [], l_path = [], l_circles = [], l_tileSize = Some 512\<rparr>"

section \<open>Verified properties\<close>

subsection \<open>Expand\<close>

text \<open>A number below \<open>2 ^ 52\<close> in magnitude whose twofold is an integer is a double:
  rounding leaves it as it is. So does the canvas element with a natural number up to
  \<open>2147483647\<close>.\<close>

lemma roundTiesToEven_int [simp]: "roundTiesToEven (of_int n) = n"
  by (simp add: roundTiesToEven_def)

lemma exponent_le:
  assumes "\<bar>x\<bar> < 2 ^ 52"
  shows "exponent x \<le> 51"
proof (cases "1 \<le> \<bar>x\<bar>")
  case True
  have "nat \<lfloor>\<bar>x\<bar>\<rfloor> < 2 ^ 52"
    using assms by (simp add: nat_less_iff floor_less_iff)
  then have "floorlog 2 (nat \<lfloor>\<bar>x\<bar>\<rfloor>) \<le> 52"
    by (simp add: floorlog_le_iff)
  with True show ?thesis by (simp add: exponent_def)
next
  case False
  then show ?thesis by (simp add: exponent_def)
qed

lemma fl_exact:
  assumes "2 * x \<in> \<int>" "\<bar>x\<bar> < 2 ^ 52"
  shows "fl x = x"
proof (cases "x = 0")
  case True
  then show ?thesis by (simp add: fl_def)
next
  case False
  define e where "e = max (exponent x) (- 1022) - 52"
  from exponent_le [OF assms(2)] have e: "e \<le> - 1" by (simp add: e_def)
  define k where "k = nat (- e) - 1"
  from e have q: "pow2 e = 1 / 2 ^ Suc k"
    by (simp add: pow2_def k_def)
  from assms(1) obtain m :: int where m: "2 * x = of_int m" by (auto elim: Ints_cases)
  have "x / pow2 e = of_int (m * 2 ^ k)"
    using m by (simp add: q field_simps)
  then have "of_int (roundTiesToEven (x / pow2 e)) = x / pow2 e"
    by (simp only: roundTiesToEven_int)
  then have "of_int (roundTiesToEven (x / pow2 e)) * pow2 e = x"
    by (simp add: q)
  with False show ?thesis by (simp add: fl_def e_def Let_def)
qed

lemma pow2_pos: "0 < pow2 k"
  by (simp add: pow2_def)

lemma fl_nonneg:
  assumes "0 \<le> x"
  shows "0 \<le> fl x"
proof (cases "x = 0")
  case True
  then show ?thesis by (simp add: fl_def)
next
  case False
  define q where "q = pow2 (max (exponent x) (- 1022) - 52)"
  have q: "0 < q" by (simp add: q_def pow2_pos)
  with assms have "0 \<le> x / q" by simp
  then have "0 \<le> \<lfloor>x / q\<rfloor>" by simp
  then have "0 \<le> roundTiesToEven (x / q)"
    by (simp add: roundTiesToEven_def Let_def)
  with q False show ?thesis by (simp add: fl_def q_def [symmetric] Let_def)
qed

lemma dimension_floor:
  assumes "0 \<le> v" "v < 2 ^ 31"
  shows "dimension d v = nat \<lfloor>v\<rfloor>"
proof -
  from assms have 1: "0 \<le> \<lfloor>v\<rfloor>" "\<lfloor>v\<rfloor> < 2 ^ 31"
    by (simp_all add: floor_less_iff)
  then have "\<lfloor>v\<rfloor> mod 2 ^ 32 = \<lfloor>v\<rfloor>" by simp
  with assms 1 show ?thesis by (simp add: dimension_def ToUint32_def)
qed

lemma dimension_nat:
  assumes "n \<le> 2147483647"
  shows "dimension d (real n) = n"
  using assms dimension_floor [of "real n" d] by simp

lemma fl_nat:
  assumes "n \<le> 2147483647"
  shows "fl (real n) = real n"
proof -
  from assms have "real n \<le> 2147483647" by simp
  then have "\<bar>real n\<bar> < 2 ^ 52" by simp
  then show ?thesis by (intro fl_exact) auto
qed

lemma axis_exact:
  assumes "exact_axis s lo hi"
  shows "fl (lo - fl (fl (fl (hi - lo) / 2) * fl (s - 1))) = lo - (hi - lo) / 2 * (s - 1)"
    and "fl (hi + fl (fl (fl (hi - lo) / 2) * fl (s - 1))) = hi + (hi - lo) / 2 * (s - 1)"
  using assms unfolding exact_axis_def representable_def by (simp_all only:)

lemma integer_axis_exact:
  fixes a c k :: int
  assumes "1 < k" "k < 2 ^ 50" "\<bar>a\<bar> < 2 ^ 50" "\<bar>c\<bar> < 2 ^ 50" "\<bar>(c - a) * k\<bar> < 2 ^ 50"
  shows "exact_axis (of_int k) (of_int a) (of_int c)"
proof -
  have d: "\<bar>c - a\<bar> < 2 ^ 50"
  proof -
    have "\<bar>c - a\<bar> * 1 \<le> \<bar>c - a\<bar> * k" using assms(1) by (intro mult_left_mono) auto
    with assms(1,5) show ?thesis by (simp add: abs_mult)
  qed
  have p: "\<bar>(c - a) * (k - 1)\<bar> < 2 ^ 50"
  proof -
    have "\<bar>c - a\<bar> * (k - 1) \<le> \<bar>c - a\<bar> * k" using assms(1) by (intro mult_left_mono) auto
    with assms(1,5) show ?thesis by (simp add: abs_mult)
  qed
  have r: "fl (of_int n / 2) = of_int n / 2" if "\<bar>n\<bar> < 2 ^ 52" for n :: int
  proof -
    have "\<bar>real_of_int n\<bar> < 2 ^ 52" using that by (metis of_int_abs of_int_less_numeral_power_cancel_iff)
    then show ?thesis by (intro fl_exact) auto
  qed
  have i: "fl (of_int n) = of_int n" if "\<bar>n\<bar> < 2 ^ 52" for n :: int
  proof -
    have "\<bar>real_of_int n\<bar> < 2 ^ 52" using that by (metis of_int_abs of_int_less_numeral_power_cancel_iff)
    then show ?thesis by (intro fl_exact) auto
  qed
  have 1: "representable (real_of_int c - real_of_int a)"
    using i [of "c - a"] d by (simp add: representable_def)
  have 2: "representable ((real_of_int c - real_of_int a) / 2)"
    using r [of "c - a"] d by (simp add: representable_def)
  have 3: "representable (real_of_int k - 1)"
    using i [of "k - 1"] assms(1,2) by (simp add: representable_def)
  have 4: "representable ((real_of_int c - real_of_int a) / 2 * (real_of_int k - 1))"
  proof -
    have e: "(real_of_int c - real_of_int a) / 2 * (real_of_int k - 1)
        = of_int ((c - a) * (k - 1)) / 2"
      by simp
    from p have "\<bar>(c - a) * (k - 1)\<bar> < 2 ^ 52" by simp
    from r [OF this] show ?thesis unfolding representable_def e .
  qed
  have 5: "representable (real_of_int a - (real_of_int c - real_of_int a) / 2 * (real_of_int k - 1))"
  proof -
    have e: "real_of_int a - (real_of_int c - real_of_int a) / 2 * (real_of_int k - 1)
        = of_int (2 * a - (c - a) * (k - 1)) / 2"
      by (simp add: field_simps)
    have "\<bar>2 * a - (c - a) * (k - 1)\<bar> < 2 ^ 52" using assms(3) p by simp
    from r [OF this] show ?thesis unfolding representable_def e .
  qed
  have 6: "representable (real_of_int c + (real_of_int c - real_of_int a) / 2 * (real_of_int k - 1))"
  proof -
    have e: "real_of_int c + (real_of_int c - real_of_int a) / 2 * (real_of_int k - 1)
        = of_int (2 * c + (c - a) * (k - 1)) / 2"
      by (simp add: field_simps)
    have "\<bar>2 * c + (c - a) * (k - 1)\<bar> < 2 ^ 52" using assms(4) p by simp
    from r [OF this] show ?thesis unfolding representable_def e .
  qed
  from 1 2 3 4 5 6 show ?thesis unfolding exact_axis_def by blast
qed


lemma applyScale_unfold:
  "1 < s \<Longrightarrow> applyScale s f =
     f\<lparr>bounds :=
         \<lparr>min_pt = \<lparr>px = fl (px (min_pt (bounds f))
                      - fl (fl (fl (px (max_pt (bounds f)) - px (min_pt (bounds f))) / 2) * fl (s - 1))),
                    py = fl (py (min_pt (bounds f))
                      - fl (fl (fl (py (max_pt (bounds f)) - py (min_pt (bounds f))) / 2) * fl (s - 1)))\<rparr>,
          max_pt = \<lparr>px = fl (px (max_pt (bounds f))
                      + fl (fl (fl (px (max_pt (bounds f)) - px (min_pt (bounds f))) / 2) * fl (s - 1))),
                    py = fl (py (max_pt (bounds f))
                      + fl (fl (fl (py (max_pt (bounds f)) - py (min_pt (bounds f))) / 2) * fl (s - 1)))\<rparr>\<rparr>,
       canvas := \<lparr>width = dimension 300 (fl (real (width (canvas f)) * s)),
                  height = dimension 150 (fl (real (height (canvas f)) * s))\<rparr>\<rparr>"
  by (cases "min_pt (bounds f)"; cases "max_pt (bounds f)"; cases "canvas f")
     (simp add: applyScale_def Let_def set_width_def set_height_def)

lemma legacy_changeScale_applyScale:
  "legacy_changeScale (Some s) f = applyScale s f"
  by (simp add: applyScale_def legacy_changeScale_def)

lemma capture_canvas:
  assumes "getSize m = \<lparr>px = real w, py = real h\<rparr>" "w \<le> 2147483647" "h \<le> 2147483647"
  shows "canvas (capture m) = \<lparr>width = w, height = h\<rparr>"
  using assms
  by (simp add: capture_def Let_def set_width_def set_height_def createElement_canvas_def
      dimension_nat)

text \<open>
  C3, as the code has it. For every scale \<open>s > 1\<close> Expand computes the amount
  \<open>(max - min) / 2 * (s - 1)\<close> of each axis in the arithmetic of doubles, moves the minimum
  corner of the captured bounds down and the maximum corner up by it, and assigns to
  each canvas dimension its product with \<open>s\<close>, of which the canvas element keeps the
  integer part (for a product below \<open>2 ^ 31\<close>). Whenever no operation rounds, and so for
  pixel bounds with integer coordinates and an integer scale (magnitudes below
  \<open>2 ^ 50\<close>), the expanded bounds are exactly \<open>min - (max - min) / 2 * (s - 1)\<close> and
  \<open>max + (max - min) / 2 * (s - 1)\<close> and keep the centre of the original ones. Whenever the
  product of a canvas dimension with \<open>s\<close> is an integer (at most \<open>2147483647\<close>) it is the
  new dimension, so the canvas of an export at an integer scale \<open>k\<close> is the viewport size
  times \<open>k\<close>. For every \<open>s \<le> 1\<close> bounds and canvas are untouched, so at \<open>s = 1\<close> the canvas
  has exactly the viewport dimensions. Both variants compute the same.
\<close>

theorem applyScale_expands_symmetrically:
  fixes f :: frame and s :: real and m :: host_map and w h nw nh k :: nat
    and j xa ya xb yb :: int
  defines "b \<equiv> bounds f"
  defines "ax \<equiv> fl (fl (fl (px (max_pt b) - px (min_pt b)) / 2) * fl (s - 1))"
  defines "ay \<equiv> fl (fl (fl (py (max_pt b) - py (min_pt b)) / 2) * fl (s - 1))"
  defines "dx \<equiv> (px (max_pt b) - px (min_pt b)) / 2 * (s - 1)"
  defines "dy \<equiv> (py (max_pt b) - py (min_pt b)) / 2 * (s - 1)"
  shows "(1 < s \<longrightarrow>
            bounds (applyScale s f) =
              \<lparr>min_pt = \<lparr>px = fl (px (min_pt b) - ax), py = fl (py (min_pt b) - ay)\<rparr>,
               max_pt = \<lparr>px = fl (px (max_pt b) + ax), py = fl (py (max_pt b) + ay)\<rparr>\<rparr>
          \<and> canvas (applyScale s f) =
              \<lparr>width = dimension 300 (fl (real (width (canvas f)) * s)),
               height = dimension 150 (fl (real (height (canvas f)) * s))\<rparr>
          \<and> zoom (applyScale s f) = zoom f)
       \<and> (1 < s \<and> exact_axis s (px (min_pt b)) (px (max_pt b))
                 \<and> exact_axis s (py (min_pt b)) (py (max_pt b)) \<longrightarrow>
            bounds (applyScale s f) =
              \<lparr>min_pt = \<lparr>px = px (min_pt b) - dx, py = py (min_pt b) - dy\<rparr>,
               max_pt = \<lparr>px = px (max_pt b) + dx, py = py (max_pt b) + dy\<rparr>\<rparr>
          \<and> centre (bounds (applyScale s f)) = centre b)
       \<and> (b = \<lparr>min_pt = \<lparr>px = of_int xa, py = of_int ya\<rparr>,
                max_pt = \<lparr>px = of_int xb, py = of_int yb\<rparr>\<rparr>
            \<and> s = of_int j \<and> 1 < j \<and> j < 2 ^ 50
            \<and> \<bar>xa\<bar> < 2 ^ 50 \<and> \<bar>ya\<bar> < 2 ^ 50 \<and> \<bar>xb\<bar> < 2 ^ 50 \<and> \<bar>yb\<bar> < 2 ^ 50
            \<and> \<bar>(xb - xa) * j\<bar> < 2 ^ 50 \<and> \<bar>(yb - ya) * j\<bar> < 2 ^ 50 \<longrightarrow>
            bounds (applyScale s f) =
              \<lparr>min_pt = \<lparr>px = px (min_pt b) - dx, py = py (min_pt b) - dy\<rparr>,
               max_pt = \<lparr>px = px (max_pt b) + dx, py = py (max_pt b) + dy\<rparr>\<rparr>
          \<and> centre (bounds (applyScale s f)) = centre b)
       \<and> (1 < s \<and> fl (real (width (canvas f)) * s) < 2 ^ 31
                 \<and> fl (real (height (canvas f)) * s) < 2 ^ 31 \<longrightarrow>
            canvas (applyScale s f) =
              \<lparr>width = nat \<lfloor>fl (real (width (canvas f)) * s)\<rfloor>,
               height = nat \<lfloor>fl (real (height (canvas f)) * s)\<rfloor>\<rparr>)
       \<and> (1 < s \<and> real (width (canvas f)) * s = real nw \<and> nw \<le> 2147483647 \<longrightarrow>
            width (canvas (applyScale s f)) = nw)
       \<and> (1 < s \<and> real (height (canvas f)) * s = real nh \<and> nh \<le> 2147483647 \<longrightarrow>
            height (canvas (applyScale s f)) = nh)
       \<and> (s \<le> 1 \<longrightarrow> applyScale s f = f)
       \<and> legacy_changeScale (Some s) f = applyScale s f
       \<and> legacy_changeScale None f = f
       \<and> (getSize m = \<lparr>px = real w, py = real h\<rparr> \<and> w \<le> 2147483647 \<and> h \<le> 2147483647 \<longrightarrow>
            canvas (applyScale 1 (capture m)) = \<lparr>width = w, height = h\<rparr>
          \<and> (1 < k \<and> w * k \<le> 2147483647 \<and> h * k \<le> 2147483647 \<longrightarrow>
               canvas (applyScale (real k) (capture m)) = \<lparr>width = w * k, height = h * k\<rparr>))"
proof -
  have 1: "1 < s \<longrightarrow>
            bounds (applyScale s f) =
              \<lparr>min_pt = \<lparr>px = fl (px (min_pt b) - ax), py = fl (py (min_pt b) - ay)\<rparr>,
               max_pt = \<lparr>px = fl (px (max_pt b) + ax), py = fl (py (max_pt b) + ay)\<rparr>\<rparr>
          \<and> canvas (applyScale s f) =
              \<lparr>width = dimension 300 (fl (real (width (canvas f)) * s)),
               height = dimension 150 (fl (real (height (canvas f)) * s))\<rparr>
          \<and> zoom (applyScale s f) = zoom f"
    by (simp add: applyScale_unfold b_def ax_def ay_def)
  have 2: "bounds (applyScale s f) =
              \<lparr>min_pt = \<lparr>px = px (min_pt b) - dx, py = py (min_pt b) - dy\<rparr>,
               max_pt = \<lparr>px = px (max_pt b) + dx, py = py (max_pt b) + dy\<rparr>\<rparr>
          \<and> centre (bounds (applyScale s f)) = centre b"
    if "1 < s" "exact_axis s (px (min_pt b)) (px (max_pt b))"
       "exact_axis s (py (min_pt b)) (py (max_pt b))"
  proof -
    from 1 that(1) have "bounds (applyScale s f) =
              \<lparr>min_pt = \<lparr>px = fl (px (min_pt b) - ax), py = fl (py (min_pt b) - ay)\<rparr>,
               max_pt = \<lparr>px = fl (px (max_pt b) + ax), py = fl (py (max_pt b) + ay)\<rparr>\<rparr>"
      by blast
    then have e: "bounds (applyScale s f) =
              \<lparr>min_pt = \<lparr>px = px (min_pt b) - dx, py = py (min_pt b) - dy\<rparr>,
               max_pt = \<lparr>px = px (max_pt b) + dx, py = py (max_pt b) + dy\<rparr>\<rparr>"
      unfolding ax_def ay_def dx_def dy_def
      by (simp only: axis_exact [OF that(2)] axis_exact [OF that(3)])
    then have "centre (bounds (applyScale s f)) = centre b"
      by (simp add: centre_def)
    with e show ?thesis by blast
  qed
  have 3: "exact_axis s (px (min_pt b)) (px (max_pt b))
         \<and> exact_axis s (py (min_pt b)) (py (max_pt b)) \<and> 1 < s"
    if "b = \<lparr>min_pt = \<lparr>px = of_int xa, py = of_int ya\<rparr>,
                max_pt = \<lparr>px = of_int xb, py = of_int yb\<rparr>\<rparr>"
       "s = of_int j" "1 < j" "j < 2 ^ 50"
       "\<bar>xa\<bar> < 2 ^ 50" "\<bar>ya\<bar> < 2 ^ 50" "\<bar>xb\<bar> < 2 ^ 50" "\<bar>yb\<bar> < 2 ^ 50"
       "\<bar>(xb - xa) * j\<bar> < 2 ^ 50" "\<bar>(yb - ya) * j\<bar> < 2 ^ 50"
    using that integer_axis_exact [of j xa xb] integer_axis_exact [of j ya yb] by simp
  have 4: "canvas (applyScale s f) =
              \<lparr>width = nat \<lfloor>fl (real (width (canvas f)) * s)\<rfloor>,
               height = nat \<lfloor>fl (real (height (canvas f)) * s)\<rfloor>\<rparr>"
    if "1 < s" "fl (real (width (canvas f)) * s) < 2 ^ 31"
       "fl (real (height (canvas f)) * s) < 2 ^ 31"
  proof -
    from that(1) have "0 \<le> real (width (canvas f)) * s" "0 \<le> real (height (canvas f)) * s"
      by simp_all
    then have "0 \<le> fl (real (width (canvas f)) * s)" "0 \<le> fl (real (height (canvas f)) * s)"
      by (simp_all only: fl_nonneg)
    with that show ?thesis by (simp add: applyScale_unfold dimension_floor)
  qed
  have 5: "width (canvas (applyScale s f)) = nw"
    if "1 < s" "real (width (canvas f)) * s = real nw" "nw \<le> 2147483647"
  proof -
    have "fl (real nw) = real nw" using that(3) by (rule fl_nat)
    with that show ?thesis by (simp add: applyScale_unfold dimension_nat)
  qed
  have 6: "height (canvas (applyScale s f)) = nh"
    if "1 < s" "real (height (canvas f)) * s = real nh" "nh \<le> 2147483647"
  proof -
    have "fl (real nh) = real nh" using that(3) by (rule fl_nat)
    with that show ?thesis by (simp add: applyScale_unfold dimension_nat)
  qed
  have 7: "s \<le> 1 \<longrightarrow> applyScale s f = f"
    by (simp add: applyScale_def)
  have 8: "legacy_changeScale None f = f"
    by (simp add: legacy_changeScale_def)
  have 9: "canvas (applyScale 1 (capture m)) = \<lparr>width = w, height = h\<rparr>
          \<and> (1 < k \<and> w * k \<le> 2147483647 \<and> h * k \<le> 2147483647 \<longrightarrow>
               canvas (applyScale (real k) (capture m)) = \<lparr>width = w * k, height = h * k\<rparr>)"
    if g: "getSize m = \<lparr>px = real w, py = real h\<rparr>" "w \<le> 2147483647" "h \<le> 2147483647"
  proof -
    note c = capture_canvas [OF g]
    have a: "canvas (applyScale 1 (capture m)) = \<lparr>width = w, height = h\<rparr>"
      by (simp add: applyScale_def c)
    have "canvas (applyScale (real k) (capture m)) = \<lparr>width = w * k, height = h * k\<rparr>"
      if k: "1 < k" "w * k \<le> 2147483647" "h * k \<le> 2147483647"
    proof -
      from k(2) have "fl (real w * real k) = real (w * k)"
        using fl_nat [of "w * k"] by simp
      moreover from k(3) have "fl (real h * real k) = real (h * k)"
        using fl_nat [of "h * k"] by simp
      ultimately show ?thesis
        using k by (simp add: applyScale_unfold c dimension_nat del: of_nat_mult)
    qed
    with a show ?thesis by blast
  qed
  from 1 2 3 4 5 6 7 8 9 legacy_changeScale_applyScale [of s f]
  show ?thesis by blast
qed

lemmas fl_eval = fl_def exponent_def pow2_def roundTiesToEven_def Let_def compute_floorlog

theorem applyScale_expands_symmetrically_witness:
  "applyScale 2 (capture wide_map) =
     \<lparr>zoom = 3,
      bounds = \<lparr>min_pt = \<lparr>px = -300, py = -100\<rparr>, max_pt = \<lparr>px = 1300, py = 1100\<rparr>\<rparr>,
      canvas = \<lparr>width = 1600, height = 1200\<rparr>\<rparr>
   \<and> centre (bounds (applyScale 2 (capture wide_map))) = \<lparr>px = 500, py = 500\<rparr>
   \<and> applyScale (1 / 2) (capture wide_map) = capture wide_map
   \<and> canvas (applyScale 1 (capture wide_map)) = \<lparr>width = 800, height = 600\<rparr>"
proof -
  have c: "capture wide_map =
     \<lparr>zoom = 3,
      bounds = \<lparr>min_pt = \<lparr>px = 100, py = 200\<rparr>, max_pt = \<lparr>px = 900, py = 800\<rparr>\<rparr>,
      canvas = \<lparr>width = 800, height = 600\<rparr>\<rparr>"
    by (simp add: capture_def wide_map_def Let_def set_width_def set_height_def
        createElement_canvas_def dimension_def ToUint32_def)
  have g: "getSize wide_map = \<lparr>px = 800, py = 600\<rparr>"
    by (simp add: wide_map_def)
  note t = applyScale_expands_symmetrically [where s = 2 and f = "capture wide_map"
      and xa = 100 and ya = 200 and xb = 900 and yb = 800 and j = 2 and nw = 1600 and nh = 1200
      and m = wide_map and w = 800 and h = 600 and k = 2]
  note u = applyScale_expands_symmetrically [where s = "1 / 2" and f = "capture wide_map"
      and xa = 100 and ya = 200 and xb = 900 and yb = 800 and j = 2 and nw = 1600 and nh = 1200
      and m = wide_map and w = 800 and h = 600 and k = 2]
  from t have 1: "bounds (applyScale 2 (capture wide_map)) =
      \<lparr>min_pt = \<lparr>px = -300, py = -100\<rparr>, max_pt = \<lparr>px = 1300, py = 1100\<rparr>\<rparr>"
    by (simp add: c fl_exact)
  from t have 2: "centre (bounds (applyScale 2 (capture wide_map))) = \<lparr>px = 500, py = 500\<rparr>"
    by (simp add: c centre_def fl_exact)
  from t have 3: "canvas (applyScale 2 (capture wide_map)) = \<lparr>width = 1600, height = 1200\<rparr>"
    by (simp add: c g fl_exact dimension_def ToUint32_def)
  from t have 4: "zoom (applyScale 2 (capture wide_map)) = 3"
    by (simp add: c fl_exact)
  from u have 5: "applyScale (1 / 2) (capture wide_map) = capture wide_map"
    by simp
  from t have 6: "canvas (applyScale 1 (capture wide_map)) = \<lparr>width = 800, height = 600\<rparr>"
    by (simp add: g)
  from 1 3 4 have "applyScale 2 (capture wide_map) =
     \<lparr>zoom = 3,
      bounds = \<lparr>min_pt = \<lparr>px = -300, py = -100\<rparr>, max_pt = \<lparr>px = 1300, py = 1100\<rparr>\<rparr>,
      canvas = \<lparr>width = 1600, height = 1200\<rparr>\<rparr>"
    by (simp add: frame.equality)
  with 2 5 6 show ?thesis by blast
qed

text \<open>
  C3 as stated fails for fractional scales. A viewport of 201 by 201 pixels exported at
  the scale \<open>1.5\<close> gets a canvas of 301 by 301 pixels, the integer part of \<open>301.5\<close>. At
  the scale \<open>1.1\<close>, that is the double nearest to it, the bounds from \<open>0\<close> to \<open>200\<close> become
  the bounds from \<open>-10.000000000000009\<close> to \<open>210\<close>, whose centre is not \<open>100\<close>.
\<close>

theorem applyScale_fractional_counterexample:
  "canvas (capture odd_map) = \<lparr>width = 201, height = 201\<rparr>
   \<and> fl (3 / 2) = 3 / 2
   \<and> canvas (applyScale (3 / 2) (capture odd_map)) = \<lparr>width = 301, height = 301\<rparr>
   \<and> real (width (canvas (applyScale (3 / 2) (capture odd_map))))
        \<noteq> real (width (canvas (capture odd_map))) * (3 / 2)
   \<and> fl (11 / 10) = 4953959590107546 / 2 ^ 52
   \<and> bounds (applyScale (fl (11 / 10)) sample_frame) =
        \<lparr>min_pt = \<lparr>px = - (5629499534213125 / 2 ^ 49), py = - (5629499534213125 / 2 ^ 49)\<rparr>,
         max_pt = \<lparr>px = 210, py = 210\<rparr>\<rparr>
   \<and> centre (bounds (applyScale (fl (11 / 10)) sample_frame)) \<noteq> centre (bounds sample_frame)"
proof -
  have c: "capture odd_map =
     \<lparr>zoom = 3,
      bounds = \<lparr>min_pt = \<lparr>px = 0, py = 0\<rparr>, max_pt = \<lparr>px = 201, py = 201\<rparr>\<rparr>,
      canvas = \<lparr>width = 201, height = 201\<rparr>\<rparr>"
    by (simp add: capture_def odd_map_def Let_def set_width_def set_height_def
        createElement_canvas_def dimension_def ToUint32_def)
  have 1: "canvas (capture odd_map) = \<lparr>width = 201, height = 201\<rparr>"
    by (simp add: c)
  have 2: "fl (3 / 2) = 3 / 2" by (simp add: fl_exact)
  have 3: "canvas (applyScale (3 / 2) (capture odd_map)) = \<lparr>width = 301, height = 301\<rparr>"
    by (simp add: applyScale_unfold c fl_exact dimension_def ToUint32_def)
  have 4: "real (width (canvas (applyScale (3 / 2) (capture odd_map))))
        \<noteq> real (width (canvas (capture odd_map))) * (3 / 2)"
    unfolding 3 1 by simp
  have 5: "fl (11 / 10) = 4953959590107546 / 2 ^ 52"
    by (simp add: fl_eval)
  have 6: "bounds (applyScale (fl (11 / 10)) sample_frame) =
        \<lparr>min_pt = \<lparr>px = - (5629499534213125 / 2 ^ 49), py = - (5629499534213125 / 2 ^ 49)\<rparr>,
         max_pt = \<lparr>px = 210, py = 210\<rparr>\<rparr>"
    unfolding 5 by (simp add: applyScale_unfold sample_frame_def fl_eval)
  have 7: "centre (bounds (applyScale (fl (11 / 10)) sample_frame)) \<noteq> centre (bounds sample_frame)"
    unfolding 6 by (simp add: centre_def sample_frame_def)
  from 1 2 3 4 5 6 7 show ?thesis by blast
qed

subsection \<open>The tile grid\<close>

lemma grid_index_request [simp]: "grid_index (tile_request_at f l ts i j) = (i, j)"
  by (simp add: tile_request_at_def Let_def)

lemma set_row_loop:
  "set (concat (map (\<lambda>j. concat (map (\<lambda>i. if j < 0 then [] else [g i j]) [a..b])) [c..d]))
     = {g i j | i j. a \<le> i \<and> i \<le> b \<and> c \<le> j \<and> j \<le> d \<and> (0::int) \<le> j}"
  by (fastforce split: if_splits)

lemma grid_tile_requests:
  "grid_index ` set (tile_requests f l) =
     {(i, j). fst (fst (tileBounds (bounds f) (tileSize_of l))) \<le> i
            \<and> i \<le> fst (snd (tileBounds (bounds f) (tileSize_of l)))
            \<and> snd (fst (tileBounds (bounds f) (tileSize_of l))) \<le> j
            \<and> j \<le> snd (snd (tileBounds (bounds f) (tileSize_of l))) \<and> 0 \<le> j}"
  unfolding tile_requests_def Let_def set_row_loop by force

lemma tileBounds_ordered:
  assumes "px (min_pt b) \<le> px (max_pt b)" "py (min_pt b) \<le> py (max_pt b)" "0 < ts"
  shows "tileBounds b ts = ((\<lfloor>px (min_pt b) / ts\<rfloor>, \<lfloor>py (min_pt b) / ts\<rfloor>),
                            (\<lfloor>px (max_pt b) / ts\<rfloor>, \<lfloor>py (max_pt b) / ts\<rfloor>))"
proof -
  have x: "\<lfloor>px (min_pt b) / ts\<rfloor> \<le> \<lfloor>px (max_pt b) / ts\<rfloor>"
    using assms by (intro floor_mono divide_right_mono) auto
  have y: "\<lfloor>py (min_pt b) / ts\<rfloor> \<le> \<lfloor>py (max_pt b) / ts\<rfloor>"
    using assms by (intro floor_mono divide_right_mono) auto
  show ?thesis using x y by (simp add: tileBounds_def Let_def)
qed

lemma set_legacy_tiles:
  "set (legacy_tiles f ts) =
     {(i, j). fst (fst (tileBounds (bounds f) ts)) \<le> i \<and> i \<le> fst (snd (tileBounds (bounds f) ts))
            \<and> snd (fst (tileBounds (bounds f) ts)) \<le> j \<and> j \<le> snd (snd (tileBounds (bounds f) ts))}"
  by (auto simp: legacy_tiles_def Let_def)

lemma grid_index_kept:
  "map grid_index (concat (map (\<lambda>(i, j). if j < 0 then [] else [tile_request_at f l ts i j]) xs))
     = filter (\<lambda>(i, j). \<not> j < 0) xs"
  by (induction xs) auto

lemma legacy_grid:
  assumes "adjustTilePoint l = None" "tileSize_x l \<noteq> 0"
  shows "\<exists>rs. legacy_tile_requests f l = Some rs \<and> grid_index ` set rs =
     {(i, j). fst (fst (tileBounds (bounds f) (tileSize_x l))) \<le> i
            \<and> i \<le> fst (snd (tileBounds (bounds f) (tileSize_x l)))
            \<and> snd (fst (tileBounds (bounds f) (tileSize_x l))) \<le> j
            \<and> j \<le> snd (snd (tileBounds (bounds f) (tileSize_x l))) \<and> 0 \<le> j}"
proof -
  have r: "py (tilePoint (tile_request_at f l ts i j)) < 0 \<longleftrightarrow> j < 0" for ts i j
    using assms(1) by (simp add: tile_request_at_def adjust_def Let_def)
  have "legacy_tile_requests f l =
          Some (concat (map (\<lambda>(i, j). if j < 0 then [] else [tile_request_at f l (tileSize_x l) i j])
                  (legacy_tiles f (tileSize_x l))))"
    using assms(2) by (simp add: legacy_tile_requests_def Let_def r)
  moreover have "grid_index ` set (concat (map (\<lambda>(i, j). if j < 0 then [] else [tile_request_at f l (tileSize_x l) i j])
                  (legacy_tiles f (tileSize_x l)))) =
       set (filter (\<lambda>(i, j). \<not> j < 0) (legacy_tiles f (tileSize_x l)))"
    by (simp only: image_set grid_index_kept)
  ultimately show ?thesis
    by (auto simp: set_legacy_tiles)
qed

text \<open>
  C2, as the code has it. For a pixel rectangle (minimum corner not beyond the maximum
  corner) and a positive tile size, the grid indices \<open>(i, j)\<close> for which a tile load is
  dispatched are exactly those with
  \<open>floor (min.x / ts) \<le> i \<le> floor (max.x / ts)\<close>,
  \<open>floor (min.y / ts) \<le> j \<le> floor (max.y / ts)\<close> and \<open>j \<ge> 0\<close>: the upper index is
  a floor division as well. In the legacy variant this holds for a layer without
  \<^verbatim>\<open>_adjustTilePoint\<close> (there the test for a negative row looks at the adjusted point).
\<close>

theorem tile_requests_floor_range:
  assumes "px (min_pt (bounds f)) \<le> px (max_pt (bounds f))"
      and "py (min_pt (bounds f)) \<le> py (max_pt (bounds f))"
  shows "(0 < tileSize_of l \<longrightarrow>
            grid_index ` set (tile_requests f l) = index_set floor (bounds f) (tileSize_of l))
       \<and> (0 < tileSize_x l \<and> adjustTilePoint l = None \<longrightarrow>
            (\<exists>rs. legacy_tile_requests f l = Some rs
                 \<and> grid_index ` set rs = index_set floor (bounds f) (tileSize_x l)))"
proof (intro conjI impI)
  assume "0 < tileSize_of l"
  then show "grid_index ` set (tile_requests f l) = index_set floor (bounds f) (tileSize_of l)"
    by (simp add: grid_tile_requests tileBounds_ordered [OF assms] index_set_def)
next
  assume a: "0 < tileSize_x l \<and> adjustTilePoint l = None"
  then have "tileSize_x l \<noteq> 0" by simp
  from legacy_grid [OF _ this, of f] a
  show "\<exists>rs. legacy_tile_requests f l = Some rs
           \<and> grid_index ` set rs = index_set floor (bounds f) (tileSize_x l)"
    by (simp add: tileBounds_ordered [OF assms] index_set_def)
qed

theorem tile_requests_floor_range_witness:
  "grid_index ` set (tile_requests sample_frame sample_tiles) = {(0, 0)}
   \<and> (\<exists>rs. legacy_tile_requests sample_frame sample_tiles = Some rs
          \<and> grid_index ` set rs = {(0, 0)})"
proof -
  have b: "px (min_pt (bounds sample_frame)) \<le> px (max_pt (bounds sample_frame))"
    "py (min_pt (bounds sample_frame)) \<le> py (max_pt (bounds sample_frame))"
    by (simp_all add: sample_frame_def)
  have s: "index_set floor (bounds sample_frame) 256 = {(0, 0)}"
    by (auto simp: index_set_def sample_frame_def)
  have t: "tileSize_of sample_tiles = 256" "tileSize_x sample_tiles = 256"
    "adjustTilePoint sample_tiles = None"
    by (simp_all add: sample_tiles_def tileSize_of_def)
  show ?thesis
    using tile_requests_floor_range [OF b, of sample_tiles] by (simp add: t s)
qed

text \<open>
  C2, as the specification words it (upper index by ceiling division), fails: with
  pixel bounds from \<open>(0, 0)\<close> to \<open>(200, 200)\<close> and tiles of 256 pixels the index \<open>(1, 1)\<close>
  is in the specified set (\<open>ceil (200 / 256) = 1\<close>), but the only tile requested is the
  one with index \<open>(0, 0)\<close>, which covers the whole viewport.
\<close>

theorem tile_requests_ceiling_counterexample:
  "grid_index ` set (tile_requests sample_frame sample_tiles)
     \<noteq> index_set ceiling (bounds sample_frame) (tileSize_of sample_tiles)"
proof -
  have 1: "map grid_index (tile_requests sample_frame sample_tiles) = [(0, 0)]"
    by (simp add: sample_frame_def sample_tiles_def tile_requests_def tileSize_of_def
        tileBounds_def Let_def upto_rec1)
  have 2: "(1, 1) \<in> index_set ceiling (bounds sample_frame) (tileSize_of sample_tiles)"
    by (simp add: sample_frame_def sample_tiles_def index_set_def tileSize_of_def)
  have "(1, 1) \<notin> grid_index ` set (tile_requests sample_frame sample_tiles)"
    unfolding image_set 1 by simp
  with 2 show ?thesis by blast
qed

subsection \<open>The event loop of Collect always ends\<close>

lemma map_of_int_put: "map_of (int_put k v kvs) = (map_of kvs)(k \<mapsto> v)"
  by (induction kvs) (auto simp: fun_eq_iff)

lemma map_of_str_put: "map_of (str_put k v kvs) = (map_of kvs)(k \<mapsto> v)"
  by (induction kvs) (auto simp: fun_eq_iff)

lemma store_present:
  assumes "slots_present tasks c" "t \<in> set tasks"
  shows "\<exists>c'. store (slot t) c = Some c' \<and> slots_present tasks c'"
proof (cases "slot t")
  case (TileSlot k key e)
  from assms TileSlot have "map_of (tilesImgs c) k \<noteq> None"
    unfolding slots_present_def by blast
  then obtain lt where lt: "map_of (tilesImgs c) k = Some lt" by auto
  have "slots_present tasks (c\<lparr>tilesImgs := int_put k (str_put key e lt) (tilesImgs c)\<rparr>)"
    using assms(1) unfolding slots_present_def by (simp add: map_of_int_put)
  with TileSlot lt show ?thesis by simp
next
  case (MarkerSlot k e)
  with assms(1) show ?thesis by (simp add: slots_present_def)
qed

lemma on_event_length: "length (snd (on_event tasks (c, ts) e)) = length ts"
  by (cases e) (auto simp: on_event_def split: event_kind.splits option.splits)

lemma on_event_slots:
  assumes "slots_present tasks c"
  shows "slots_present tasks (fst (on_event tasks (c, ts) e))"
proof (cases e)
  case (fields t i k)
  show ?thesis
  proof (cases "i < length tasks \<and> i < length ts")
    case True
    then have "tasks ! i \<in> set tasks" by simp
    from store_present [OF assms this] True fields assms show ?thesis
      by (cases k) (auto simp: on_event_def)
  next
    case False
    with fields assms show ?thesis by (auto simp: on_event_def)
  qed
qed

lemma on_event_inv:
  assumes inv: "loop_inv tasks (e # es) ts" and sl: "slots_present tasks c"
  shows "loop_inv tasks es (snd (on_event tasks (c, ts) e))"
proof (cases e)
  case (fields t i k)
  from inv have len: "length ts = length tasks" by (simp add: loop_inv_def)
  show ?thesis
  proof (cases "i < length tasks")
    case False
    with fields inv len show ?thesis
      by (auto simp: on_event_def loop_inv_def)
  next
    case True
    then have mem: "tasks ! i \<in> set tasks" by simp
    from store_present [OF sl mem] obtain c' where st: "store (slot (tasks ! i)) c = Some c'"
      by blast
    have res: "k \<noteq> Timeout \<or> armed (ts ! i) \<Longrightarrow>
          snd (on_event tasks (c, ts) e) = ts[i := \<lparr>armed = False, resolved = True\<rparr>]"
      using fields True len st by (cases k) (auto simp: on_event_def)
    have same: "k = Timeout \<and> \<not> armed (ts ! i) \<Longrightarrow> snd (on_event tasks (c, ts) e) = ts"
      using fields True len by (auto simp: on_event_def)
    show ?thesis
    proof (cases "k \<noteq> Timeout \<or> armed (ts ! i)")
      case True
      note upd = res [OF True]
      have "\<forall>j < length tasks. \<not> resolved (ts[i := \<lparr>armed = False, resolved = True\<rparr>] ! j) \<longrightarrow>
          armed (ts[i := \<lparr>armed = False, resolved = True\<rparr>] ! j)
            \<and> (\<exists>d. timer (tasks ! j) = Some d \<and> (d, j, Timeout) \<in> set es)"
      proof (intro allI impI)
        fix j assume j: "j < length tasks"
          and un: "\<not> resolved (ts[i := \<lparr>armed = False, resolved = True\<rparr>] ! j)"
        have ne: "j \<noteq> i" using un j len by (auto simp: nth_list_update)
        then have eq: "ts[i := \<lparr>armed = False, resolved = True\<rparr>] ! j = ts ! j" by simp
        with un have "\<not> resolved (ts ! j)" by simp
        with inv j obtain d where a: "armed (ts ! j)" and d: "timer (tasks ! j) = Some d"
          and ev: "(d, j, Timeout) \<in> set (e # es)"
          by (auto simp: loop_inv_def)
        from ev ne fields have "(d, j, Timeout) \<in> set es" by auto
        with a d eq show "armed (ts[i := \<lparr>armed = False, resolved = True\<rparr>] ! j)
            \<and> (\<exists>d. timer (tasks ! j) = Some d \<and> (d, j, Timeout) \<in> set es)"
          by auto
      qed
      with len show ?thesis unfolding loop_inv_def upd by simp
    next
      case False
      then have kt: "k = Timeout" and na: "\<not> armed (ts ! i)" by auto
      note upd = same [OF conjI [OF kt na]]
      have "\<forall>j < length tasks. \<not> resolved (ts ! j) \<longrightarrow>
          armed (ts ! j) \<and> (\<exists>d. timer (tasks ! j) = Some d \<and> (d, j, Timeout) \<in> set es)"
      proof (intro allI impI)
        fix j assume j: "j < length tasks" and un: "\<not> resolved (ts ! j)"
        with inv obtain d where a: "armed (ts ! j)" and d: "timer (tasks ! j) = Some d"
          and ev: "(d, j, Timeout) \<in> set (e # es)"
          by (auto simp: loop_inv_def)
        from a na have "j \<noteq> i" by auto
        with ev fields have "(d, j, Timeout) \<in> set es" by auto
        with a d show "armed (ts ! j) \<and> (\<exists>d. timer (tasks ! j) = Some d \<and> (d, j, Timeout) \<in> set es)"
          by auto
      qed
      with len show ?thesis unfolding loop_inv_def upd by simp
    qed
  qed
qed

lemma run_events_settles:
  assumes "sorted (map fst es)" "loop_inv tasks es ts" "slots_present tasks c"
    "timers_bounded D tasks" "now \<le> D"
  shows "\<exists>T c'. run_events (on_event tasks) es now (c, ts) = Some (T, c') \<and> T \<le> D"
  using assms
proof (induction es arbitrary: now c ts)
  case Nil
  then have "list_all resolved ts"
    by (auto simp: loop_inv_def list_all_length)
  with Nil show ?case by simp
next
  case (Cons e es)
  show ?case
  proof (cases "list_all resolved ts")
    case True
    with Cons.prems show ?thesis by simp
  next
    case False
    then obtain j where j: "j < length ts" "\<not> resolved (ts ! j)"
      by (auto simp: list_all_length)
    with Cons.prems(2) obtain d where d: "timer (tasks ! j) = Some d" "(d, j, Timeout) \<in> set (e # es)"
      and jl: "j < length tasks"
      by (auto simp: loop_inv_def)
    from jl Cons.prems(4) d(1) have dD: "d \<le> D"
      by (auto simp: timers_bounded_def dest!: bspec [where x = "tasks ! j"])
    from Cons.prems(1) d(2) have "fst e \<le> d" by auto
    with dD have now': "fst e \<le> D" by simp
    obtain c' ts' where s': "on_event tasks (c, ts) e = (c', ts')" by (cases "on_event tasks (c, ts) e")
    have i1: "loop_inv tasks es ts'"
      using on_event_inv [OF Cons.prems(2) Cons.prems(3), of ] s' by simp
    have i2: "slots_present tasks c'"
      using on_event_slots [OF Cons.prems(3), of ts e] s' by simp
    from Cons.prems(1) have srt: "sorted (map fst es)" by simp
    from Cons.IH [OF srt i1 i2 Cons.prems(4) now'] False s' show ?thesis by simp
  qed
qed

lemma timeout_in_events:
  assumes "i < length tasks" "timer (tasks ! i) = Some d"
  shows "(d, i, Timeout) \<in> set (events_of tasks)"
proof -
  have "(i, tasks ! i) \<in> set (enumerate 0 tasks)"
    using assms(1) by (simp add: in_set_enumerate_eq)
  moreover have "(d, i, Timeout) \<in> set (task_events (i, tasks ! i))"
    using assms(2) by (simp add: task_events_def)
  ultimately show ?thesis
    unfolding events_of_def by (auto simp del: enumerate_eq_zip)
qed

lemma sorted_events_of: "sorted (map fst (events_of tasks))"
  by (simp add: events_of_def)

lemma await_loads_settles:
  assumes "timers_bounded D tasks" "slots_present tasks c"
  shows "\<exists>T c'. await_loads tasks c = Some (T, c') \<and> T \<le> D"
proof -
  have "\<forall>i < length tasks. \<not> resolved (map init_tstate tasks ! i) \<longrightarrow>
      armed (map init_tstate tasks ! i)
        \<and> (\<exists>d. timer (tasks ! i) = Some d \<and> (d, i, Timeout) \<in> set (events_of tasks))"
  proof (intro allI impI)
    fix i assume i: "i < length tasks" and un: "\<not> resolved (map init_tstate tasks ! i)"
    from i assms(1) obtain d where d: "timer (tasks ! i) = Some d"
      by (auto simp: timers_bounded_def dest!: bspec [where x = "tasks ! i"])
    from un i have "armed (map init_tstate tasks ! i)"
      by (auto simp: init_tstate_def split: option.splits)
    with d timeout_in_events [OF i d]
    show "armed (map init_tstate tasks ! i)
        \<and> (\<exists>d. timer (tasks ! i) = Some d \<and> (d, i, Timeout) \<in> set (events_of tasks))"
      by auto
  qed
  then have "loop_inv tasks (events_of tasks) (map init_tstate tasks)"
    unfolding loop_inv_def by simp
  from run_events_settles [OF sorted_events_of this assms(2) assms(1), of 0]
  show ?thesis by (simp add: await_loads_def)
qed


lemma processTileLayer_ok:
  assumes "collected_ok acc"
  shows "collected_ok (processTileLayer net f l acc)"
proof -
  obtain c tasks where acc: "acc = (c, tasks)" by (cases acc)
  have 1: "timers_bounded 10000 (tasks @ map (loadTile net f l (tileSize_of l)) (tile_requests f l))"
    using assms acc by (auto simp: collected_ok_def timers_bounded_def loadTile_def Let_def)
  have 2: "slots_present (tasks @ map (loadTile net f l (tileSize_of l)) (tile_requests f l))
             (c\<lparr>tilesImgs := int_put (tl_id l) [] (tilesImgs c)\<rparr>)"
    using assms acc
    unfolding collected_ok_def slots_present_def
    by (auto simp: map_of_int_put loadTile_def Let_def)
  have 3: "\<forall>k lt. map_of (int_put (tl_id l) [] (tilesImgs c)) k = Some lt \<longrightarrow> lt = []"
    using assms acc by (auto simp: collected_ok_def map_of_int_put)
  from 1 2 3 acc show ?thesis
    by (simp add: processTileLayer_def collected_ok_def)
qed

lemma processMarker_ok:
  assumes "collected_ok acc"
  shows "collected_ok (processMarker net m f l acc)"
proof -
  obtain c tasks where acc: "acc = (c, tasks)" by (cases acc)
  from assms acc show ?thesis
    by (auto simp: processMarker_def collected_ok_def timers_bounded_def slots_present_def Let_def)
qed

lemma processPath_tilesImgs:
  "processPath m f l c = Inr c' \<Longrightarrow> tilesImgs c' = tilesImgs c"
  by (auto simp: processPath_def split: option.splits jsv.splits if_splits sum.splits)

lemma processLayers_ok:
  assumes "processLayers net m f ls acc = Inr acc'" "collected_ok acc"
  shows "collected_ok acc'"
  using assms
proof (induction net m f ls acc rule: processLayers.induct)
  case (1 net m f acc)
  then show ?case by simp
next
  case (2 net m f l ls acc)
  then show ?case by (simp add: processTileLayer_ok)
next
  case (3 net m f l ls acc)
  then show ?case by (simp add: processMarker_ok)
next
  case (4 net m f l ls acc)
  have "collected_ok (processCircle l (fst acc), snd acc)"
    using 4(3) by (simp add: collected_ok_def processCircle_def slots_present_def)
  with 4 show ?case by simp
next
  case (5 net m f l ls acc)
  from 5(2) obtain c where c: "processPath m f l (fst acc) = Inr c"
    by (auto split: sum.splits)
  have "collected_ok (c, snd acc)"
    using 5(3) processPath_tilesImgs [OF c] by (simp add: collected_ok_def slots_present_def)
  with 5 c show ?case by simp
next
  case (6 net m f ls acc)
  then show ?case by simp
qed

lemma no_caches_ok: "collected_ok (no_caches, [])"
  by (simp add: collected_ok_def no_caches_def timers_bounded_def slots_present_def)

lemma entries_from_mono: "entries_from tasks T c \<Longrightarrow> T \<le> T' \<Longrightarrow> entries_from tasks T' c"
  unfolding entries_from_def by (meson order_trans)

lemma store_entries:
  assumes "entries_from tasks T c" "t \<in> set tasks" "fetch t = Some (Loads T)"
    "store (slot t) c = Some c'"
  shows "entries_from tasks T c'"
proof (cases "slot t")
  case (TileSlot k key e)
  with assms(4) obtain lt where lt: "map_of (tilesImgs c) k = Some lt"
    and c': "c' = c\<lparr>tilesImgs := int_put k (str_put key e lt) (tilesImgs c)\<rparr>"
    by (auto split: option.splits)
  show ?thesis
    unfolding entries_from_def
  proof (intro allI impI)
    fix k' lt' key' e'
    assume a: "map_of (tilesImgs c') k' = Some lt' \<and> map_of lt' key' = Some e'"
    show "\<exists>t \<in> set tasks. slot t = TileSlot k' key' e' \<and> (\<exists>n \<le> T. fetch t = Some (Loads n))"
    proof (cases "k' = k \<and> key' = key")
      case True
      with a c' have "e' = e" by (auto simp: map_of_int_put map_of_str_put)
      with True TileSlot assms(2,3) show ?thesis by auto
    next
      case False
      with a c' lt have "\<exists>lt0. map_of (tilesImgs c) k' = Some lt0 \<and> map_of lt0 key' = Some e'"
        by (auto simp: map_of_int_put map_of_str_put split: if_splits)
      with assms(1) show ?thesis unfolding entries_from_def by blast
    qed
  qed
next
  case (MarkerSlot k e)
  with assms(1,4) show ?thesis by (auto simp: entries_from_def)
qed

lemma on_event_entries:
  assumes "entries_from tasks now c" "now \<le> fst e" "genuine tasks [e]"
  shows "entries_from tasks (fst e) (fst (on_event tasks (c, ts) e))"
proof (cases e)
  case (fields t i k)
  from assms(1,2) have m: "entries_from tasks (fst e) c" by (rule entries_from_mono)
  show ?thesis
  proof (cases "k = Load \<and> i < length tasks \<and> i < length ts")
    case False
    with fields m show ?thesis
      by (cases k) (auto simp: on_event_def)
  next
    case True
    with assms(3) fields have f: "fetch (tasks ! i) = Some (Loads t)"
      by (auto simp: genuine_def)
    from True have mem: "tasks ! i \<in> set tasks" by simp
    show ?thesis
    proof (cases "store (slot (tasks ! i)) c")
      case None
      with True fields m show ?thesis by (simp add: on_event_def)
    next
      case (Some c')
      from store_entries [OF _ mem _ Some, of t] m f fields
      have "entries_from tasks t c'" by simp
      with True fields Some show ?thesis by (simp add: on_event_def)
    qed
  qed
qed

lemma run_events_entries:
  assumes "sorted (map fst es)" "\<forall>e \<in> set es. now \<le> fst e" "genuine tasks es"
    "entries_from tasks now c" "run_events (on_event tasks) es now (c, ts) = Some (T, c')"
  shows "entries_from tasks T c'"
  using assms
proof (induction es arbitrary: now c ts)
  case Nil
  then show ?case by (auto split: if_splits)
next
  case (Cons e es)
  show ?case
  proof (cases "list_all resolved ts")
    case True
    with Cons.prems show ?thesis by simp
  next
    case False
    obtain c1 ts1 where s1: "on_event tasks (c, ts) e = (c1, ts1)" by (cases "on_event tasks (c, ts) e")
    from Cons.prems(2) have le: "now \<le> fst e" by simp
    from Cons.prems(3) have g1: "genuine tasks [e]" and g2: "genuine tasks es"
      by (auto simp: genuine_def)
    from on_event_entries [OF Cons.prems(4) le g1, of ts] s1
    have e1: "entries_from tasks (fst e) c1" by simp
    from Cons.prems(1) have srt: "sorted (map fst es)" and all: "\<forall>x \<in> set es. fst e \<le> fst x"
      by auto
    from Cons.prems(5) False s1 have run: "run_events (on_event tasks) es (fst e) (c1, ts1) = Some (T, c')"
      by simp
    from Cons.IH [OF srt all g2 e1 run] show ?thesis .
  qed
qed

lemma genuine_events_of: "genuine tasks (events_of tasks)"
proof -
  have "i < length tasks \<and> fetch (tasks ! i) = Some (Loads t)"
    if "(t, i, Load) \<in> set (concat (map task_events (enumerate 0 tasks)))" for t i
  proof -
    from that obtain j x where jx: "(j, x) \<in> set (enumerate 0 tasks)"
      and ev: "(t, i, Load) \<in> set (task_events (j, x))"
      by (auto simp del: enumerate_eq_zip)
    from jx have j: "j < length tasks" "x = tasks ! j" by (auto simp: in_set_enumerate_eq)
    have "i = j \<and> fetch x = Some (Loads t)"
    proof (cases "fetch x")
      case None
      with ev show ?thesis by (auto simp: task_events_def split: option.splits)
    next
      case (Some y)
      with ev show ?thesis by (cases y) (auto simp: task_events_def split: option.splits)
    qed
    with j show ?thesis by simp
  qed
  then show ?thesis by (simp add: genuine_def events_of_def)
qed

lemma await_loads_entries:
  assumes "\<forall>k lt. map_of (tilesImgs c) k = Some lt \<longrightarrow> lt = []"
    and "await_loads tasks c = Some (T, c')"
  shows "entries_from tasks T c'"
proof -
  have "entries_from tasks 0 c" using assms(1) unfolding entries_from_def by fastforce
  from run_events_entries [OF sorted_events_of _ genuine_events_of this]
    assms(2) show ?thesis by (simp add: await_loads_def)
qed

subsection \<open>Failing and hanging tiles\<close>

lemma generateImage_settles: "generateImage e s \<noteq> Never"
proof -
  let ?f = "applyScale s (capture (the_map e))"
  show ?thesis
  proof (cases "processLayers (fetch_of e) (the_map e) ?f (eachLayer e) (no_caches, [])")
    case (Inl x)
    then show ?thesis by (simp add: generateImage_def collect_def Let_def)
  next
    case (Inr acc)
    obtain c tasks where acc: "acc = (c, tasks)" by (cases acc)
    from processLayers_ok [OF Inr no_caches_ok] acc
    have "timers_bounded 10000 tasks" "slots_present tasks c"
      by (simp_all add: collected_ok_def)
    from await_loads_settles [OF this] obtain T c' where "await_loads tasks c = Some (T, c')"
      by blast
    with Inr acc show ?thesis by (simp add: generateImage_def collect_def Let_def)
  qed
qed

lemma legacy_on_event_unresolved:
  assumes "i < length ts" "\<not> resolved (ts ! i)" "\<forall>t. e \<noteq> (t, i, Load)"
  shows "i < length (snd (legacy_on_event tasks (c, ts) e))
       \<and> \<not> resolved (snd (legacy_on_event tasks (c, ts) e) ! i)"
proof -
  obtain t j k where e: "e = (t, j, k)" by (cases e)
  show ?thesis
  proof (cases "k = Load \<and> j < length tasks \<and> j < length ts")
    case False
    with assms e show ?thesis by (cases k) (auto simp: legacy_on_event_def)
  next
    case True
    with assms(3) e have "j \<noteq> i" by auto
    with assms True e show ?thesis
      by (auto simp: legacy_on_event_def split: option.splits)
  qed
qed

lemma legacy_run_never:
  assumes "i < length ts" "\<not> resolved (ts ! i)" "\<forall>t. (t, i, Load) \<notin> set es"
  shows "run_events (legacy_on_event tasks) es now (c, ts) = None"
  using assms
proof (induction es arbitrary: now c ts)
  case Nil
  then have "\<not> list_all resolved ts" by (auto simp: list_all_length)
  then show ?case by simp
next
  case (Cons e es)
  then have nr: "\<not> list_all resolved ts" by (auto simp: list_all_length)
  obtain c1 ts1 where s1: "legacy_on_event tasks (c, ts) e = (c1, ts1)"
    by (cases "legacy_on_event tasks (c, ts) e")
  from Cons.prems(3) have ne: "\<forall>t. e \<noteq> (t, i, Load)" and rest: "\<forall>t. (t, i, Load) \<notin> set es"
    by auto
  from legacy_on_event_unresolved [OF Cons.prems(1,2) ne, of tasks c] s1
  have "i < length ts1" "\<not> resolved (ts1 ! i)" by simp_all
  from Cons.IH [OF this rest] nr s1 show ?case by simp
qed

lemma legacy_unanswered_load_never_settles:
  assumes "i < length tasks" "\<forall>n. fetch (tasks ! i) \<noteq> Some (Loads n)"
  shows "legacy_await_loads tasks c = None"
proof -
  have "\<forall>t. (t, i, Load) \<notin> set (events_of tasks)"
    using genuine_events_of [of tasks] assms(2) by (auto simp: genuine_def)
  from legacy_run_never [OF _ _ this, of "map legacy_init_tstate tasks" tasks 0 c] assms(1)
  show ?thesis by (simp add: legacy_await_loads_def legacy_init_tstate_def)
qed

text \<open>
  C1, for the Leaflet 2 variant. Whatever the browser does with the image requests, the
  wait for the dispatched loads ends, at the latest 10000 ms after the dispatch, and
  every entry the tile cache holds at that moment was stored for a load whose image had
  arrived by then: a tile whose request failed, hung or came too late has no entry and
  leaves a gap. On the way, the \<^verbatim>\<open>onerror\<close> handler and the timer's callback resolve
  the load's promise and leave the caches as they are. In the legacy variant, which has
  neither timer nor error handler, the wait never ends as soon as one dispatched load
  gets no image.
\<close>

theorem loads_settle_within_timeout:
  assumes "processLayers nt m f ls (no_caches, []) = Inr (c0, tasks)"
  shows "(\<exists>T c. await_loads tasks c0 = Some (T, c) \<and> T \<le> 10000
            \<and> (\<forall>k lt key e. map_of (tilesImgs c) k = Some lt \<and> map_of lt key = Some e \<longrightarrow>
                  (\<exists>t \<in> set tasks. slot t = TileSlot k key e
                      \<and> (\<exists>n \<le> T. fetch t = Some (Loads n)))))
       \<and> (\<forall>i ts c t. i < length tasks \<and> i < length ts \<longrightarrow>
              on_event tasks (c, ts) (t, i, Error) = (c, ts[i := \<lparr>armed = False, resolved = True\<rparr>])
            \<and> (armed (ts ! i) \<longrightarrow>
                 on_event tasks (c, ts) (t, i, Timeout)
                   = (c, ts[i := \<lparr>armed = False, resolved = True\<rparr>])))
       \<and> (\<forall>ltasks lc i. i < length ltasks \<and> (\<forall>n. fetch (ltasks ! i) \<noteq> Some (Loads n)) \<longrightarrow>
              legacy_await_loads ltasks lc = None)"
proof -
  from processLayers_ok [OF assms no_caches_ok]
  have ok: "timers_bounded 10000 tasks" "slots_present tasks c0"
    and em: "\<forall>k lt. map_of (tilesImgs c0) k = Some lt \<longrightarrow> lt = []"
    by (simp_all add: collected_ok_def)
  from await_loads_settles [OF ok] obtain T c
    where run: "await_loads tasks c0 = Some (T, c)" and T: "T \<le> 10000"
    by blast
  from await_loads_entries [OF em run] have "entries_from tasks T c" .
  with run T have 1: "\<exists>T c. await_loads tasks c0 = Some (T, c) \<and> T \<le> 10000
            \<and> (\<forall>k lt key e. map_of (tilesImgs c) k = Some lt \<and> map_of lt key = Some e \<longrightarrow>
                  (\<exists>t \<in> set tasks. slot t = TileSlot k key e
                      \<and> (\<exists>n \<le> T. fetch t = Some (Loads n))))"
    unfolding entries_from_def by blast
  have 2: "\<forall>i ts c t. i < length tasks \<and> i < length ts \<longrightarrow>
              on_event tasks (c, ts) (t, i, Error) = (c, ts[i := \<lparr>armed = False, resolved = True\<rparr>])
            \<and> (armed (ts ! i) \<longrightarrow>
                 on_event tasks (c, ts) (t, i, Timeout)
                   = (c, ts[i := \<lparr>armed = False, resolved = True\<rparr>]))"
    by (simp add: on_event_def)
  have 3: "\<forall>ltasks lc i. i < length ltasks \<and> (\<forall>n. fetch (ltasks ! i) \<noteq> Some (Loads n)) \<longrightarrow>
              legacy_await_loads ltasks lc = None"
    using legacy_unanswered_load_never_settles by blast
  from 1 2 3 show ?thesis by blast
qed

theorem loads_settle_within_timeout_witness:
  "await_loads (snd (processTileLayer (\<lambda>u. Hangs) sample_frame sample_tiles (no_caches, [])))
       (fst (processTileLayer (\<lambda>u. Hangs) sample_frame sample_tiles (no_caches, []))) \<noteq> None
   \<and> collect (\<lambda>u. Hangs) sample_map sample_frame [TileLayer sample_tiles]
       = Inr (Some (10000, no_caches\<lparr>tilesImgs := [(5, [])]\<rparr>))
   \<and> handleDownload hanging_env idle_control = idle_control\<lparr>downloads := [''mapExport.png'']\<rparr>
   \<and> handleDownload failing_env idle_control = idle_control\<lparr>downloads := [''mapExport.png'']\<rparr>"
proof -
  have "processLayers (\<lambda>u. Hangs) sample_map sample_frame [TileLayer sample_tiles] (no_caches, [])
      = Inr (fst (processTileLayer (\<lambda>u. Hangs) sample_frame sample_tiles (no_caches, [])),
             snd (processTileLayer (\<lambda>u. Hangs) sample_frame sample_tiles (no_caches, [])))"
    by simp
  from loads_settle_within_timeout [OF this]
  have 1: "await_loads (snd (processTileLayer (\<lambda>u. Hangs) sample_frame sample_tiles (no_caches, [])))
       (fst (processTileLayer (\<lambda>u. Hangs) sample_frame sample_tiles (no_caches, []))) \<noteq> None"
    by auto
  have 2: "collect (\<lambda>u. Hangs) sample_map sample_frame [TileLayer sample_tiles]
       = Inr (Some (10000, no_caches\<lparr>tilesImgs := [(5, [])]\<rparr>))"
    by code_simp
  have 3: "handleDownload hanging_env idle_control = idle_control\<lparr>downloads := [''mapExport.png'']\<rparr>"
    by code_simp
  have 4: "handleDownload failing_env idle_control = idle_control\<lparr>downloads := [''mapExport.png'']\<rparr>"
    by code_simp
  from 1 2 3 4 show ?thesis by blast
qed

text \<open>
  C1 fails in the legacy variant, which installs an \<^verbatim>\<open>onload\<close> handler only and sets no
  timer: a tile whose request fails after 100 ms is never settled, and the export of a
  map whose tiles fail (or hang) never completes: nothing is downloaded and the panel
  stays disabled.
\<close>

theorem legacy_failed_tile_never_settles:
  "legacy_await_loads
       [legacy_loadTile (\<lambda>u. Fails 100) sample_frame sample_tiles
          (tile_request_at sample_frame sample_tiles 256 0 0)]
       ((legacy_no_caches None)\<lparr>l_tilesImgs := [(5, [])]\<rparr>) = None
   \<and> legacy_download failing_env legacy_idle
       = Some (legacy_idle\<lparr>lc_print_disabled := True, lc_loader_shown := True,
                            lc_tileSize := Some 256\<rparr>)
   \<and> legacy_download hanging_env legacy_idle
       = Some (legacy_idle\<lparr>lc_print_disabled := True, lc_loader_shown := True,
                            lc_tileSize := Some 256\<rparr>)"
proof -
  have 1: "legacy_await_loads
       [legacy_loadTile (\<lambda>u. Fails 100) sample_frame sample_tiles
          (tile_request_at sample_frame sample_tiles 256 0 0)]
       ((legacy_no_caches None)\<lparr>l_tilesImgs := [(5, [])]\<rparr>) = None"
    by code_simp
  have 2: "legacy_download failing_env legacy_idle
       = Some (legacy_idle\<lparr>lc_print_disabled := True, lc_loader_shown := True,
                            lc_tileSize := Some 256\<rparr>)"
    by code_simp
  have 3: "legacy_download hanging_env legacy_idle
       = Some (legacy_idle\<lparr>lc_print_disabled := True, lc_loader_shown := True,
                            lc_tileSize := Some 256\<rparr>)"
    by code_simp
  from 1 2 3 show ?thesis by blast
qed

subsection \<open>Vector paths\<close>

lemma project_each_coords:
  "coords vs = Some ps \<Longrightarrow> project_each m f vs = Inr (projected m f ps)"
proof (induction vs arbitrary: ps)
  case Nil
  then show ?case by (simp add: projected_def)
next
  case (Cons v vs)
  then show ?case
    by (cases v) (auto simp: projected_def subtract_def)
qed

lemma processPath_vertices:
  assumes "\<not> mRadius l" and "vertices l = Some vs"
  shows "processPath m f l c =
           Inr (if list_ex (isPointVisible f) (projected m f vs)
                then c\<lparr>paths := int_put (p_id l)
                        \<lparr>parts = projected m f vs, closed = fill (p_options l),
                         options = p_options l\<rparr> (paths c)\<rparr>
                else c)"
  using assms
  by (auto simp: processPath_def vertices_def project_each_coords
      split: option.splits jsv.splits if_splits)

text \<open>
  The Leaflet 2 variant does what C5 says for every path that is not a circle and whose
  \<^verbatim>\<open>_latlngs\<close> hold a vertex list: with no projected vertex on the canvas the cache is
  left as it is, with at least one the path is registered with all projected vertices
  in their order.
\<close>

lemma processPath_registers_visible:
  assumes "\<not> mRadius l" and "vertices l = Some vs"
  shows "((\<forall>p \<in> set (projected m f vs). \<not> isPointVisible f p) \<longrightarrow> processPath m f l c = Inr c)
       \<and> ((\<exists>p \<in> set (projected m f vs). isPointVisible f p) \<longrightarrow>
            (\<exists>c'. processPath m f l c = Inr c'
                 \<and> map_of (paths c') (p_id l) =
                     Some \<lparr>parts = projected m f vs, closed = fill (p_options l),
                           options = p_options l\<rparr>))"
  by (auto simp: processPath_vertices [OF assms] list_ex_iff map_of_int_put)


text \<open>
  C5 in the legacy variant: a polyline whose two vertices project to \<open>(-5, -5)\<close> and
  \<open>(-20, -10)\<close>, both outside the canvas of 200 by 200 pixels, is registered in the path
  cache all the same, because \<^verbatim>\<open>_getPathLayer\<close> tests a point against the right and the
  bottom edge only. The Leaflet 2 variant leaves the cache empty on the same input.
  In both variants a filled polyline, whose \<^verbatim>\<open>_latlngs[0]\<close> is a coordinate and not an
  array, is not registered either, although its vertices are on the canvas: reading
  its vertex list raises a type error.
\<close>

theorem legacy_path_outside_registered:
  "vertices outside_path = Some [(-5, -5), (-10, -20)]
   \<and> projected sample_map sample_frame [(-5, -5), (-10, -20)] = [\<lparr>px = -5, py = -5\<rparr>, \<lparr>px = -20, py = -10\<rparr>]
   \<and> \<not> isPointVisible sample_frame \<lparr>px = -5, py = -5\<rparr>
   \<and> \<not> isPointVisible sample_frame \<lparr>px = -20, py = -10\<rparr>
   \<and> legacy_getPathLayer sample_map sample_frame outside_path (legacy_no_caches None) =
       Inr ((legacy_no_caches None)\<lparr>l_path := [(7, \<lparr>parts = [\<lparr>px = -5, py = -5\<rparr>, \<lparr>px = -20, py = -10\<rparr>],
                 closed = False, options = plain_options\<rparr>)]\<rparr>)
   \<and> processPath sample_map sample_frame outside_path no_caches = Inr no_caches
   \<and> processPath sample_map sample_frame filled_polyline no_caches = Inl TypeError
   \<and> legacy_getPathLayer sample_map sample_frame filled_polyline (legacy_no_caches None)
       = Inl TypeError"
  by (simp add: vertices_def outside_path_def projected_def sample_map_def sample_frame_def
      subtract_def isPointVisible_def legacy_getPathLayer_def processPath_def legacy_no_caches_def
      plain_options_def no_caches_def filled_polyline_def)

subsection \<open>Validation of the scale\<close>

lemma validateScale_iff:
  "validateScale os (Number r) \<longleftrightarrow> (\<exists>v. r = Some v \<and> v \<noteq> 0 \<and> minScale os \<le> v \<and> v \<le> maxScale os)"
  by (cases r) (auto simp: validateScale_def Number_def)

text \<open>
  C4, as the code has it. A click on an idle control whose scale field is empty (also:
  holds text that is not a number), holds \<open>0\<close>, or holds a number outside
  \<open>[minScale, maxScale]\<close> resets the field to \<open>minScale\<close> and does nothing else, whatever
  the map and the browser; a click with any other value starts the export with that
  value. While an export is in flight the Leaflet 2 variant ignores the click and leaves
  the field alone. The legacy variant does the same without the special case for \<open>0\<close>
  and without a busy state.
\<close>

theorem invalid_scale_resets_and_aborts:
  "(\<not> isProcessing c \<and> \<not> validateScale (opts c) (Number (scaleInput c)) \<longrightarrow>
       handleDownload_click c = (c\<lparr>scaleInput := Some (minScale (opts c))\<rparr>, None)
     \<and> handleDownload e c = c\<lparr>scaleInput := Some (minScale (opts c))\<rparr>)
   \<and> (\<not> isProcessing c \<and> scaleInput c = Some v \<and> v \<noteq> 0
        \<and> minScale (opts c) \<le> v \<and> v \<le> maxScale (opts c) \<longrightarrow>
       handleDownload_click c = (showProgress True (c\<lparr>isProcessing := True\<rparr>), Some v))
   \<and> (validateScale os (Number r) \<longleftrightarrow>
        (\<exists>v. r = Some v \<and> v \<noteq> 0 \<and> minScale os \<le> v \<and> v \<le> maxScale os))
   \<and> (isProcessing c \<longrightarrow> handleDownload_click c = (c, None) \<and> handleDownload e c = c)
   \<and> (lc_scaleInput lc = None
        \<or> (\<exists>w. lc_scaleInput lc = Some w \<and> (w < lc_minScale lc \<or> lc_maxScale lc < w)) \<longrightarrow>
       legacy_click lc = (lc\<lparr>lc_scaleInput := Some (lc_minScale lc)\<rparr>, False)
     \<and> legacy_download e lc = Some (lc\<lparr>lc_scaleInput := Some (lc_minScale lc)\<rparr>))
   \<and> (lc_scaleInput lc = Some w \<and> lc_minScale lc \<le> w \<and> w \<le> lc_maxScale lc \<longrightarrow>
       legacy_click lc = (lc\<lparr>lc_print_disabled := True, lc_loader_shown := True\<rparr>, True))"
proof -
  have 1: "\<not> isProcessing c \<and> \<not> validateScale (opts c) (Number (scaleInput c)) \<longrightarrow>
       handleDownload_click c = (c\<lparr>scaleInput := Some (minScale (opts c))\<rparr>, None)
     \<and> handleDownload e c = c\<lparr>scaleInput := Some (minScale (opts c))\<rparr>"
    by (simp add: handleDownload_click_def handleDownload_def Let_def)
  have 2: "\<not> isProcessing c \<and> scaleInput c = Some v \<and> v \<noteq> 0
        \<and> minScale (opts c) \<le> v \<and> v \<le> maxScale (opts c) \<longrightarrow>
       handleDownload_click c = (showProgress True (c\<lparr>isProcessing := True\<rparr>), Some v)"
    by (simp add: handleDownload_click_def Let_def validateScale_def Number_def)
  have 3: "isProcessing c \<longrightarrow> handleDownload_click c = (c, None) \<and> handleDownload e c = c"
    by (simp add: handleDownload_click_def handleDownload_def)
  have 4: "lc_scaleInput lc = None
        \<or> (\<exists>w. lc_scaleInput lc = Some w \<and> (w < lc_minScale lc \<or> lc_maxScale lc < w)) \<longrightarrow>
       legacy_click lc = (lc\<lparr>lc_scaleInput := Some (lc_minScale lc)\<rparr>, False)
     \<and> legacy_download e lc = Some (lc\<lparr>lc_scaleInput := Some (lc_minScale lc)\<rparr>)"
    by (auto simp: legacy_click_def legacy_download_def)
  have 5: "lc_scaleInput lc = Some w \<and> lc_minScale lc \<le> w \<and> w \<le> lc_maxScale lc \<longrightarrow>
       legacy_click lc = (lc\<lparr>lc_print_disabled := True, lc_loader_shown := True\<rparr>, True)"
    by (auto simp: legacy_click_def)
  from 1 2 3 4 5 validateScale_iff [of os r] show ?thesis by blast
qed

theorem invalid_scale_resets_and_aborts_witness:
  "handleDownload failing_env (idle_control\<lparr>scaleInput := Some 11\<rparr>) = idle_control
   \<and> handleDownload failing_env (idle_control\<lparr>scaleInput := None\<rparr>) = idle_control
   \<and> handleDownload_click (idle_control\<lparr>scaleInput := Some 2\<rparr>)
       = (idle_control\<lparr>scaleInput := Some 2, isProcessing := True, print_disabled := True,
                        loader_show := True\<rparr>, Some 2)
   \<and> legacy_download failing_env (legacy_idle\<lparr>lc_scaleInput := Some 11\<rparr>) = Some legacy_idle
   \<and> legacy_click (legacy_idle\<lparr>lc_scaleInput := Some 2\<rparr>)
       = (legacy_idle\<lparr>lc_scaleInput := Some 2, lc_print_disabled := True, lc_loader_shown := True\<rparr>, True)"
  using invalid_scale_resets_and_aborts [of "idle_control\<lparr>scaleInput := Some 11\<rparr>" failing_env 2
      "opts idle_control" "Some 2" "legacy_idle\<lparr>lc_scaleInput := Some 11\<rparr>" 2]
    invalid_scale_resets_and_aborts [of "idle_control\<lparr>scaleInput := None\<rparr>" failing_env 2
      "opts idle_control" "Some 2" "legacy_idle\<lparr>lc_scaleInput := Some 2\<rparr>" 2]
    invalid_scale_resets_and_aborts [of "idle_control\<lparr>scaleInput := Some 2\<rparr>" failing_env 2
      "opts idle_control" "Some 2" "legacy_idle\<lparr>lc_scaleInput := Some 2\<rparr>" 2]
  by (simp add: idle_control_def legacy_idle_def validateScale_def Number_def showProgress_def)

text \<open>
  C4 as stated fails in the Leaflet 2 variant: with \<open>minScale = 0\<close> the value \<open>0\<close> lies
  inside the range, and the click is rejected all the same (\<^verbatim>\<open>_validateScale\<close> tests the
  scale for truthiness first); and on a busy control an empty field is not reset.
\<close>

theorem zero_scale_in_range_rejected:
  "minScale (opts zero_control) \<le> 0 \<and> 0 \<le> maxScale (opts zero_control)
   \<and> scaleInput zero_control = Some 0 \<and> \<not> isProcessing zero_control
   \<and> handleDownload_click zero_control = (zero_control, None)
   \<and> handleDownload failing_env zero_control = zero_control
   \<and> handleDownload failing_env (idle_control\<lparr>scaleInput := None, isProcessing := True\<rparr>)
       = idle_control\<lparr>scaleInput := None, isProcessing := True\<rparr>"
  by (simp add: zero_control_def idle_control_def handleDownload_click_def handleDownload_def
      validateScale_def Number_def Let_def)

subsection \<open>Exceptions during an export\<close>

lemma legacy_never_alerts:
  "legacy_download e c = Some c' \<Longrightarrow> lc_alerts c' = lc_alerts c"
  by (auto simp: legacy_download_def legacy_click_def legacy_print_def legacy_finish_def Let_def
      split: option.splits prod.splits sum.splits if_splits)

text \<open>
  C7, for the Leaflet 2 variant. Once a click has started an export, the control ends up
  idle, with the progress markers cleared, whatever the export does; when the promise
  of the export is rejected (an exception left the Collect or Render phase), exactly one
  alert is added and nothing is downloaded; when it is not, at most the alert of a
  failed encoding is added. The legacy variant never adds an alert.
\<close>

theorem export_failure_alerts_once_and_restores:
  assumes "handleDownload_click c = (c', Some s)"
  shows "\<not> isProcessing (handleDownload e c) \<and> \<not> print_disabled (handleDownload e c)
       \<and> \<not> loader_show (handleDownload e c)
       \<and> (\<forall>x. generateImage e s = Rejected x \<longrightarrow>
             alerts (handleDownload e c) = alerts c @ [''Error generating image. Please try again.'']
           \<and> downloads (handleDownload e c) = downloads c)
       \<and> ((\<forall>x. generateImage e s \<noteq> Rejected x) \<longrightarrow>
             alerts (handleDownload e c) = alerts c
           \<or> alerts (handleDownload e c) = alerts c @ [''Failed to generate image''])
       \<and> (\<forall>lc lc'. legacy_download e lc = Some lc' \<longrightarrow> lc_alerts lc' = lc_alerts lc)"
proof -
  from assms have c': "c' = showProgress True (c\<lparr>isProcessing := True\<rparr>)"
    by (auto simp: handleDownload_click_def Let_def split: if_splits)
  have "\<not> isProcessing (handleDownload e c) \<and> \<not> print_disabled (handleDownload e c)
       \<and> \<not> loader_show (handleDownload e c)
       \<and> (\<forall>x. generateImage e s = Rejected x \<longrightarrow>
             alerts (handleDownload e c) = alerts c @ [''Error generating image. Please try again.'']
           \<and> downloads (handleDownload e c) = downloads c)
       \<and> ((\<forall>x. generateImage e s \<noteq> Rejected x) \<longrightarrow>
             alerts (handleDownload e c) = alerts c
           \<or> alerts (handleDownload e c) = alerts c @ [''Failed to generate image''])"
  proof (cases "generateImage e s")
    case Never
    with generateImage_settles show ?thesis by blast
  next
    case (Rejected x)
    with assms c' show ?thesis
      by (simp add: handleDownload_def handleDownload_settle_def showProgress_def Let_def)
  next
    case (Fulfilled t v)
    obtain f cx where v: "v = (f, cx)" by (cases v)
    with Fulfilled assms c' show ?thesis
      by (simp add: handleDownload_def handleDownload_settle_def showProgress_def
          downloadCanvas_def Let_def)
  qed
  moreover have "\<forall>lc lc'. legacy_download e lc = Some lc' \<longrightarrow> lc_alerts lc' = lc_alerts lc"
    using legacy_never_alerts by blast
  ultimately show ?thesis by blast
qed

theorem export_failure_alerts_once_and_restores_witness:
  "handleDownload polyline_env idle_control
     = idle_control\<lparr>alerts := [''Error generating image. Please try again.'']\<rparr>
   \<and> generateImage polyline_env 1 = Rejected TypeError
   \<and> \<not> isProcessing (handleDownload polyline_env idle_control)"
proof -
  have 1: "handleDownload_click idle_control
            = (idle_control\<lparr>isProcessing := True, print_disabled := True, loader_show := True\<rparr>, Some 1)"
    by (simp add: handleDownload_click_def idle_control_def validateScale_def Number_def
        showProgress_def Let_def)
  have 2: "generateImage polyline_env 1 = Rejected TypeError"
    by code_simp
  have 3: "handleDownload polyline_env idle_control
     = idle_control\<lparr>alerts := [''Error generating image. Please try again.'']\<rparr>"
    by code_simp
  from export_failure_alerts_once_and_restores [OF 1, of polyline_env] 2 3
  show ?thesis by simp
qed

text \<open>
  C7 fails in the legacy variant. A filled polyline raises a type error in Collect, which
  \<^verbatim>\<open>_getLayers\<close> logs: the export goes on and no alert is shown. A circle with a vertical
  radius of its own raises a type error in the draw pass, which nothing catches: no
  alert, no download, and the panel stays disabled.
\<close>

theorem legacy_exception_without_alert:
  "legacy_download polyline_env legacy_idle
     = Some (legacy_idle\<lparr>lc_downloads := [''bigImage.png''], lc_logged := [TypeError]\<rparr>)
   \<and> legacy_download circle_env legacy_idle
     = Some (legacy_idle\<lparr>lc_print_disabled := True, lc_loader_shown := True\<rparr>)
   \<and> legacy_drawCircle sample_map sample_frame oval_circle getContext = Inl TypeError"
proof -
  have 1: "legacy_download polyline_env legacy_idle
     = Some (legacy_idle\<lparr>lc_downloads := [''bigImage.png''], lc_logged := [TypeError]\<rparr>)"
    by code_simp
  have 2: "legacy_download circle_env legacy_idle
     = Some (legacy_idle\<lparr>lc_print_disabled := True, lc_loader_shown := True\<rparr>)"
    by code_simp
  have 3: "legacy_drawCircle sample_map sample_frame oval_circle getContext = Inl TypeError"
    by code_simp
  from 1 2 3 show ?thesis by blast
qed

subsection \<open>One export at a time\<close>

lemma ui_step_inv:
  assumes "n \<le> 1 \<and> (isProcessing c \<longleftrightarrow> n = 1)"
  shows "snd (ui_step (c, n) ev) \<le> 1
       \<and> (isProcessing (fst (ui_step (c, n) ev)) \<longleftrightarrow> snd (ui_step (c, n) ev) = 1)"
proof (cases ev)
  case (Edit v)
  with assms show ?thesis by simp
next
  case Click
  with assms show ?thesis
    by (auto simp: handleDownload_click_def showProgress_def Let_def)
next
  case (Settle b)
  with assms show ?thesis
    by (auto simp: handleDownload_settle_def showProgress_def Let_def)
qed

lemma ui_run_inv:
  assumes "snd s \<le> 1 \<and> (isProcessing (fst s) \<longleftrightarrow> snd s = 1)"
  shows "snd (foldl ui_step s evs) \<le> 1
       \<and> (isProcessing (fst (foldl ui_step s evs)) \<longleftrightarrow> snd (foldl ui_step s evs) = 1)"
  using assms
proof (induction evs arbitrary: s)
  case Nil
  then show ?case by simp
next
  case (Cons ev evs)
  obtain c n where s: "s = (c, n)" by (cases s)
  from Cons.prems s ui_step_inv [of n c ev]
  have "snd (ui_step s ev) \<le> 1 \<and> (isProcessing (fst (ui_step s ev)) \<longleftrightarrow> snd (ui_step s ev) = 1)"
    by simp
  from Cons.IH [OF this] show ?case by simp
qed

lemma legacy_click_ignores_flight:
  "lc_scaleInput c = Some v \<and> lc_minScale c \<le> v \<and> v \<le> lc_maxScale c \<longrightarrow>
     snd (legacy_ui_step (c, n) Click) = n + 1"
  by (auto simp: legacy_click_def)

text \<open>
  C8, for the Leaflet 2 variant. From an idle control, whatever the sequence of edits,
  clicks and settlements, at most one export is in flight, and the busy flag is set
  exactly while one is; a click on a busy control changes nothing and starts nothing;
  when the export in flight settles, the flag is cleared, so that the next click can
  start an export. In the legacy variant a click with a scale inside the range starts
  an export, however many are in flight.
\<close>

theorem busy_flag_rejects_second_export:
  "(\<not> isProcessing c \<longrightarrow>
       snd (foldl ui_step (c, 0) evs) \<le> 1
     \<and> (isProcessing (fst (foldl ui_step (c, 0) evs)) \<longleftrightarrow> snd (foldl ui_step (c, 0) evs) = 1))
   \<and> (isProcessing c \<longrightarrow> ui_step (c, n) Click = (c, n))
   \<and> \<not> isProcessing (fst (ui_step (c, Suc 0) (Settle b)))
   \<and> snd (ui_step (c, Suc 0) (Settle b)) = 0
   \<and> (lc_scaleInput lc = Some v \<and> lc_minScale lc \<le> v \<and> v \<le> lc_maxScale lc \<longrightarrow>
        snd (legacy_ui_step (lc, k) Click) = k + 1)"
proof -
  have 1: "\<not> isProcessing c \<longrightarrow>
       snd (foldl ui_step (c, 0) evs) \<le> 1
     \<and> (isProcessing (fst (foldl ui_step (c, 0) evs)) \<longleftrightarrow> snd (foldl ui_step (c, 0) evs) = 1)"
    using ui_run_inv [of "(c, 0)" evs] by simp
  have 2: "isProcessing c \<longrightarrow> ui_step (c, n) Click = (c, n)"
    by (simp add: handleDownload_click_def)
  have 3: "\<not> isProcessing (fst (ui_step (c, Suc 0) (Settle b)))
         \<and> snd (ui_step (c, Suc 0) (Settle b)) = 0"
    by (simp add: handleDownload_settle_def showProgress_def Let_def)
  from 1 2 3 legacy_click_ignores_flight [of lc v k] show ?thesis by blast
qed

theorem busy_flag_rejects_second_export_witness:
  "foldl ui_step (idle_control, 0) [Click, Click]
     = (idle_control\<lparr>isProcessing := True, print_disabled := True, loader_show := True\<rparr>, 1)
   \<and> foldl ui_step (idle_control, 0) [Click, Click, Settle False, Click]
     = (idle_control\<lparr>isProcessing := True, print_disabled := True, loader_show := True\<rparr>, 1)
   \<and> snd (foldl ui_step (idle_control, 0) [Click, Click, Click, Settle True, Click, Click]) \<le> 1"
proof -
  have i: "\<not> isProcessing idle_control" by (simp add: idle_control_def)
  have 1: "foldl ui_step (idle_control, 0) [Click, Click]
     = (idle_control\<lparr>isProcessing := True, print_disabled := True, loader_show := True\<rparr>, 1)"
    by (simp add: idle_control_def handleDownload_click_def validateScale_def Number_def
        showProgress_def Let_def)
  have 2: "foldl ui_step (idle_control, 0) [Click, Click, Settle False, Click]
     = (idle_control\<lparr>isProcessing := True, print_disabled := True, loader_show := True\<rparr>, 1)"
    by (simp add: idle_control_def handleDownload_click_def handleDownload_settle_def
        validateScale_def Number_def showProgress_def Let_def)
  from busy_flag_rejects_second_export [of idle_control
      "[Click, Click, Click, Settle True, Click, Click]" 0 False] i 1 2
  show ?thesis by simp
qed

text \<open>
  C8 fails in the legacy variant, whose click listener has no busy flag: two clicks in a
  row start two exports.
\<close>

theorem legacy_second_click_starts_second_export:
  "foldl legacy_ui_step (legacy_idle, 0) [Click, Click]
     = (legacy_idle\<lparr>lc_print_disabled := True, lc_loader_shown := True\<rparr>, 2)"
  by (simp add: legacy_idle_def legacy_click_def)

subsection \<open>The order of the draw pass\<close>

lemma calls_call [simp]: "calls (call d c) = calls c @ [(d, gs c)]"
  by (simp add: call_def)

lemma gs_call [simp]: "gs (call d c) = gs c"
  by (simp add: call_def)

lemma calls_setters [simp]:
  "calls (set_globalAlpha a c) = calls c"
  "calls (set_fillStyle v c) = calls c"
  "calls (set_strokeStyle v c) = calls c"
  "calls (set_lineWidth w c) = calls c"
  "calls (set_lineCap v c) = calls c"
  "calls (set_lineJoin v c) = calls c"
  "calls (setLineDash ds c) = calls c"
  "calls (set_font v c) = calls c"
  "calls (save c) = calls c"
  "calls (restore c) = calls c"
  "calls (scale1 sy c) = calls c"
  by (simp_all add: set_globalAlpha_def set_fillStyle_def set_strokeStyle_def set_lineWidth_def
      set_lineCap_def set_lineJoin_def setLineDash_def set_font_def save_def restore_def
      scale1_def split: list.splits)

lemma ops_applyPathStyle:
  "map fst (calls (applyPathStyle po c)) = map fst (calls c) @ spec_style po"
  by (simp add: applyPathStyle_def spec_style_def Let_def)

lemma ops_trace:
  "map fst (calls (trace ps b c)) =
     map fst (calls c) @ (if b then spec_lines ps else map (\<lambda>q. LineTo (px q) (py q)) ps)"
  by (induction ps b c rule: trace.induct) auto

lemma ops_drawPath: "map fst (calls (drawPath pe c)) = map fst (calls c) @ spec_path pe"
  by (simp add: drawPath_def spec_path_def Let_def ops_applyPathStyle ops_trace)

lemma ops_drawText:
  "map fst (calls (drawText mk c)) =
     map fst (calls c) @ [StrokeText (case m_html mk of None \<Rightarrow> [] | Some t \<Rightarrow> t) (m_x mk) (m_y mk),
                          FillText (case m_html mk of None \<Rightarrow> [] | Some t \<Rightarrow> t) (m_x mk) (m_y mk)]"
  by (simp add: drawText_def Let_def)

lemma ops_drawMarker: "map fst (calls (drawMarker mk c)) = map fst (calls c) @ spec_marker mk"
  by (simp add: drawMarker_def spec_marker_def ops_drawText split: option.splits)

lemma ops_drawCircle:
  "map fst (calls (drawCircle m f l c)) = map fst (calls c) @ spec_circle m f l"
  by (simp add: drawCircle_def spec_circle_def Let_def ops_applyPathStyle subtract_def)

lemma ops_drawTile: "map fst (calls (drawTile t c)) = map fst (calls c) @ [spec_tile t]"
  by (simp add: drawTile_def spec_tile_def)

lemma ops_fold:
  assumes "\<And>x c. map fst (calls (g x c)) = map fst (calls c) @ sp x"
  shows "map fst (calls (fold g xs c)) = map fst (calls c) @ concat (map sp xs)"
  by (induction xs arbitrary: c) (simp_all add: assms)

lemma ops_renderTiles:
  "map fst (calls (renderTiles cs c)) =
     map fst (calls c) @ map spec_tile (concat (map values_of (values_of (tilesImgs cs))))"
proof -
  have "concat (map (\<lambda>t. [spec_tile t]) xs) = map spec_tile xs" for xs
    by (induction xs) simp_all
  with ops_fold [of drawTile "\<lambda>t. [spec_tile t]", OF ops_drawTile] show ?thesis
    by (simp add: renderTiles_def)
qed

lemma ops_renderToCanvas:
  "map fst (calls (renderToCanvas m f cs c)) = map fst (calls c) @ spec_render m f cs"
  by (simp add: renderToCanvas_def spec_render_def Let_def renderPaths_def renderMarkers_def
      renderCircles_def ops_renderTiles ops_fold [OF ops_drawPath] ops_fold [OF ops_drawMarker]
      ops_fold [OF ops_drawCircle])

lemma collect_no_layers: "collect nt m f [] = Inr (Some (0, no_caches))"
  by (simp add: collect_def await_loads_def events_of_def)

lemma render_no_caches:
  "renderToCanvas m f no_caches getContext =
     getContext\<lparr>gs := (gs getContext)\<lparr>fillStyle := ''white''\<rparr>,
                calls := [(FillRect 0 0 (width (canvas f)) (height (canvas f)),
                           (gs getContext)\<lparr>fillStyle := ''white''\<rparr>)]\<rparr>"
  by (simp add: renderToCanvas_def renderTiles_def renderPaths_def renderMarkers_def
      renderCircles_def no_caches_def values_of_def Let_def getContext_def call_def
      set_fillStyle_def set_globalAlpha_def)

lemma legacy_render_nothing: "legacy_render m f (legacy_no_caches t0) c = Inr c"
  by (simp add: legacy_render_def legacy_tile_pass_def legacy_no_caches_def values_of_def Let_def)

text \<open>
  C6, for the Leaflet 2 variant. The calls of the draw pass are, in this order: the fill
  of the whole canvas, the cached tiles, the cached paths, the cached markers, the
  cached circles. For a map without layers the pass is the white fill of a canvas of
  the viewport size times the scale, made at full opacity, and, when the canvas can be
  encoded, the click ends in one download and no alert. The draw pass of the legacy
  variant makes no call for a map without layers.
\<close>

theorem render_fixed_order:
  "map fst (calls (renderToCanvas m f cs getContext)) = spec_render m f cs
   \<and> (eachLayer e = [] \<longrightarrow>
        generateImage e s =
          Fulfilled 0 (applyScale s (capture (the_map e)),
            getContext\<lparr>gs := (gs getContext)\<lparr>fillStyle := ''white''\<rparr>,
              calls := [(FillRect 0 0 (width (canvas (applyScale s (capture (the_map e)))))
                                     (height (canvas (applyScale s (capture (the_map e))))),
                         (gs getContext)\<lparr>fillStyle := ''white''\<rparr>)]\<rparr>))
   \<and> (eachLayer e = [] \<and> handleDownload_click c = (c', Some s)
        \<and> toBlob e (canvas (applyScale s (capture (the_map e))))
             (''image/'' @ (case formatSelect c of None \<Rightarrow> exportFormat (opts c) | Some v \<Rightarrow> v)) \<longrightarrow>
        downloads (handleDownload e c) =
          downloads c @ [fileName (opts c) @ ''.'' @
                  (case formatSelect c of None \<Rightarrow> exportFormat (opts c) | Some v \<Rightarrow> v)]
        \<and> alerts (handleDownload e c) = alerts c)
   \<and> legacy_render m f (legacy_no_caches t0) cx = Inr cx"
proof -
  have 1: "map fst (calls (renderToCanvas m f cs getContext)) = spec_render m f cs"
    by (simp add: ops_renderToCanvas getContext_def)
  have 2: "eachLayer e = [] \<longrightarrow>
        generateImage e s =
          Fulfilled 0 (applyScale s (capture (the_map e)),
            getContext\<lparr>gs := (gs getContext)\<lparr>fillStyle := ''white''\<rparr>,
              calls := [(FillRect 0 0 (width (canvas (applyScale s (capture (the_map e)))))
                                     (height (canvas (applyScale s (capture (the_map e))))),
                         (gs getContext)\<lparr>fillStyle := ''white''\<rparr>)]\<rparr>)"
    by (simp add: generateImage_def collect_no_layers render_no_caches Let_def)
  have 3: "eachLayer e = [] \<and> handleDownload_click c = (c', Some s)
        \<and> toBlob e (canvas (applyScale s (capture (the_map e))))
             (''image/'' @ (case formatSelect c of None \<Rightarrow> exportFormat (opts c) | Some v \<Rightarrow> v)) \<longrightarrow>
        downloads (handleDownload e c) =
          downloads c @ [fileName (opts c) @ ''.'' @
                  (case formatSelect c of None \<Rightarrow> exportFormat (opts c) | Some v \<Rightarrow> v)]
        \<and> alerts (handleDownload e c) = alerts c"
  proof (intro impI, elim conjE)
    assume a: "eachLayer e = []" "handleDownload_click c = (c', Some s)"
      and b: "toBlob e (canvas (applyScale s (capture (the_map e))))
             (''image/'' @ (case formatSelect c of None \<Rightarrow> exportFormat (opts c) | Some v \<Rightarrow> v))"
    from a(2) have c': "c' = showProgress True (c\<lparr>isProcessing := True\<rparr>)"
      and idle: "\<not> isProcessing c"
      by (auto simp: handleDownload_click_def Let_def split: if_splits)
    from 2 a(1) obtain v where g: "generateImage e s = Fulfilled 0 (applyScale s (capture (the_map e)), v)"
      by blast
    show "downloads (handleDownload e c) =
          downloads c @ [fileName (opts c) @ ''.'' @
                  (case formatSelect c of None \<Rightarrow> exportFormat (opts c) | Some v \<Rightarrow> v)]
        \<and> alerts (handleDownload e c) = alerts c"
      using a(2) g b c'
      by (cases "formatSelect c")
        (simp_all add: handleDownload_def handleDownload_settle_def showProgress_def
          downloadCanvas_def Let_def)
  qed
  from 1 2 3 legacy_render_nothing [of m f t0 cx] show ?thesis by blast
qed

theorem render_fixed_order_witness:
  "generateImage empty_env 2 =
     Fulfilled 0 (sample_frame\<lparr>bounds := \<lparr>min_pt = \<lparr>px = -100, py = -100\<rparr>,
                                          max_pt = \<lparr>px = 300, py = 300\<rparr>\<rparr>,
                               canvas := \<lparr>width = 400, height = 400\<rparr>\<rparr>,
       getContext\<lparr>gs := (gs getContext)\<lparr>fillStyle := ''white''\<rparr>,
         calls := [(FillRect 0 0 400 400, (gs getContext)\<lparr>fillStyle := ''white''\<rparr>)]\<rparr>)
   \<and> downloads (handleDownload empty_env (idle_control\<lparr>scaleInput := Some 2\<rparr>)) = [''mapExport.png'']
   \<and> alerts (handleDownload empty_env (idle_control\<lparr>scaleInput := Some 2\<rparr>)) = []"
proof -
  have e: "eachLayer empty_env = []" by (simp add: empty_env_def)
  have k: "handleDownload_click (idle_control\<lparr>scaleInput := Some 2\<rparr>)
       = (idle_control\<lparr>scaleInput := Some 2, isProcessing := True, print_disabled := True,
                        loader_show := True\<rparr>, Some 2)"
    by (simp add: handleDownload_click_def idle_control_def validateScale_def Number_def
        showProgress_def Let_def)
  have f: "applyScale 2 (capture (the_map empty_env))
       = sample_frame\<lparr>bounds := \<lparr>min_pt = \<lparr>px = -100, py = -100\<rparr>,
                                   max_pt = \<lparr>px = 300, py = 300\<rparr>\<rparr>,
                        canvas := \<lparr>width = 400, height = 400\<rparr>\<rparr>"
    by (simp add: applyScale_unfold capture_def empty_env_def sample_map_def sample_frame_def
        Let_def set_width_def set_height_def createElement_canvas_def dimension_def
        ToUint32_def fl_exact)
  have b: "toBlob empty_env (canvas (applyScale 2 (capture (the_map empty_env)))) t" for t
    by (simp add: empty_env_def)
  from render_fixed_order [of sample_map sample_frame no_caches empty_env 2
      "idle_control\<lparr>scaleInput := Some 2\<rparr>"
      "idle_control\<lparr>scaleInput := Some 2, isProcessing := True, print_disabled := True,
                        loader_show := True\<rparr>"] e k b
  show ?thesis
    by (simp add: f idle_control_def)
qed

text \<open>
  C6 fails in the legacy variant, whose draw pass has no background fill: for a map
  without layers it makes no call at all, and the image downloaded is an untouched
  canvas.
\<close>

theorem legacy_render_without_background:
  "legacy_render sample_map sample_frame (legacy_no_caches None) getContext = Inr getContext
   \<and> calls getContext = []
   \<and> legacy_download empty_env legacy_idle = Some (legacy_idle\<lparr>lc_downloads := [''bigImage.png'']\<rparr>)"
proof -
  have 1: "legacy_render sample_map sample_frame (legacy_no_caches None) getContext = Inr getContext"
    by (simp add: legacy_render_def legacy_tile_pass_def legacy_no_caches_def values_of_def Let_def)
  have 2: "calls getContext = []" by (simp add: getContext_def)
  have 3: "legacy_download empty_env legacy_idle = Some (legacy_idle\<lparr>lc_downloads := [''bigImage.png'']\<rparr>)"
    by code_simp
  from 1 2 3 show ?thesis by blast
qed

subsection \<open>The global alpha\<close>

lemma alpha_set_one [simp]: "globalAlpha (gs (set_globalAlpha 1 c)) = 1"
  by (simp add: set_globalAlpha_def)

lemma alpha_applyPathStyle: "globalAlpha (gs (applyPathStyle po c)) = 1"
  by (simp add: applyPathStyle_def Let_def)

lemma alpha_drawPath: "globalAlpha (gs (drawPath pe c)) = 1"
  by (simp add: drawPath_def Let_def alpha_applyPathStyle)

lemma alpha_drawCircle:
  "globalAlpha (gs (drawCircle m f l c)) = (if empty_result l = Some True then globalAlpha (gs c) else 1)"
  by (simp add: drawCircle_def Let_def alpha_applyPathStyle)

lemma alpha_setters [simp]:
  "globalAlpha (gs (set_fillStyle v c)) = globalAlpha (gs c)"
  "globalAlpha (gs (set_strokeStyle v c)) = globalAlpha (gs c)"
  "globalAlpha (gs (set_lineWidth w c)) = globalAlpha (gs c)"
  "globalAlpha (gs (set_font v c)) = globalAlpha (gs c)"
  by (simp_all add: set_fillStyle_def set_strokeStyle_def set_lineWidth_def set_font_def)

text \<open>Every call a marker adds is made at the global alpha the context had before.\<close>

lemma marker_calls:
  "\<exists>xs. calls (drawMarker mk c) = calls c @ xs
        \<and> (\<forall>dg \<in> set xs. globalAlpha (snd dg) = globalAlpha (gs c))
        \<and> globalAlpha (gs (drawMarker mk c)) = globalAlpha (gs c)"
  by (auto simp: drawMarker_def drawText_def Let_def split: option.splits)

lemma markers_calls:
  "\<exists>xs. calls (fold drawMarker mks c) = calls c @ xs
        \<and> (\<forall>dg \<in> set xs. globalAlpha (snd dg) = globalAlpha (gs c))
        \<and> globalAlpha (gs (fold drawMarker mks c)) = globalAlpha (gs c)"
proof (induction mks arbitrary: c)
  case Nil
  then show ?case by simp
next
  case (Cons mk mks)
  from marker_calls [of mk c] obtain xs where xs: "calls (drawMarker mk c) = calls c @ xs"
    "\<forall>dg \<in> set xs. globalAlpha (snd dg) = globalAlpha (gs c)"
    "globalAlpha (gs (drawMarker mk c)) = globalAlpha (gs c)"
    by blast
  from Cons.IH [of "drawMarker mk c"] obtain ys where ys:
    "calls (fold drawMarker mks (drawMarker mk c)) = calls (drawMarker mk c) @ ys"
    "\<forall>dg \<in> set ys. globalAlpha (snd dg) = globalAlpha (gs (drawMarker mk c))"
    "globalAlpha (gs (fold drawMarker mks (drawMarker mk c))) = globalAlpha (gs (drawMarker mk c))"
    by blast
  from xs ys show ?case
    by (intro exI [of _ "xs @ ys"]) auto
qed

lemma alpha_fold_paths:
  "globalAlpha (gs c) = 1 \<Longrightarrow> globalAlpha (gs (fold drawPath ps c)) = 1"
  by (induction ps arbitrary: c) (simp_all add: alpha_drawPath)

lemma alpha_fold_circles:
  "globalAlpha (gs c) = 1 \<Longrightarrow> globalAlpha (gs (fold (drawCircle m f) ls c)) = 1"
  by (induction ls arbitrary: c) (simp_all add: alpha_drawCircle)

lemma legacy_feelPath_alpha:
  "stroke po = Some True \<and> weight po \<noteq> Some 0 \<and> opacity po = Some a \<and> 0 \<le> a \<and> a \<le> 1 \<longrightarrow>
     globalAlpha (gs (legacy_feelPath po c)) = a"
  by (auto simp: legacy_feelPath_def Let_def if_defined_def set_globalAlpha_def call_def
      setLineDash_def set_lineWidth_def set_strokeStyle_def set_lineCap_def set_lineJoin_def
      set_fillStyle_def split: option.splits)

text \<open>
  C9, for the Leaflet 2 variant. The global alpha is \<open>1\<close> after the style of a path or
  circle is applied, so after every path and every circle drawn, and after the tile
  pass as a whole. Inside the tile pass every tile (with an opacity in \<open>[0, 1]\<close>) is
  drawn at its own opacity. Starting at \<open>1\<close>, the alpha is \<open>1\<close> again after the pass of
  the paths, of the markers and of the circles, and every call of the marker pass is
  made at \<open>1\<close>. In the legacy variant the alpha a stroke was made at (a stroke opacity
  in \<open>[0, 1]\<close>) stays in force after the path.
\<close>

theorem alpha_reset_after_paths_circles_and_tile_pass:
  "globalAlpha (gs (applyPathStyle po c)) = 1
   \<and> globalAlpha (gs (drawPath pe c)) = 1
   \<and> (empty_result l \<noteq> Some True \<longrightarrow> globalAlpha (gs (drawCircle m f l c)) = 1)
   \<and> globalAlpha (gs (renderTiles cs c)) = 1
   \<and> (0 \<le> tile_opacity t \<and> tile_opacity t \<le> 1 \<longrightarrow>
        calls (drawTile t c) = calls c @ [(spec_tile t, (gs c)\<lparr>globalAlpha := tile_opacity t\<rparr>)])
   \<and> (globalAlpha (gs c) = 1 \<longrightarrow>
        globalAlpha (gs (renderPaths cs c)) = 1
      \<and> globalAlpha (gs (renderMarkers cs c)) = 1
      \<and> globalAlpha (gs (renderCircles m f cs c)) = 1
      \<and> (\<forall>dg \<in> set (drop (length (calls c)) (calls (renderMarkers cs c))). globalAlpha (snd dg) = 1))
   \<and> (stroke lo = Some True \<and> weight lo \<noteq> Some 0 \<and> opacity lo = Some a \<and> 0 \<le> a \<and> a \<le> 1 \<longrightarrow>
        globalAlpha (gs (legacy_feelPath lo c)) = a)"
proof -
  have 1: "0 \<le> tile_opacity t \<and> tile_opacity t \<le> 1 \<longrightarrow>
        calls (drawTile t c) = calls c @ [(spec_tile t, (gs c)\<lparr>globalAlpha := tile_opacity t\<rparr>)]"
    by (simp add: drawTile_def spec_tile_def set_globalAlpha_def)
  have 2: "globalAlpha (gs (renderTiles cs c)) = 1"
    by (simp add: renderTiles_def)
  have 3: "globalAlpha (gs c) = 1 \<longrightarrow>
        globalAlpha (gs (renderPaths cs c)) = 1
      \<and> globalAlpha (gs (renderMarkers cs c)) = 1
      \<and> globalAlpha (gs (renderCircles m f cs c)) = 1
      \<and> (\<forall>dg \<in> set (drop (length (calls c)) (calls (renderMarkers cs c))). globalAlpha (snd dg) = 1)"
  proof
    assume a: "globalAlpha (gs c) = 1"
    from markers_calls [of "values_of (markers cs)" c] obtain xs where
      xs: "calls (renderMarkers cs c) = calls c @ xs"
      "\<forall>dg \<in> set xs. globalAlpha (snd dg) = globalAlpha (gs c)"
      "globalAlpha (gs (renderMarkers cs c)) = globalAlpha (gs c)"
      unfolding renderMarkers_def by blast
    from a xs alpha_fold_paths [OF a] alpha_fold_circles [OF a]
    show "globalAlpha (gs (renderPaths cs c)) = 1
      \<and> globalAlpha (gs (renderMarkers cs c)) = 1
      \<and> globalAlpha (gs (renderCircles m f cs c)) = 1
      \<and> (\<forall>dg \<in> set (drop (length (calls c)) (calls (renderMarkers cs c))). globalAlpha (snd dg) = 1)"
      by (simp add: renderPaths_def renderCircles_def)
  qed
  have 4: "empty_result l \<noteq> Some True \<longrightarrow> globalAlpha (gs (drawCircle m f l c)) = 1"
    by (simp add: alpha_drawCircle)
  from 1 2 3 4 alpha_applyPathStyle [of po c] alpha_drawPath [of pe c]
    legacy_feelPath_alpha [of lo a c]
  show ?thesis by blast
qed

theorem alpha_reset_after_paths_circles_and_tile_pass_witness:
  "calls (drawTile half_tile getContext)
     = [(DrawImage ''tile'' 0 0 (Some (256, 256)), (gs getContext)\<lparr>globalAlpha := 1 / 2\<rparr>)]
   \<and> globalAlpha (gs (renderTiles (no_caches\<lparr>tilesImgs := [(5, [((0, 0, 3), half_tile)])]\<rparr>) getContext)) = 1
   \<and> globalAlpha (gs (drawCircle sample_map sample_frame oval_circle getContext)) = 1"
  using alpha_reset_after_paths_circles_and_tile_pass
    [of plain_options getContext "\<lparr>parts = [], closed = False, options = plain_options\<rparr>"
        oval_circle sample_map sample_frame
        "no_caches\<lparr>tilesImgs := [(5, [((0, 0, 3), half_tile)])]\<rparr>" half_tile]
  by (simp add: half_tile_def getContext_def oval_circle_def spec_tile_def)

text \<open>
  C9 as stated fails. In the Leaflet 2 variant the alpha is not reset after an individual
  tile: after a tile of opacity one half it is one half. In the legacy variant nothing
  resets it: after a stroke of opacity one half it stays one half, and the marker drawn
  next is drawn at one half.
\<close>

theorem alpha_not_reset_counterexample:
  "globalAlpha (gs (drawTile half_tile getContext)) = 1 / 2
   \<and> globalAlpha (gs (legacy_feelPath faint_options getContext)) = 1 / 2
   \<and> map_sum id (\<lambda>c. map (\<lambda>dg. (fst dg, globalAlpha (snd dg))) (calls c))
        (legacy_render sample_map sample_frame legacy_faint getContext)
     = Inr [(BeginPath, 1), (MoveTo 10 10, 1), (LineTo 50 50, 1), (Stroke, 1 / 2),
            (DrawImage ''pin'' 20 20 None, 1 / 2)]"
proof -
  have 1: "globalAlpha (gs (drawTile half_tile getContext)) = 1 / 2"
    by (simp add: drawTile_def half_tile_def getContext_def set_globalAlpha_def call_def)
  have 2: "globalAlpha (gs (legacy_feelPath faint_options getContext)) = 1 / 2"
    by (simp add: legacy_feelPath_def faint_options_def plain_options_def getContext_def
        set_globalAlpha_def call_def Let_def if_defined_def setLineDash_def set_lineWidth_def
        set_strokeStyle_def set_lineCap_def set_lineJoin_def)
  have 3: "map_sum id (\<lambda>c. map (\<lambda>dg. (fst dg, globalAlpha (snd dg))) (calls c))
        (legacy_render sample_map sample_frame legacy_faint getContext)
     = Inr [(BeginPath, 1), (MoveTo 10 10, 1), (LineTo 50 50, 1), (Stroke, 1 / 2),
            (DrawImage ''pin'' 20 20 None, 1 / 2)]"
    by code_simp
  from 1 2 3 show ?thesis by blast
qed

subsection \<open>The tile size of the legacy draw pass\<close>

lemma legacy_getTileLayer_tileSize:
  "legacy_getTileLayer nt f l acc = Some acc' \<Longrightarrow> l_tileSize (fst acc') = Some (tileSize_x l)"
  by (cases acc) (auto simp: legacy_getTileLayer_def split: option.splits)

lemma legacy_getMarkerLayer_tileSize:
  "l_tileSize (fst (legacy_getMarkerLayer nt m f l acc)) = l_tileSize (fst acc)"
  by (cases acc) (auto simp: legacy_getMarkerLayer_def Let_def)

lemma legacy_getPathLayer_tileSize:
  "legacy_getPathLayer m f l c = Inr c' \<Longrightarrow> l_tileSize c' = l_tileSize c"
  by (auto simp: legacy_getPathLayer_def split: option.splits jsv.splits if_splits sum.splits)

lemma legacy_getLayers_tileSize:
  assumes "legacy_getLayers nt m f ls acc = Some acc'"
  shows "l_tileSize (fst (fst acc')) =
           (if tile_layers ls = [] then l_tileSize (fst (fst acc))
            else Some (tileSize_x (last (tile_layers ls))))"
  using assms
proof (induction nt m f ls acc rule: legacy_getLayers.induct)
  case (1 nt m f acc)
  then show ?case by simp
next
  case (2 nt m f l ls acc)
  then show ?case by (simp add: legacy_getMarkerLayer_tileSize)
next
  case (3 nt m f l ls acc)
  from 3(2) obtain a where a: "legacy_getTileLayer nt f l (fst acc) = Some a"
    by (auto split: option.splits)
  with 3 legacy_getTileLayer_tileSize [OF a] show ?case by simp
next
  case (4 nt m f l ls acc)
  then show ?case by (cases "fst acc") (simp add: case_prod_beta)
next
  case (5 nt m f l ls acc)
  obtain c tasks where fa: "fst acc = (c, tasks)" by (cases "fst acc")
  show ?case
  proof (cases "legacy_getPathLayer m f l c")
    case (Inl e)
    with 5 fa show ?thesis by simp
  next
    case (Inr c')
    with 5 fa legacy_getPathLayer_tileSize [OF Inr] show ?thesis by simp
  qed
next
  case (6 nt m f ls acc)
  then show ?case by simp
qed

lemma legacy_on_event_tileSize:
  "l_tileSize (fst (legacy_on_event tasks s e)) = l_tileSize (fst s)"
proof -
  have st: "legacy_store sl c = Some c' \<Longrightarrow> l_tileSize c' = l_tileSize c" for sl c c'
    by (cases sl) (auto split: option.splits if_splits)
  obtain c ts where s: "s = (c, ts)" by (cases s)
  obtain t i k where e: "e = (t, i, k)" by (cases e)
  show ?thesis
    using st [of "slot (tasks ! i)" c]
    by (cases k) (auto simp: s e legacy_on_event_def split: option.splits)
qed

lemma run_events_tileSize:
  "run_events (legacy_on_event tasks) es now s = Some (T, c') \<Longrightarrow> l_tileSize c' = l_tileSize (fst s)"
proof (induction es arbitrary: now s)
  case Nil
  then show ?case by (auto split: if_splits)
next
  case (Cons e es)
  show ?case
  proof (cases "list_all resolved (snd s)")
    case True
    with Cons.prems show ?thesis by simp
  next
    case False
    with Cons.prems have "run_events (legacy_on_event tasks) es (fst e) (legacy_on_event tasks s e) = Some (T, c')"
      by simp
    from Cons.IH [OF this] show ?thesis by (simp add: legacy_on_event_tileSize)
  qed
qed

lemma legacy_tile_pass_calls:
  assumes "l_tileSize cs = Some t"
  shows "calls (legacy_tile_pass cs cx) =
           calls cx @ map (\<lambda>v. (DrawImage (l_img v) (l_x v) (l_y v) (Some (t, t)), gs cx))
                        (concat (map values_of (values_of (l_tilesImgs cs))))"
proof -
  have "calls (fold (legacy_drawTile (Some t)) vs cx) =
          calls cx @ map (\<lambda>v. (DrawImage (l_img v) (l_x v) (l_y v) (Some (t, t)), gs cx)) vs
        \<and> gs (fold (legacy_drawTile (Some t)) vs cx) = gs cx" for vs
    by (induction vs arbitrary: cx) (simp_all add: legacy_drawTile_def)
  with assms show ?thesis by (simp add: legacy_tile_pass_def)
qed

text \<open>
  C10. In the legacy variant, when the Collect phase of a map with at least one tile
  layer has ended, \<^verbatim>\<open>self.tileSize\<close> is the tile size of the last tile layer of the walk,
  and the draw pass draws every cached tile, of whatever layer, with that size.
\<close>

theorem legacy_tiles_drawn_with_last_tile_size:
  assumes "legacy_getLayers nt m f ls ((legacy_no_caches ts0, []), []) = Some ((c0, tasks), lg)"
      and "legacy_await_loads tasks c0 = Some (T, cs)"
      and "tile_layers ls \<noteq> []"
  shows "l_tileSize cs = Some (tileSize_x (last (tile_layers ls)))
       \<and> calls (legacy_tile_pass cs cx) =
           calls cx @ map (\<lambda>v. (DrawImage (l_img v) (l_x v) (l_y v)
                                    (Some (tileSize_x (last (tile_layers ls)),
                                           tileSize_x (last (tile_layers ls)))), gs cx))
                        (concat (map values_of (values_of (l_tilesImgs cs))))"
proof -
  from legacy_getLayers_tileSize [OF assms(1)] assms(3)
  have "l_tileSize c0 = Some (tileSize_x (last (tile_layers ls)))" by simp
  with run_events_tileSize [of tasks "events_of tasks" 0 "(c0, map legacy_init_tstate tasks)" T cs]
    assms(2)
  have ts: "l_tileSize cs = Some (tileSize_x (last (tile_layers ls)))"
    by (simp add: legacy_await_loads_def)
  from ts legacy_tile_pass_calls [OF ts, of cx] show ?thesis by simp
qed


theorem legacy_tiles_drawn_with_last_tile_size_witness:
  "tileSize_x sample_tiles = 256 \<and> tileSize_x big_tiles = 512
   \<and> calls (legacy_tile_pass two_layer_caches getContext)
       = [(DrawImage ''tile'' 0 0 (Some (512, 512)), gs getContext),
          (DrawImage ''big'' 0 0 (Some (512, 512)), gs getContext)]"
proof -
  have g: "legacy_getLayers (\<lambda>u. Loads 50) sample_map sample_frame
             [TileLayer sample_tiles, TileLayer big_tiles] ((legacy_no_caches None, []), [])
           = Some ((\<lparr>l_tilesImgs = [(5, []), (6, [])], l_markers = [], l_path = [],
                      l_circles = [], l_tileSize = Some 512\<rparr>,
                    [\<lparr>slot = TileSlot 5 (0, 0, 3) \<lparr>l_img = ''tile'', l_x = 0, l_y = 0\<rparr>,
                        fetch = Some (Loads 50), timer = None\<rparr>,
                     \<lparr>slot = TileSlot 6 (0, 0, 3) \<lparr>l_img = ''big'', l_x = 0, l_y = 0\<rparr>,
                        fetch = Some (Loads 50), timer = None\<rparr>]), [])"
    by code_simp
  have a: "legacy_await_loads
             [\<lparr>slot = TileSlot 5 (0, 0, 3) \<lparr>l_img = ''tile'', l_x = 0, l_y = 0\<rparr>,
                 fetch = Some (Loads 50), timer = None\<rparr>,
              \<lparr>slot = TileSlot 6 (0, 0, 3) \<lparr>l_img = ''big'', l_x = 0, l_y = 0\<rparr>,
                 fetch = Some (Loads 50), timer = None\<rparr>]
             \<lparr>l_tilesImgs = [(5, []), (6, [])], l_markers = [], l_path = [],
                l_circles = [], l_tileSize = Some 512\<rparr>
           = Some (50, two_layer_caches)"
    by code_simp
  have t: "tile_layers [TileLayer sample_tiles, TileLayer big_tiles] \<noteq> []" by simp
  from legacy_tiles_drawn_with_last_tile_size [OF g a t, of getContext]
  show ?thesis
    by (simp add: two_layer_caches_def values_of_def sample_tiles_def big_tiles_def
        getContext_def)
qed

end
